theory Spec2Isabelle
  imports Complex_Main "HOL-Library.Log_Nat" "HOL-Library.AList"
begin

text \<open>
  A model of the learning core of CARLA, an agent that learns espresso brewing
  parameters from a user's ratings: the data classes of \<^verbatim>\<open>models.py\<close>, the environment of
  \<^verbatim>\<open>env.py\<close> (state and action keys, discretisation, reward) and the Q-learning agent of
  \<^verbatim>\<open>agent.py\<close>. The definitions follow the Python source function by function; the
  agent's mutable state is a record that every method takes and returns, the random
  numbers a method draws are arguments, and a raised exception is a value. A method
  keeps its name, without the leading underscore of a private one. The environment
  object has no state of its own and is left out of the agent's record; a context is
  built by the caller from the present date and the roast date, so its number of days
  is any integer.
\<close>

section \<open>Python numbers\<close>

text \<open>
  Python's \<^verbatim>\<open>int\<close> is the type \<open>int\<close>. A Python \<^verbatim>\<open>float\<close> is an IEEE 754
  binary64 number; a finite one is modelled by its exact value, a rational. Every
  arithmetic operation on floats returns the exact result rounded to nearest, ties to
  even (\<open>fl\<close>): to 53 significant bits in the normal range, from \<open>2^-1022\<close> on, and to a
  multiple of \<open>2^-1074\<close> below it (gradual underflow, the subnormal numbers and zero).
  The model has no upper end: it agrees with binary64 as long as every magnitude stays
  below \<open>2^1024\<close>, and has no infinity and no NaN. The sign of zero is not modelled
  (\<^verbatim>\<open>-0.0 == 0.0\<close> in Python).
\<close>

type_synonym pyfloat = rat

definition pow2 :: "int \<Rightarrow> rat" where
  "pow2 e = (if 0 \<le> e then 2 ^ nat e else 1 / 2 ^ nat (- e))"

text \<open>The binary exponent of a non-zero number: \<open>pow2 (expo x) \<le> \<bar>x\<bar> < pow2 (expo x + 1)\<close>.\<close>

definition expo :: "rat \<Rightarrow> int" where
  "expo x =
     (if 1 \<le> \<bar>x\<bar> then bitlen \<lfloor>\<bar>x\<bar>\<rfloor> - 1
      else - bitlen (\<lceil>1 / \<bar>x\<bar>\<rceil> - 1))"

definition round_half_even :: "rat \<Rightarrow> int" where
  "round_half_even x =
     (let f = \<lfloor>x\<rfloor>; d = x - of_int f
      in if d < 1 / 2 then f
         else if 1 / 2 < d then f + 1
         else if even f then f else f + 1)"

definition fl :: "rat \<Rightarrow> pyfloat" where
  "fl x =
     (if x = 0 then 0
      else let s = pow2 (max (expo x) (- 1022) - 52)
           in of_int (round_half_even (x / s)) * s)"

definition is_double :: "rat \<Rightarrow> bool" where
  "is_double x = (fl x = x)"

definition fadd :: "pyfloat \<Rightarrow> pyfloat \<Rightarrow> pyfloat" where
  "fadd a b = fl (a + b)"

definition fsub :: "pyfloat \<Rightarrow> pyfloat \<Rightarrow> pyfloat" where
  "fsub a b = fl (a - b)"

definition fmul :: "pyfloat \<Rightarrow> pyfloat \<Rightarrow> pyfloat" where
  "fmul a b = fl (a * b)"

definition fdiv :: "pyfloat \<Rightarrow> pyfloat \<Rightarrow> pyfloat" where
  "fdiv a b = fl (a / b)"

text \<open>\<^verbatim>\<open>int(x)\<close> truncates towards zero; \<^verbatim>\<open>round(x)\<close> rounds half to even.\<close>

definition py_int :: "pyfloat \<Rightarrow> int" where
  "py_int x = (if 0 \<le> x then \<lfloor>x\<rfloor> else \<lceil>x\<rceil>)"

definition py_round :: "pyfloat \<Rightarrow> int" where
  "py_round x = round_half_even x"

text \<open>\<^verbatim>\<open>sum(xs)\<close> starts from the integer 0 and adds from the left.\<close>

definition py_sum :: "pyfloat list \<Rightarrow> pyfloat" where
  "py_sum xs = foldl fadd 0 xs"


section \<open>Python strings\<close>

definition digit_char :: "nat \<Rightarrow> char" where
  "digit_char d = ''0123456789'' ! d"

fun str_nat :: "nat \<Rightarrow> string" where
  "str_nat n = (if n < 10 then [digit_char n] else str_nat (n div 10) @ [digit_char (n mod 10)])"

declare str_nat.simps [simp del]

text \<open>\<^verbatim>\<open>str(i)\<close> and \<^verbatim>\<open>str(b)\<close>, as the f-strings of the keys format them.\<close>

definition str_int :: "int \<Rightarrow> string" where
  "str_int i = (if i < 0 then CHR ''-'' # str_nat (nat (- i)) else str_nat (nat i))"

definition str_bool :: "bool \<Rightarrow> string" where
  "str_bool b = (if b then ''True'' else ''False'')"

text \<open>\<^verbatim>\<open>s.split(c)\<close>: the pieces between the occurrences of \<open>c\<close>, never an empty list.\<close>

fun split_on :: "char \<Rightarrow> string \<Rightarrow> string list" where
  "split_on c [] = [[]]"
| "split_on c (x # xs) =
     (if x = c then [] # split_on c xs
      else (case split_on c xs of
              w # ws \<Rightarrow> (x # w) # ws
            | [] \<Rightarrow> [[x]]))"

text \<open>
  \<^verbatim>\<open>int(s)\<close> on an ASCII string without underscores: surrounding whitespace (space,
  \<^verbatim>\<open>\t\<close>, \<^verbatim>\<open>\n\<close>, \<^verbatim>\<open>\v\<close>, \<^verbatim>\<open>\f\<close>, \<^verbatim>\<open>\r\<close>) is skipped, one sign is allowed, at least one
  decimal digit must follow and nothing else, and there are no more digits than the
  interpreter's limit on integer strings (\<^verbatim>\<open>sys.int_info.default_max_str_digits\<close>, 4300
  in CPython 3.11). \<open>None\<close> stands for the \<^verbatim>\<open>ValueError\<close>.
\<close>

definition is_space :: "char \<Rightarrow> bool" where
  "is_space c = ((of_char c :: nat) \<in> set [9, 10, 11, 12, 13, 32])"

definition int_max_str_digits :: nat where
  "int_max_str_digits = 4300"

definition is_digit :: "char \<Rightarrow> bool" where
  "is_digit c = (48 \<le> (of_char c :: nat) \<and> (of_char c :: nat) \<le> 57)"

definition digit_val :: "char \<Rightarrow> nat" where
  "digit_val c = of_char c - 48"

definition nat_of_digits :: "string \<Rightarrow> nat" where
  "nat_of_digits ds = foldl (\<lambda>acc c. 10 * acc + digit_val c) 0 ds"

definition strip :: "string \<Rightarrow> string" where
  "strip s = rev (dropWhile is_space (rev (dropWhile is_space s)))"

definition parse_unsigned :: "string \<Rightarrow> nat option" where
  "parse_unsigned ds =
     (if ds \<noteq> [] \<and> list_all is_digit ds \<and> length ds \<le> int_max_str_digits
      then Some (nat_of_digits ds) else None)"

definition parse_int :: "string \<Rightarrow> int option" where
  "parse_int s =
     (case strip s of
        [] \<Rightarrow> None
      | c # r \<Rightarrow>
          if c = CHR ''-'' then map_option (\<lambda>n. - int n) (parse_unsigned r)
          else if c = CHR ''+'' then map_option int (parse_unsigned r)
          else map_option int (parse_unsigned (c # r)))"


section \<open>models.py\<close>

record BrewAction =
  grind_size :: int
  brew_volume :: pyfloat
  coffee_dose :: pyfloat

record BrewState =
  is_first_brew :: bool
  days_since_roast :: int

record BrewEvaluation =
  bitterness :: "int option"
  acidity :: "int option"
  taste_strength :: "int option"
  overall_experience :: "int option"
  brew_time :: "pyfloat option"
  channeling :: "int option"

definition MIN_RATING :: int where "MIN_RATING = 1"
definition MAX_RATING :: int where "MAX_RATING = 10"

text \<open>The two \<^verbatim>\<open>ValueError\<close>s of \<^verbatim>\<open>BrewEvaluation.__post_init__\<close>: the field and the
  value of the rejected rating, or the rejected brew time.\<close>

datatype error = RatingOutOfRange string int | BrewTimeNotPositive pyfloat

text \<open>The loop over the five ratings, in the order of the source; the first rating that
  is provided and out of range raises.\<close>

fun check_ratings :: "(string \<times> int option) list \<Rightarrow> error option" where
  "check_ratings [] = None"
| "check_ratings ((field_name, None) # rest) = check_ratings rest"
| "check_ratings ((field_name, Some v) # rest) =
     (if \<not> (MIN_RATING \<le> v \<and> v \<le> MAX_RATING) then Some (RatingOutOfRange field_name v)
      else check_ratings rest)"

text \<open>Constructing an evaluation: the dataclass stores the six fields as given and runs
  \<^verbatim>\<open>__post_init__\<close>; \<open>Inl\<close> is the raised error, \<open>Inr\<close> the constructed object.\<close>

definition post_init :: "BrewEvaluation \<Rightarrow> error + BrewEvaluation" where
  "post_init ev =
     (case check_ratings
             [(''bitterness'', bitterness ev),
              (''acidity'', acidity ev),
              (''taste_strength'', taste_strength ev),
              (''overall_experience'', overall_experience ev),
              (''channeling'', channeling ev)] of
        Some e \<Rightarrow> Inl e
      | None \<Rightarrow>
          (case brew_time ev of
             None \<Rightarrow> Inr ev
           | Some t \<Rightarrow> if t \<le> 0 then Inl (BrewTimeNotPositive t) else Inr ev))"

definition no_evaluation :: BrewEvaluation where
  "no_evaluation =
     \<lparr>bitterness = None, acidity = None, taste_strength = None,
      overall_experience = None, brew_time = None, channeling = None\<rparr>"


section \<open>env.py\<close>

definition IDEAL_METRIC_MIN :: int where "IDEAL_METRIC_MIN = 5"
definition IDEAL_METRIC_MAX :: int where "IDEAL_METRIC_MAX = 6"
definition ACCEPTABLE_METRIC_MIN :: int where "ACCEPTABLE_METRIC_MIN = 4"
definition ACCEPTABLE_METRIC_MAX :: int where "ACCEPTABLE_METRIC_MAX = 7"
definition LOW_CHANNELING_THRESHOLD :: int where "LOW_CHANNELING_THRESHOLD = 3"
definition HIGH_CHANNELING_THRESHOLD :: int where "HIGH_CHANNELING_THRESHOLD = 7"
definition IDEAL_BREW_TIME_MIN :: int where "IDEAL_BREW_TIME_MIN = 25"
definition IDEAL_BREW_TIME_MAX :: int where "IDEAL_BREW_TIME_MAX = 35"
definition MIN_BREW_TIME :: int where "MIN_BREW_TIME = 20"
definition MAX_BREW_TIME :: int where "MAX_BREW_TIME = 45"

definition GRIND_SIZE_BOUNDS :: "int \<times> int" where "GRIND_SIZE_BOUNDS = (1, 30)"
definition BREW_VOLUME_BOUNDS :: "pyfloat \<times> pyfloat" where "BREW_VOLUME_BOUNDS = (25, 50)"
definition COFFEE_DOSE_BOUNDS :: "pyfloat \<times> pyfloat" where "COFFEE_DOSE_BOUNDS = (15, 25)"
definition GRIND_SIZE_STEPS :: int where "GRIND_SIZE_STEPS = 30"
definition BREW_VOLUME_STEPS :: int where "BREW_VOLUME_STEPS = 10"
definition COFFEE_DOSE_STEPS :: int where "COFFEE_DOSE_STEPS = 10"

text \<open>The float literals \<^verbatim>\<open>0.1\<close> and \<^verbatim>\<open>0.2\<close> are the doubles nearest to 1/10 and 1/5;
  \<^verbatim>\<open>0.5\<close>, \<^verbatim>\<open>4.5\<close> and \<^verbatim>\<open>5.5\<close> are exact.\<close>

definition lit_0_1 :: pyfloat where "lit_0_1 = fl (1 / 10)"
definition lit_0_2 :: pyfloat where "lit_0_2 = fl (2 / 10)"

definition state_to_key :: "BrewState \<Rightarrow> string" where
  "state_to_key state =
     str_bool (is_first_brew state) @ ''_'' @ str_int (min (days_since_roast state) 30)"

definition discretize_grind :: "int \<Rightarrow> int" where
  "discretize_grind g =
     (case GRIND_SIZE_BOUNDS of (min_val, max_val) \<Rightarrow>
        let idx = py_int (fmul (fdiv (of_int (g - min_val)) (of_int (max_val - min_val)))
                               (of_int (GRIND_SIZE_STEPS - 1)))
        in max 0 (min (GRIND_SIZE_STEPS - 1) idx))"

definition discretize_volume :: "pyfloat \<Rightarrow> int" where
  "discretize_volume v =
     (case BREW_VOLUME_BOUNDS of (min_val, max_val) \<Rightarrow>
        let idx = py_int (fmul (fdiv (fsub v min_val) (fsub max_val min_val))
                               (of_int (BREW_VOLUME_STEPS - 1)))
        in max 0 (min (BREW_VOLUME_STEPS - 1) idx))"

definition discretize_dose :: "pyfloat \<Rightarrow> int" where
  "discretize_dose d =
     (case COFFEE_DOSE_BOUNDS of (min_val, max_val) \<Rightarrow>
        let idx = py_int (fmul (fdiv (fsub d min_val) (fsub max_val min_val))
                               (of_int (COFFEE_DOSE_STEPS - 1)))
        in max 0 (min (COFFEE_DOSE_STEPS - 1) idx))"

text \<open>
  The three functions from an index to a value are modelled where their floats exist:
  an index whose quotient, product or sum reaches \<open>2^1024\<close> makes Python raise
  \<^verbatim>\<open>OverflowError\<close> or compute an infinity (see \<open>in_float_range\<close> below).
\<close>

definition undiscretize_grind :: "int \<Rightarrow> int" where
  "undiscretize_grind idx =
     (case GRIND_SIZE_BOUNDS of (min_val, max_val) \<Rightarrow>
        let grind_float =
              fadd (of_int min_val)
                   (fmul (fdiv (of_int idx) (of_int (GRIND_SIZE_STEPS - 1)))
                         (of_int (max_val - min_val)))
        in py_round grind_float)"

definition undiscretize_volume :: "int \<Rightarrow> pyfloat" where
  "undiscretize_volume idx =
     (case BREW_VOLUME_BOUNDS of (min_val, max_val) \<Rightarrow>
        fadd min_val
             (fmul (fdiv (of_int idx) (of_int (BREW_VOLUME_STEPS - 1)))
                   (fsub max_val min_val)))"

definition undiscretize_dose :: "int \<Rightarrow> pyfloat" where
  "undiscretize_dose idx =
     (case COFFEE_DOSE_BOUNDS of (min_val, max_val) \<Rightarrow>
        fadd min_val
             (fmul (fdiv (of_int idx) (of_int (COFFEE_DOSE_STEPS - 1)))
                   (fsub max_val min_val)))"

definition action_to_key :: "BrewAction \<Rightarrow> string" where
  "action_to_key action =
     (let grind_idx = discretize_grind (grind_size action);
          volume_idx = discretize_volume (brew_volume action);
          dose_idx = discretize_dose (coffee_dose action)
      in str_int grind_idx @ ''_'' @ str_int volume_idx @ ''_'' @ str_int dose_idx)"

definition action_from_indices :: "int \<Rightarrow> int \<Rightarrow> int \<Rightarrow> BrewAction" where
  "action_from_indices grind_idx volume_idx dose_idx =
     \<lparr>grind_size = undiscretize_grind grind_idx,
      brew_volume = undiscretize_volume volume_idx,
      coffee_dose = undiscretize_dose dose_idx\<rparr>"

text \<open>The values that the random number generator returns to one call of
  \<^verbatim>\<open>suggest_action\<close>: \<^verbatim>\<open>random.random()\<close>, and the results of \<^verbatim>\<open>randint\<close> and of the
  two \<^verbatim>\<open>uniform\<close> calls of \<^verbatim>\<open>get_random_action\<close>.\<close>

record draws =
  rand_unit :: pyfloat
  rand_grind :: int
  rand_volume :: pyfloat
  rand_dose :: pyfloat

definition get_random_action :: "draws \<Rightarrow> BrewAction" where
  "get_random_action r =
     \<lparr>grind_size = rand_grind r, brew_volume = rand_volume r, coffee_dose = rand_dose r\<rparr>"

definition get_baseline_action :: "BrewState \<Rightarrow> BrewAction" where
  "get_baseline_action state = \<lparr>grind_size = 15, brew_volume = 40, coffee_dose = 18\<rparr>"

text \<open>The loop of \<^verbatim>\<open>_calculate_metrics_reward\<close>, appending to \<^verbatim>\<open>metrics\<close>.\<close>

fun metrics_loop :: "int option list \<Rightarrow> pyfloat list \<Rightarrow> pyfloat list" where
  "metrics_loop [] metrics = metrics"
| "metrics_loop (None # rest) metrics = metrics_loop rest metrics"
| "metrics_loop (Some v # rest) metrics =
     (if IDEAL_METRIC_MIN \<le> v \<and> v \<le> IDEAL_METRIC_MAX
        then metrics_loop rest (metrics @ [1 / 2])
      else if ACCEPTABLE_METRIC_MIN \<le> v \<and> v \<le> ACCEPTABLE_METRIC_MAX
        then metrics_loop rest (metrics @ [lit_0_2])
      else metrics_loop rest (metrics @ [- lit_0_2]))"

definition calculate_metrics_reward :: "BrewEvaluation \<Rightarrow> pyfloat" where
  "calculate_metrics_reward evaluation =
     (let metrics = metrics_loop [bitterness evaluation, acidity evaluation,
                                  taste_strength evaluation] []
      in if metrics \<noteq> [] then fdiv (py_sum metrics) (of_nat (length metrics)) else 0)"

definition calculate_channeling_bonus :: "BrewEvaluation \<Rightarrow> pyfloat" where
  "calculate_channeling_bonus evaluation =
     (case channeling evaluation of
        None \<Rightarrow> 0
      | Some c \<Rightarrow>
          if c \<le> LOW_CHANNELING_THRESHOLD then lit_0_1
          else if HIGH_CHANNELING_THRESHOLD \<le> c then - lit_0_2
          else 0)"

definition calculate_brew_time_bonus :: "BrewEvaluation \<Rightarrow> pyfloat" where
  "calculate_brew_time_bonus evaluation =
     (case brew_time evaluation of
        None \<Rightarrow> 0
      | Some t \<Rightarrow>
          if of_int IDEAL_BREW_TIME_MIN \<le> t \<and> t \<le> of_int IDEAL_BREW_TIME_MAX then lit_0_1
          else if t < of_int MIN_BREW_TIME \<or> of_int MAX_BREW_TIME < t then - lit_0_1
          else 0)"

definition calculate_reward :: "BrewEvaluation \<Rightarrow> pyfloat" where
  "calculate_reward evaluation =
     (let reward = (case overall_experience evaluation of
                      Some oe \<Rightarrow> fdiv (fsub (of_int oe) (11 / 2)) (9 / 2)
                    | None \<Rightarrow> calculate_metrics_reward evaluation);
          reward = fadd reward (calculate_channeling_bonus evaluation);
          reward = fadd reward (calculate_brew_time_bonus evaluation)
      in max (- 1) (min 1 reward))"


section \<open>agent.py\<close>

text \<open>
  A \<^verbatim>\<open>dict\<close> keeps its keys in insertion order, and the order decides ties in
  \<^verbatim>\<open>max\<close> and \<^verbatim>\<open>sorted\<close>: the table is an association list, a row of it as well.
  Assigning to a key replaces its value in place or appends the new key
  (\<open>AList.update\<close>).
\<close>

type_synonym q_row = "(string \<times> pyfloat) list"
type_synonym q_table_t = "(string \<times> q_row) list"

record BrewingAgent =
  learning_rate :: pyfloat
  discount_factor :: pyfloat
  epsilon :: pyfloat
  epsilon_decay :: pyfloat
  min_epsilon :: pyfloat
  q_table :: q_table_t
  last_state_key :: "string option"
  last_action_key :: "string option"

definition BrewingAgent_init ::
  "pyfloat \<Rightarrow> pyfloat \<Rightarrow> pyfloat \<Rightarrow> pyfloat \<Rightarrow> pyfloat \<Rightarrow> BrewingAgent" where
  "BrewingAgent_init lr df eps eps_decay min_eps =
     \<lparr>learning_rate = lr, discount_factor = df, epsilon = eps, epsilon_decay = eps_decay,
      min_epsilon = min_eps, q_table = [], last_state_key = None, last_action_key = None\<rparr>"

text \<open>The agent built with the default arguments \<^verbatim>\<open>0.1, 0.95, 0.1, 0.995, 0.01\<close>.\<close>

definition default_agent :: BrewingAgent where
  "default_agent =
     BrewingAgent_init (fl (1 / 10)) (fl (95 / 100)) (fl (1 / 10)) (fl (995 / 1000)) (fl (1 / 100))"

text \<open>
  Reading \<^verbatim>\<open>self.q_table[state_key]\<close> from the outer \<^verbatim>\<open>defaultdict\<close>: a missing key is
  inserted with an empty row. Reading \<^verbatim>\<open>row[action_key]\<close> from the inner one: a missing
  key is inserted with \<^verbatim>\<open>0.0\<close>. Both return the value read and the container after
  the read.
\<close>

definition row_getitem :: "q_table_t \<Rightarrow> string \<Rightarrow> q_row \<times> q_table_t" where
  "row_getitem t state_key =
     (case map_of t state_key of
        Some row \<Rightarrow> (row, t)
      | None \<Rightarrow> ([], t @ [(state_key, [])]))"

definition value_getitem :: "q_row \<Rightarrow> string \<Rightarrow> pyfloat \<times> q_row" where
  "value_getitem row action_key =
     (case map_of row action_key of
        Some q \<Rightarrow> (q, row)
      | None \<Rightarrow> (0, row @ [(action_key, 0)]))"

text \<open>\<^verbatim>\<open>self.q_table[state_key][action_key] = q\<close>: the row is read (and created when it
  is missing), then the entry is assigned in the row object that the table holds.\<close>

definition table_setitem :: "q_table_t \<Rightarrow> string \<Rightarrow> string \<Rightarrow> pyfloat \<Rightarrow> q_table_t" where
  "table_setitem t state_key action_key q =
     (case row_getitem t state_key of
        (row, t') \<Rightarrow> AList.update state_key (AList.update action_key q row) t')"

text \<open>The stored estimate of a pair, \<^verbatim>\<open>0.0\<close> for an unseen pair, read without
  changing the table.\<close>

definition q_lookup :: "q_table_t \<Rightarrow> string \<Rightarrow> string \<Rightarrow> pyfloat" where
  "q_lookup t state_key action_key =
     (case map_of t state_key of
        None \<Rightarrow> 0
      | Some row \<Rightarrow> (case map_of row action_key of None \<Rightarrow> 0 | Some q \<Rightarrow> q))"

text \<open>\<^verbatim>\<open>max(keys, key=...)\<close> keeps the first of the maximal keys: the candidate is
  replaced only by a strictly larger value.\<close>

fun max_key_loop :: "string \<Rightarrow> pyfloat \<Rightarrow> q_row \<Rightarrow> string" where
  "max_key_loop best best_q [] = best"
| "max_key_loop best best_q ((k, q) # rest) =
     (if best_q < q then max_key_loop k q rest else max_key_loop best best_q rest)"

text \<open>\<^verbatim>\<open>grind_idx, volume_idx, dose_idx = map(int, key.split("_"))\<close>: \<open>None\<close> stands for
  the \<^verbatim>\<open>ValueError\<close> of a part that is no integer and of a number of parts other than
  three.\<close>

definition parse_action_key :: "string \<Rightarrow> (int \<times> int \<times> int) option" where
  "parse_action_key key =
     (case map parse_int (split_on (CHR ''_'') key) of
        [Some grind_idx, Some volume_idx, Some dose_idx] \<Rightarrow> Some (grind_idx, volume_idx, dose_idx)
      | _ \<Rightarrow> None)"

definition get_best_action :: "BrewingAgent \<Rightarrow> string \<Rightarrow> BrewState \<Rightarrow> BrewAction \<times> BrewingAgent" where
  "get_best_action self state_key state =
     (case row_getitem (q_table self) state_key of
        (state_q_values, t) \<Rightarrow>
          let self = self\<lparr>q_table := t\<rparr>
          in (case state_q_values of
                [] \<Rightarrow> (get_baseline_action state, self)
              | (k, q) # rest \<Rightarrow>
                  let best_action_key = max_key_loop k q rest
                  in (case parse_action_key best_action_key of
                        Some (grind_idx, volume_idx, dose_idx) \<Rightarrow>
                          (action_from_indices grind_idx volume_idx dose_idx, self)
                      | None \<Rightarrow> (get_baseline_action state, self))))"

definition suggest_action :: "BrewingAgent \<Rightarrow> BrewState \<Rightarrow> draws \<Rightarrow> BrewAction \<times> BrewingAgent" where
  "suggest_action self state r =
     (let state_key = state_to_key state
      in (case (if rand_unit r < epsilon self then (get_random_action r, self)
                else get_best_action self state_key state) of
            (action, self) \<Rightarrow>
              (action, self\<lparr>last_state_key := Some state_key,
                            last_action_key := Some (action_to_key action)\<rparr>)))"

definition learn_from_evaluation :: "BrewingAgent \<Rightarrow> BrewEvaluation \<Rightarrow> BrewingAgent" where
  "learn_from_evaluation self evaluation =
     (case (last_state_key self, last_action_key self) of
        (Some sk, Some ak) \<Rightarrow>
          let reward = calculate_reward evaluation in
          (case row_getitem (q_table self) sk of (row, t) \<Rightarrow>
           (case value_getitem row ak of (current_q, row) \<Rightarrow>
              let t = AList.update sk row t;
                  new_q = fadd current_q (fmul (learning_rate self) (fsub reward current_q));
                  t = table_setitem t sk ak new_q
              in self\<lparr>q_table := t,
                      epsilon := max (min_epsilon self) (fmul (epsilon self) (epsilon_decay self))\<rparr>))
      | _ \<Rightarrow> self)"

definition get_q_table :: "BrewingAgent \<Rightarrow> q_table_t" where
  "get_q_table self = map (\<lambda>(state_key, actions). (state_key, actions)) (q_table self)"

definition load_q_table :: "BrewingAgent \<Rightarrow> q_table_t \<Rightarrow> BrewingAgent" where
  "load_q_table self q_table_data =
     self\<lparr>q_table :=
       fold (\<lambda>(state_key, actions) t.
               fold (\<lambda>(action_key, q_value) t. table_setitem t state_key action_key q_value)
                    actions t)
            q_table_data []\<rparr>"

text \<open>\<^verbatim>\<open>sorted(items, key=value, reverse=True)\<close> is stable: equal values keep their
  order. \<^verbatim>\<open>xs[:k]\<close> drops from the end when \<open>k\<close> is negative.\<close>

definition sorted_by_value_desc :: "q_row \<Rightarrow> q_row" where
  "sorted_by_value_desc items = sort_key (\<lambda>(k, q). - q) items"

definition slice_to :: "int \<Rightarrow> 'a list \<Rightarrow> 'a list" where
  "slice_to k xs = (if 0 \<le> k then take (nat k) xs else take (length xs - nat (- k)) xs)"

text \<open>The loop over the sorted entries: an entry whose key does not parse is skipped.\<close>

fun recommendations_loop :: "q_row \<Rightarrow> (BrewAction \<times> pyfloat) list" where
  "recommendations_loop [] = []"
| "recommendations_loop ((action_key, q_value) # rest) =
     (case parse_action_key action_key of
        Some (grind_idx, volume_idx, dose_idx) \<Rightarrow>
          (action_from_indices grind_idx volume_idx dose_idx, q_value) # recommendations_loop rest
      | None \<Rightarrow> recommendations_loop rest)"

definition get_action_recommendations ::
  "BrewingAgent \<Rightarrow> BrewState \<Rightarrow> int \<Rightarrow> (BrewAction \<times> pyfloat) list \<times> BrewingAgent" where
  "get_action_recommendations self state top_k =
     (let state_key = state_to_key state
      in (case row_getitem (q_table self) state_key of
            (state_q_values, t) \<Rightarrow>
              let self = self\<lparr>q_table := t\<rparr>
              in if state_q_values = [] then ([(get_baseline_action state, 0)], self)
                 else let sorted_actions = slice_to top_k (sorted_by_value_desc state_q_values);
                          recommendations = recommendations_loop sorted_actions
                      in (if recommendations \<noteq> [] then recommendations
                          else [(get_baseline_action state, 0)], self)))"

definition reset_last_action :: "BrewingAgent \<Rightarrow> BrewingAgent" where
  "reset_last_action self = self\<lparr>last_state_key := None, last_action_key := None\<rparr>"


section \<open>Sequences of calls\<close>

text \<open>A caller's session with one agent: the calls, the values they return, and the
  agent after the last call.\<close>

datatype call =
    SuggestAction BrewState draws
  | Learn BrewEvaluation
  | Recommend BrewState int
  | Snapshot
  | Restore q_table_t
  | ResetCursor

datatype result =
    Action BrewAction
  | Recommendations "(BrewAction \<times> pyfloat) list"
  | Table q_table_t
  | Nothing

fun do_call :: "BrewingAgent \<Rightarrow> call \<Rightarrow> result \<times> BrewingAgent" where
  "do_call self (SuggestAction state r) =
     (case suggest_action self state r of (a, self') \<Rightarrow> (Action a, self'))"
| "do_call self (Learn evaluation) = (Nothing, learn_from_evaluation self evaluation)"
| "do_call self (Recommend state top_k) =
     (case get_action_recommendations self state top_k of (rs, self') \<Rightarrow> (Recommendations rs, self'))"
| "do_call self Snapshot = (Table (get_q_table self), self)"
| "do_call self (Restore data) = (Nothing, load_q_table self data)"
| "do_call self ResetCursor = (Nothing, reset_last_action self)"

fun run :: "BrewingAgent \<Rightarrow> call list \<Rightarrow> result list \<times> BrewingAgent" where
  "run self [] = ([], self)"
| "run self (c # cs) =
     (case do_call self c of
        (r, self') \<Rightarrow> (case run self' cs of (rs, self'') \<Rightarrow> (r # rs, self'')))"

text \<open>The agent after a list of \<^verbatim>\<open>learn_from_evaluation\<close> calls.\<close>

definition learn_all :: "BrewingAgent \<Rightarrow> BrewEvaluation list \<Rightarrow> BrewingAgent" where
  "learn_all self evaluations = foldl learn_from_evaluation self evaluations"


section \<open>The reward as the specification words it\<close>

text \<open>
  The reward of the specification, written from its sentences and to be compared with
  \<open>calculate_reward\<close>: a primary term, a channeling adjustment and a brew-time
  adjustment, added and clamped into \<open>[-1, 1]\<close>. The arithmetic is that of floats.
\<close>

definition spec_metric_score :: "int \<Rightarrow> pyfloat" where
  "spec_metric_score v =
     (if v \<in> {5..6} then 1 / 2 else if v \<in> {4..7} then lit_0_2 else - lit_0_2)"

definition spec_primary :: "BrewEvaluation \<Rightarrow> pyfloat" where
  "spec_primary ev =
     (case overall_experience ev of
        Some oe \<Rightarrow> fdiv (fsub (of_int oe) (11 / 2)) (9 / 2)
      | None \<Rightarrow>
          (let present = List.map_filter id [bitterness ev, acidity ev, taste_strength ev]
           in if present = [] then 0
              else fdiv (py_sum (map spec_metric_score present)) (of_nat (length present))))"

definition spec_channeling_adjustment :: "BrewEvaluation \<Rightarrow> pyfloat" where
  "spec_channeling_adjustment ev =
     (case channeling ev of
        None \<Rightarrow> 0
      | Some c \<Rightarrow> if c \<le> 3 then lit_0_1 else if 7 \<le> c then - lit_0_2 else 0)"

definition spec_brew_time_adjustment :: "BrewEvaluation \<Rightarrow> pyfloat" where
  "spec_brew_time_adjustment ev =
     (case brew_time ev of
        None \<Rightarrow> 0
      | Some t \<Rightarrow> if 25 \<le> t \<and> t \<le> 35 then lit_0_1
                  else if t < 20 \<or> 45 < t then - lit_0_1 else 0)"

definition clamp :: "rat \<Rightarrow> rat \<Rightarrow> rat \<Rightarrow> rat" where
  "clamp x lo hi = (if x < lo then lo else if hi < x then hi else x)"

definition spec_reward :: "BrewEvaluation \<Rightarrow> pyfloat" where
  "spec_reward ev =
     clamp (fadd (fadd (spec_primary ev) (spec_channeling_adjustment ev))
                 (spec_brew_time_adjustment ev)) (- 1) 1"


section \<open>Example values\<close>

text \<open>A context, the random draws of one call, an evaluation, and the default agent
  after one suggestion for that context (a pending cursor).\<close>

definition example_state :: BrewState where
  "example_state = \<lparr>is_first_brew = True, days_since_roast = 3\<rparr>"

definition example_draws :: draws where
  "example_draws = \<lparr>rand_unit = 1 / 2, rand_grind = 7, rand_volume = 30, rand_dose = 20\<rparr>"

definition pending_agent :: BrewingAgent where
  "pending_agent = snd (suggest_action default_agent example_state example_draws)"

definition example_evaluation :: BrewEvaluation where
  "example_evaluation =
     \<lparr>bitterness = None, acidity = None, taste_strength = None,
      overall_experience = Some 9, brew_time = Some 30, channeling = Some 2\<rparr>"

text \<open>The agent built with \<^verbatim>\<open>epsilon=1e-323\<close> and \<^verbatim>\<open>min_epsilon=5e-324\<close>, which are
  the doubles \<open>2 * 2^-1074\<close> and \<open>2^-1074\<close>, and that agent after one suggestion.\<close>

definition tiny_epsilon_agent :: BrewingAgent where
  "tiny_epsilon_agent =
     BrewingAgent_init (fl (1 / 10)) (fl (95 / 100)) (2 * pow2 (- 1074)) (fl (995 / 1000))
       (pow2 (- 1074))"

definition tiny_pending_agent :: BrewingAgent where
  "tiny_pending_agent = snd (suggest_action tiny_epsilon_agent example_state example_draws)"

text \<open>An agent whose table holds the entry \<^verbatim>\<open>"0_3_0"\<close> for the example context, and an
  agent restored from a table with a malformed action key.\<close>

definition stale_row_agent :: BrewingAgent where
  "stale_row_agent = default_agent\<lparr>q_table := [(''True_3'', [(''0_3_0'', 1)])]\<rparr>"

definition malformed_row_agent :: BrewingAgent where
  "malformed_row_agent =
     load_q_table default_agent [(''True_3'', [(''bad'', 1), (''0_3_0'', 1 / 2)])]"


section \<open>Notions for the statements about tables\<close>

text \<open>An association list stands for a \<^verbatim>\<open>dict\<close> when its keys are distinct; a table is
  a \<^verbatim>\<open>dict\<close> of \<^verbatim>\<open>dict\<close>s.\<close>

definition is_dict :: "('k \<times> 'v) list \<Rightarrow> bool" where
  "is_dict kvs = distinct (map fst kvs)"

definition is_table :: "q_table_t \<Rightarrow> bool" where
  "is_table t = (is_dict t \<and> list_all (\<lambda>(state_key, actions). is_dict actions) t)"

text \<open>What the recommendation loop makes of one entry: the action and the estimate when
  the key parses, nothing otherwise.\<close>

definition well_formed_entry :: "string \<times> pyfloat \<Rightarrow> (BrewAction \<times> pyfloat) option" where
  "well_formed_entry entry =
     (case entry of (action_key, q_value) \<Rightarrow>
        map_option (\<lambda>(grind_idx, volume_idx, dose_idx).
                      (action_from_indices grind_idx volume_idx dose_idx, q_value))
                   (parse_action_key action_key))"


section \<open>Notions for the statements about malformed keys\<close>

text \<open>
  An integer, as a field of a key has to spell it: optional whitespace around, an
  optional sign, and decimal digits, at least one and at most \<open>int_max_str_digits\<close>.
  A key is well-formed when it is three integers joined by underscores. Every other
  key is malformed: the number of its underscore-separated fields is not three, or one
  of them is not an integer. These notions are written from the words of the
  specification, not from the parser.
\<close>

definition integer_numeral :: "string \<Rightarrow> bool" where
  "integer_numeral s =
     (\<exists>before sign digits after.
        s = before @ sign @ digits @ after
        \<and> list_all is_space before \<and> list_all is_space after
        \<and> (sign = [] \<or> sign = ''+'' \<or> sign = ''-'')
        \<and> digits \<noteq> [] \<and> list_all is_digit digits \<and> length digits \<le> int_max_str_digits)"

definition well_formed_key :: "string \<Rightarrow> bool" where
  "well_formed_key key =
     (\<exists>a b c. key = a @ ''_'' @ b @ ''_'' @ c
        \<and> integer_numeral a \<and> integer_numeral b \<and> integer_numeral c)"

definition malformed :: "string \<Rightarrow> bool" where
  "malformed key = (\<not> well_formed_key key)"

text \<open>The action that a well-formed key stands for.\<close>

definition action_of_key :: "string \<Rightarrow> BrewAction" where
  "action_of_key key =
     (case the (parse_action_key key) of
        (grind_idx, volume_idx, dose_idx) \<Rightarrow> action_from_indices grind_idx volume_idx dose_idx)"

text \<open>
  The keys on which the model says what the code does. The characters are ASCII: on
  other strings \<^verbatim>\<open>int\<close> also accepts the digits and the whitespace of Unicode. And
  the indices of a well-formed key have a magnitude of \<open>10^300\<close> at most, so that every
  float of the undiscretisation stays below \<open>2^1024\<close>: for a larger index Python
  raises \<^verbatim>\<open>OverflowError\<close> (in \<^verbatim>\<open>idx / 29\<close>, or in \<^verbatim>\<open>round\<close> of an infinity), which
  \<^verbatim>\<open>except (ValueError, IndexError)\<close> does not catch, or returns an infinite volume or
  dose, and the model has neither outcome.
\<close>

definition is_ascii :: "string \<Rightarrow> bool" where
  "is_ascii s = list_all (\<lambda>c. (of_char c :: nat) < 128) s"

definition in_float_range :: "int \<Rightarrow> bool" where
  "in_float_range idx = (\<bar>idx\<bar> \<le> 10 ^ 300)"

definition key_in_model :: "string \<Rightarrow> bool" where
  "key_in_model key =
     (is_ascii key
      \<and> (case parse_action_key key of
            None \<Rightarrow> True
          | Some (grind_idx, volume_idx, dose_idx) \<Rightarrow>
              in_float_range grind_idx \<and> in_float_range volume_idx \<and> in_float_range dose_idx))"


section \<open>Notions for the decay of epsilon\<close>

text \<open>One decay step of epsilon, as \<open>learn_from_evaluation\<close> computes it from the
  minimum \<open>m\<close> and the decay \<open>d\<close>; and the factor by which a float product with a
  double below 1 shrinks at least.\<close>

definition decay_step :: "rat \<Rightarrow> rat \<Rightarrow> rat \<Rightarrow> rat" where
  "decay_step m d x = max m (fmul x d)"

definition contraction :: rat where
  "contraction = 1 - 1 / 2 ^ 106"


section \<open>Properties of the float model\<close>

lemma pow2_powi: "pow2 e = 2 powi e"
  by (simp add: pow2_def power_int_def inverse_eq_divide power_one_over)

lemma pow2_pos: "0 < pow2 e"
  by (simp add: pow2_powi)

lemma pow2_add: "pow2 (a + b) = pow2 a * pow2 b"
  by (simp add: pow2_powi power_int_add)

lemma pow2_diff: "pow2 (a - b) = pow2 a / pow2 b"
  by (simp add: pow2_powi power_int_diff)

lemma pow2_mono: "a \<le> b \<Longrightarrow> pow2 a \<le> pow2 b"
  by (simp add: pow2_powi power_int_increasing)

lemma pow2_strict_mono: "a < b \<Longrightarrow> pow2 a < pow2 b"
  by (simp add: pow2_powi power_int_strict_increasing)

lemma pow2_nat: "pow2 (int n) = 2 ^ n"
  by (simp add: pow2_def)

lemma pow2_Suc: "pow2 (e + 1) = 2 * pow2 e"
  using pow2_add[of e 1] by (simp add: pow2_def)

lemma pow2_less_cancel: "pow2 a < pow2 b \<Longrightarrow> a < b"
  by (metis not_less pow2_mono)

lemma expo_bounds:
  assumes "x \<noteq> 0"
  shows "pow2 (expo x) \<le> \<bar>x\<bar>" and "\<bar>x\<bar> < pow2 (expo x + 1)"
proof -
  have "pow2 (expo x) \<le> \<bar>x\<bar> \<and> \<bar>x\<bar> < pow2 (expo x + 1)"
  proof (cases "1 \<le> \<bar>x\<bar>")
    case True
    define n where "n = \<lfloor>\<bar>x\<bar>\<rfloor>"
    have n1: "1 \<le> n" using True by (simp add: n_def le_floor_iff)
    then have npos: "0 < n" by simp
    have b1: "1 \<le> bitlen n" using npos by (simp add: bitlen_alt_def)
    have e: "expo x = bitlen n - 1" using True by (simp add: expo_def n_def)
    from bitlen_bounds[OF npos]
    have lo: "2 ^ nat (bitlen n - 1) \<le> n" and hi: "n < 2 ^ nat (bitlen n)" by auto
    have "pow2 (bitlen n - 1) = of_int (2 ^ nat (bitlen n - 1))"
      using b1 by (simp add: pow2_def)
    also have "\<dots> \<le> of_int n" using lo by (simp only: of_int_le_iff)
    also have "\<dots> \<le> \<bar>x\<bar>" by (simp add: n_def)
    finally have A: "pow2 (expo x) \<le> \<bar>x\<bar>" by (simp add: e)
    have "n + 1 \<le> 2 ^ nat (bitlen n)" using hi by simp
    then have "(of_int (n + 1) :: rat) \<le> of_int (2 ^ nat (bitlen n))"
      by (simp only: of_int_le_iff)
    moreover have "\<bar>x\<bar> < of_int (n + 1)" unfolding n_def by linarith
    moreover have "pow2 (bitlen n) = of_int (2 ^ nat (bitlen n))"
      using b1 by (simp add: pow2_def)
    ultimately have "\<bar>x\<bar> < pow2 (expo x + 1)" by (simp add: e)
    with A show ?thesis by simp
  next
    case False
    define y where "y = 1 / \<bar>x\<bar>"
    have xpos: "0 < \<bar>x\<bar>" using assms by simp
    have y1: "1 < y" using False xpos by (simp add: y_def)
    define m where "m = \<lceil>y\<rceil>"
    have m2: "2 \<le> m" using y1 by (simp add: m_def)
    then have mpos: "0 < m - 1" by simp
    define k where "k = bitlen (m - 1)"
    have k1: "1 \<le> k" using mpos by (simp add: k_def bitlen_alt_def)
    have e: "expo x = - k" using False by (simp add: expo_def k_def m_def y_def)
    from bitlen_bounds[OF mpos]
    have lo: "2 ^ nat (k - 1) \<le> m - 1" and hi: "m - 1 < 2 ^ nat k" by (auto simp: k_def)
    have "m \<le> 2 ^ nat k" using hi by simp
    then have "(of_int m :: rat) \<le> of_int (2 ^ nat k)" by (simp only: of_int_le_iff)
    then have "(of_int m :: rat) \<le> 2 ^ nat k" by simp
    moreover have "y \<le> of_int m" by (simp add: m_def)
    ultimately have "y \<le> 2 ^ nat k" by (rule order_trans[rotated])
    then have "1 / 2 ^ nat k \<le> \<bar>x\<bar>" using xpos
      by (simp add: y_def field_simps)
    moreover have "pow2 (- k) = 1 / 2 ^ nat k" using k1 by (simp add: pow2_def)
    ultimately have A: "pow2 (expo x) \<le> \<bar>x\<bar>" by (simp add: e)
    have "(of_int (2 ^ nat (k - 1)) :: rat) \<le> of_int (m - 1)" using lo by (simp only: of_int_le_iff)
    then have "(2 ^ nat (k - 1) :: rat) \<le> of_int (m - 1)" by simp
    moreover have "of_int (m - 1) < y" unfolding m_def by simp linarith
    ultimately have "2 ^ nat (k - 1) < y" by (rule le_less_trans)
    then have "\<bar>x\<bar> < 1 / 2 ^ nat (k - 1)" using xpos by (simp add: y_def field_simps)
    moreover have "pow2 (- k + 1) = 1 / 2 ^ nat (k - 1)" using k1 
      by (cases "k = 1") (simp_all add: pow2_def)
    ultimately have "\<bar>x\<bar> < pow2 (expo x + 1)" by (simp add: e)
    with A show ?thesis by simp
  qed
  then show "pow2 (expo x) \<le> \<bar>x\<bar>" and "\<bar>x\<bar> < pow2 (expo x + 1)" by simp_all
qed

lemma expo_unique:
  assumes "pow2 e \<le> \<bar>x\<bar>" and "\<bar>x\<bar> < pow2 (e + 1)"
  shows "expo x = e"
proof -
  have x0: "x \<noteq> 0" using assms(1) pow2_pos[of e] by auto
  have "pow2 e < pow2 (expo x + 1)" using assms(1) expo_bounds(2)[OF x0] by simp
  then have "e < expo x + 1" by (rule pow2_less_cancel)
  moreover have "pow2 (expo x) < pow2 (e + 1)" using assms(2) expo_bounds(1)[OF x0] by simp
  then have "expo x < e + 1" by (rule pow2_less_cancel)
  ultimately show ?thesis by simp
qed


lemma rhe_of_int: "round_half_even (of_int n) = n"
  by (simp add: round_half_even_def)

lemma rhe_floor_le: "\<lfloor>x\<rfloor> \<le> round_half_even x"
  by (simp add: round_half_even_def Let_def)

lemma rhe_le_floor1: "round_half_even x \<le> \<lfloor>x\<rfloor> + 1"
  by (simp add: round_half_even_def Let_def)

lemma rhe_mono:
  assumes "x \<le> y"
  shows "round_half_even x \<le> round_half_even y"
proof (cases "\<lfloor>x\<rfloor> = \<lfloor>y\<rfloor>")
  case True
  then show ?thesis using assms by (auto simp: round_half_even_def Let_def)
next
  case False
  then have "\<lfloor>x\<rfloor> < \<lfloor>y\<rfloor>" using floor_mono[OF assms] by simp
  then have "round_half_even x \<le> \<lfloor>y\<rfloor>" using rhe_le_floor1[of x] by simp
  then show ?thesis using rhe_floor_le[of y] by simp
qed

lemma rhe_err: "\<bar>of_int (round_half_even x) - x\<bar> \<le> 1 / 2"
proof -
  have "of_int \<lfloor>x\<rfloor> \<le> x" "x < of_int \<lfloor>x\<rfloor> + 1" by linarith+
  then show ?thesis by (auto simp: round_half_even_def Let_def)
qed

lemma rhe_neg: "round_half_even (- x) = - round_half_even x"
proof (cases "x = of_int \<lfloor>x\<rfloor>")
  case True
  then obtain n where "x = of_int n" ..
  then have "- x = of_int (- n)" by simp
  then show ?thesis unfolding \<open>x = of_int n\<close> by (simp only: rhe_of_int)
next
  case False
  then have c: "\<lceil>x\<rceil> = \<lfloor>x\<rfloor> + 1" by (metis ceiling_altdef)
  have f: "\<lfloor>- x\<rfloor> = - \<lfloor>x\<rfloor> - 1" using c by (simp add: floor_minus)
  show ?thesis
    unfolding round_half_even_def Let_def f by (auto simp: field_simps)
qed


lemma pow2_52: "pow2 52 = 2 ^ 52"
  by (simp add: pow2_def)

lemma pow2_53: "pow2 53 = 2 ^ 53"
  by (simp add: pow2_def)

lemma pow2_shift52: "pow2 e = 2 ^ 52 * pow2 (e - 52)"
proof -
  have "e = 52 + (e - 52)" by simp
  then have "pow2 e = pow2 (52 + (e - 52))" by (rule arg_cong)
  also have "\<dots> = pow2 52 * pow2 (e - 52)" by (rule pow2_add)
  finally show ?thesis by (simp only: pow2_52)
qed

lemma pow2_shift53: "pow2 (e + 1) = 2 ^ 53 * pow2 (e - 52)"
proof -
  have "e + 1 = 53 + (e - 52)" by simp
  then have "pow2 (e + 1) = pow2 (53 + (e - 52))" by (rule arg_cong)
  also have "\<dots> = pow2 53 * pow2 (e - 52)" by (rule pow2_add)
  finally show ?thesis by (simp only: pow2_53)
qed

lemma fl_zero: "fl 0 = 0"
  by (simp add: fl_def)

lemma expo_neg: "expo (- x) = expo x"
  by (simp add: expo_def)

lemma fl_neg: "fl (- x) = - fl x"
  by (simp add: fl_def expo_neg Let_def rhe_neg)

text \<open>The rounding of a number in the normal range, and of one below it.\<close>

lemma fl_eq:
  "x \<noteq> 0 \<Longrightarrow>
   fl x = of_int (round_half_even (x / pow2 (max (expo x) (- 1022) - 52)))
            * pow2 (max (expo x) (- 1022) - 52)"
  by (simp add: fl_def Let_def)

lemma fl_pos_eq:
  "x \<noteq> 0 \<Longrightarrow> - 1022 \<le> expo x \<Longrightarrow>
   fl x = of_int (round_half_even (x / pow2 (expo x - 52))) * pow2 (expo x - 52)"
  by (simp add: fl_def Let_def max_def)

lemma fl_sub_eq:
  "x \<noteq> 0 \<Longrightarrow> expo x < - 1022 \<Longrightarrow>
   fl x = of_int (round_half_even (x / pow2 (- 1074))) * pow2 (- 1074)"
  by (simp add: fl_def Let_def max_def)

lemma normal_expo:
  assumes "pow2 (- 1022) \<le> x"
  shows "- 1022 \<le> expo x"
proof -
  have xpos: "0 < x" using assms pow2_pos[of "- 1022"] by simp
  then have x0: "x \<noteq> 0" by simp
  have "pow2 (- 1022) < pow2 (expo x + 1)" using assms expo_bounds(2)[OF x0] xpos by simp
  then have "- 1022 < expo x + 1" by (rule pow2_less_cancel)
  then show ?thesis by simp
qed

lemma subnormal_expo:
  assumes "0 < x" and "x < pow2 (- 1022)"
  shows "expo x < - 1022"
proof -
  have x0: "x \<noteq> 0" using assms(1) by simp
  have "pow2 (expo x) < pow2 (- 1022)" using assms expo_bounds(1)[OF x0] by simp
  then show ?thesis by (rule pow2_less_cancel)
qed

text \<open>The scaled mantissa of a positive number lies in [2^52, 2^53).\<close>

lemma mantissa_bounds:
  assumes "0 < x"
  shows "2 ^ 52 \<le> x / pow2 (expo x - 52)" and "x / pow2 (expo x - 52) < 2 ^ 53"
proof -
  have x0: "x \<noteq> 0" using assms by simp
  have s: "pow2 (expo x - 52) = pow2 (expo x) / 2 ^ 52"
    using pow2_diff[of "expo x" 52] by (simp only: pow2_52)
  have p: "0 < pow2 (expo x)" by (rule pow2_pos)
  have lo: "pow2 (expo x) \<le> x" using expo_bounds(1)[OF x0] assms by simp
  have hi: "x < 2 * pow2 (expo x)" using expo_bounds(2)[OF x0] assms by (simp add: pow2_Suc)
  show "2 ^ 52 \<le> x / pow2 (expo x - 52)"
    unfolding s using lo p by (simp add: field_simps)
  show "x / pow2 (expo x - 52) < 2 ^ 53"
    unfolding s using hi p by (simp add: field_simps)
qed

lemma rhe_mantissa:
  assumes "0 < x"
  shows "2 ^ 52 \<le> round_half_even (x / pow2 (expo x - 52))"
    and "round_half_even (x / pow2 (expo x - 52)) \<le> 2 ^ 53"
proof -
  let ?m = "x / pow2 (expo x - 52)"
  have "(of_int (2 ^ 52) :: rat) \<le> ?m" using mantissa_bounds(1)[OF assms] by simp
  from rhe_mono[OF this] show "2 ^ 52 \<le> round_half_even ?m" by (simp only: rhe_of_int)
  have "?m \<le> of_int (2 ^ 53)" using mantissa_bounds(2)[OF assms] by simp
  from rhe_mono[OF this] show "round_half_even ?m \<le> 2 ^ 53" by (simp only: rhe_of_int)
qed

text \<open>Below the normal range the scaled mantissa lies in [0, 2^52).\<close>

lemma rhe_subnormal:
  assumes "0 < x" and "x < pow2 (- 1022)"
  shows "0 \<le> round_half_even (x / pow2 (- 1074))"
    and "round_half_even (x / pow2 (- 1074)) \<le> 2 ^ 52"
proof -
  let ?s = "pow2 (- 1074)"
  let ?m = "x / ?s"
  have sp: "0 < ?s" by (rule pow2_pos)
  have e: "pow2 (- 1022) = 2 ^ 52 * ?s" using pow2_shift52[of "- 1022"] by simp
  have "(of_int 0 :: rat) \<le> ?m" using assms(1) sp by simp
  from rhe_mono[OF this] show "0 \<le> round_half_even ?m" by (simp only: rhe_of_int)
  have "?m < 2 ^ 52" using assms(2) sp unfolding e by (simp add: field_simps)
  then have "?m \<le> of_int (2 ^ 52)" by simp
  from rhe_mono[OF this] show "round_half_even ?m \<le> 2 ^ 52" by (simp only: rhe_of_int)
qed

lemma fl_bounds:
  assumes "0 < x" and "- 1022 \<le> expo x"
  shows "pow2 (expo x) \<le> fl x" and "fl x \<le> pow2 (expo x + 1)"
proof -
  let ?s = "pow2 (expo x - 52)"
  let ?n = "round_half_even (x / ?s)"
  have sp: "0 < ?s" by (rule pow2_pos)
  have f: "fl x = of_int ?n * ?s" using assms by (simp add: fl_pos_eq)
  have e0: "pow2 (expo x) = 2 ^ 52 * ?s" by (rule pow2_shift52)
  have e1: "pow2 (expo x + 1) = 2 ^ 53 * ?s" by (rule pow2_shift53)
  have "(of_int (2 ^ 52) :: rat) \<le> of_int ?n"
    using rhe_mantissa(1)[OF assms(1)] by (simp only: of_int_le_iff)
  then have "2 ^ 52 * ?s \<le> of_int ?n * ?s" using sp by simp
  then show "pow2 (expo x) \<le> fl x" by (simp only: f e0)
  have "(of_int ?n :: rat) \<le> of_int (2 ^ 53)"
    using rhe_mantissa(2)[OF assms(1)] by (simp only: of_int_le_iff)
  then have "of_int ?n * ?s \<le> 2 ^ 53 * ?s" using sp by simp
  then show "fl x \<le> pow2 (expo x + 1)" by (simp only: f e1)
qed

lemma fl_subnormal_bounds:
  assumes "0 < x" and "x < pow2 (- 1022)"
  shows "0 \<le> fl x" and "fl x \<le> pow2 (- 1022)"
proof -
  let ?s = "pow2 (- 1074)"
  let ?n = "round_half_even (x / ?s)"
  have sp: "0 < ?s" by (rule pow2_pos)
  have x0: "x \<noteq> 0" using assms(1) by simp
  have f: "fl x = of_int ?n * ?s" by (rule fl_sub_eq[OF x0 subnormal_expo[OF assms]])
  have e: "pow2 (- 1022) = 2 ^ 52 * ?s" using pow2_shift52[of "- 1022"] by simp
  have "(of_int 0 :: rat) \<le> of_int ?n"
    using rhe_subnormal(1)[OF assms] by (simp only: of_int_le_iff)
  then show "0 \<le> fl x" using sp by (simp add: f)
  have "(of_int ?n :: rat) \<le> of_int (2 ^ 52)"
    using rhe_subnormal(2)[OF assms] by (simp only: of_int_le_iff)
  then have "of_int ?n * ?s \<le> 2 ^ 52 * ?s" using sp by simp
  then show "fl x \<le> pow2 (- 1022)" by (simp only: f e)
qed

lemma fl_nonneg: "0 \<le> x \<Longrightarrow> 0 \<le> fl x"
proof -
  assume a: "0 \<le> x"
  consider "x = 0" | "0 < x" "x < pow2 (- 1022)" | "pow2 (- 1022) \<le> x" using a by linarith
  then show ?thesis
  proof cases
    case 1 then show ?thesis by (simp add: fl_zero)
  next
    case 2 then show ?thesis by (rule fl_subnormal_bounds(1))
  next
    case 3
    have xpos: "0 < x" using 3 pow2_pos[of "- 1022"] by simp
    have "pow2 (expo x) \<le> fl x" by (rule fl_bounds(1)[OF xpos normal_expo[OF 3]])
    then show ?thesis using pow2_pos[of "expo x"] by simp
  qed
qed

lemma fl_nonpos: "x \<le> 0 \<Longrightarrow> fl x \<le> 0"
  using fl_nonneg[of "- x"] by (simp add: fl_neg)

text \<open>A normalised mantissa times a power of two from \<open>2^-1074\<close> on is a double, and so
  is a smaller mantissa times \<open>2^-1074\<close>, a subnormal number.\<close>

lemma fl_normal:
  assumes "2 ^ 52 \<le> n" and "n < 2 ^ 53" and "- 1074 \<le> k"
  shows "fl (of_int n * pow2 k) = of_int n * pow2 k"
proof -
  let ?x = "of_int n * pow2 k :: rat"
  have kp: "0 < pow2 k" by (rule pow2_pos)
  have n1: "(2 ^ 52 :: rat) \<le> of_int n" using assms(1) by (metis of_int_le_iff of_int_numeral of_int_power)
  have n2: "(of_int n :: rat) < 2 ^ 53" using assms(2) by (metis of_int_less_iff of_int_numeral of_int_power)
  have xpos: "0 < ?x" using n1 kp by (simp add: zero_less_mult_iff)
  have a: "pow2 (k + 52) = 2 ^ 52 * pow2 k" using pow2_shift52[of "k + 52"] by simp
  have b: "pow2 (k + 52 + 1) = 2 ^ 53 * pow2 k" using pow2_shift53[of "k + 52"] by simp
  have "pow2 (k + 52) \<le> \<bar>?x\<bar>" unfolding a using n1 kp xpos by simp
  moreover have "\<bar>?x\<bar> < pow2 (k + 52 + 1)" unfolding b using n2 kp xpos by simp
  ultimately have e: "expo ?x = k + 52" by (rule expo_unique)
  have k0: "pow2 k \<noteq> 0" using kp by simp
  have m: "?x / pow2 k = of_int n" using k0 by simp
  have x0: "?x \<noteq> 0" using xpos by (rule less_imp_neq[symmetric])
  have ek: "expo ?x - 52 = k" by (simp add: e)
  have en: "- 1022 \<le> expo ?x" using assms(3) by (simp add: e)
  show ?thesis unfolding fl_pos_eq[OF x0 en] ek m rhe_of_int ..
qed

lemma fl_subnormal:
  assumes "0 \<le> n" and "n \<le> 2 ^ 52"
  shows "fl (of_int n * pow2 (- 1074)) = of_int n * pow2 (- 1074)"
proof -
  let ?s = "pow2 (- 1074)"
  let ?x = "of_int n * ?s :: rat"
  have sp: "0 < ?s" by (rule pow2_pos)
  consider "n = 0" | "n = 2 ^ 52" | "0 < n" "n < 2 ^ 52" using assms by linarith
  then show ?thesis
  proof cases
    case 1 then show ?thesis by (simp add: fl_zero)
  next
    case 2 then show ?thesis by (intro fl_normal) simp_all
  next
    case 3
    have n1: "(0 :: rat) < of_int n" using 3(1) by simp
    have "(of_int n :: rat) < of_int (2 ^ 52)" using 3(2) by (simp only: of_int_less_iff)
    then have n2: "(of_int n :: rat) < 2 ^ 52" by simp
    have xpos: "0 < ?x" using n1 sp by (simp add: zero_less_mult_iff)
    have e: "pow2 (- 1022) = 2 ^ 52 * ?s" using pow2_shift52[of "- 1022"] by simp
    have xs: "?x < pow2 (- 1022)" unfolding e using n2 sp by simp
    have x0: "?x \<noteq> 0" using xpos by (rule less_imp_neq[symmetric])
    have s0: "?s \<noteq> 0" using sp by simp
    have m: "?x / ?s = of_int n" using s0 by simp
    show ?thesis unfolding fl_sub_eq[OF x0 subnormal_expo[OF xpos xs]] m rhe_of_int ..
  qed
qed

lemma fl_idem_pos:
  assumes "0 < x"
  shows "fl (fl x) = fl x"
proof (cases "pow2 (- 1022) \<le> x")
  case True
  have en: "- 1022 \<le> expo x" by (rule normal_expo[OF True])
  then have ek: "- 1074 \<le> expo x - 52" by simp
  let ?s = "pow2 (expo x - 52)"
  let ?n = "round_half_even (x / ?s)"
  have x0: "x \<noteq> 0" using assms by simp
  have f: "fl x = of_int ?n * ?s" by (rule fl_pos_eq[OF x0 en])
  show ?thesis
  proof (cases "?n < 2 ^ 53")
    case True
    show ?thesis unfolding f by (rule fl_normal[OF rhe_mantissa(1)[OF assms] True ek])
  next
    case False
    then have n: "?n = 2 ^ 53" using rhe_mantissa(2)[OF assms] by simp
    have "fl x = of_int (2 ^ 52) * pow2 (expo x - 52 + 1)"
      unfolding f n by (simp only: pow2_Suc) simp
    moreover have "fl (of_int (2 ^ 52) * pow2 (expo x - 52 + 1)) = of_int (2 ^ 52) * pow2 (expo x - 52 + 1)"
      by (rule fl_normal) (use ek in simp_all)
    ultimately show ?thesis by simp
  qed
next
  case False
  then have xs: "x < pow2 (- 1022)" by simp
  have x0: "x \<noteq> 0" using assms by simp
  have f: "fl x = of_int (round_half_even (x / pow2 (- 1074))) * pow2 (- 1074)"
    by (rule fl_sub_eq[OF x0 subnormal_expo[OF assms xs]])
  show ?thesis unfolding f by (rule fl_subnormal[OF rhe_subnormal[OF assms xs]])
qed

lemma fl_idem: "fl (fl x) = fl x"
proof -
  consider "0 < x" | "x = 0" | "x < 0" by linarith
  then show ?thesis
  proof cases
    case 1 then show ?thesis by (rule fl_idem_pos)
  next
    case 2 then show ?thesis by (simp add: fl_zero)
  next
    case 3
    then have "fl (fl (- x)) = fl (- x)" by (intro fl_idem_pos) simp
    then show ?thesis by (simp add: fl_neg)
  qed
qed

lemma fl_le_next:
  assumes "0 < x"
  shows "fl x \<le> pow2 (max (expo x) (- 1022) + 1)"
proof (cases "pow2 (- 1022) \<le> x")
  case True
  have en: "- 1022 \<le> expo x" by (rule normal_expo[OF True])
  show ?thesis using fl_bounds(2)[OF assms en] en by (simp add: max_def)
next
  case False
  then have xs: "x < pow2 (- 1022)" by simp
  have "expo x < - 1022" by (rule subnormal_expo[OF assms xs])
  then have m: "max (expo x) (- 1022) = - 1022" by simp
  have "fl x \<le> pow2 (- 1022)" by (rule fl_subnormal_bounds(2)[OF assms xs])
  also have "\<dots> \<le> pow2 (- 1022 + 1)" by (rule pow2_mono) simp
  finally show ?thesis by (simp only: m)
qed

lemma fl_mono_pos:
  assumes "0 < x" and "x \<le> y"
  shows "fl x \<le> fl y"
proof -
  have ypos: "0 < y" using assms by simp
  have x0: "x \<noteq> 0" and y0: "y \<noteq> 0" using assms by simp_all
  have "pow2 (expo x) < pow2 (expo y + 1)"
    using expo_bounds(1)[OF x0] expo_bounds(2)[OF y0] assms by simp
  then have le: "expo x \<le> expo y" using pow2_less_cancel by fastforce
  show ?thesis
  proof (cases "max (expo x) (- 1022) = max (expo y) (- 1022)")
    case True
    let ?s = "pow2 (max (expo y) (- 1022) - 52)"
    have sp: "0 < ?s" by (rule pow2_pos)
    have "x / ?s \<le> y / ?s" using assms(2) sp by (simp add: divide_right_mono)
    then have "round_half_even (x / ?s) \<le> round_half_even (y / ?s)" by (rule rhe_mono)
    then have "(of_int (round_half_even (x / ?s)) :: rat) \<le> of_int (round_half_even (y / ?s))"
      by (simp only: of_int_le_iff)
    then have "of_int (round_half_even (x / ?s)) * ?s \<le> of_int (round_half_even (y / ?s)) * ?s"
      using sp by simp
    then show ?thesis unfolding fl_eq[OF x0] fl_eq[OF y0] True .
  next
    case False
    then have lt: "max (expo x) (- 1022) + 1 \<le> expo y" and en: "- 1022 \<le> expo y"
      using le by (simp_all add: max_def split: if_splits)
    have "fl x \<le> pow2 (max (expo x) (- 1022) + 1)" by (rule fl_le_next[OF assms(1)])
    also have "\<dots> \<le> pow2 (expo y)" using lt by (rule pow2_mono)
    also have "\<dots> \<le> fl y" by (rule fl_bounds(1)[OF ypos en])
    finally show ?thesis .
  qed
qed

lemma fl_mono:
  assumes "x \<le> y"
  shows "fl x \<le> fl y"
proof -
  consider "0 < x" | "x \<le> 0" "0 \<le> y" | "y < 0" by linarith
  then show ?thesis
  proof cases
    case 1 then show ?thesis using assms by (rule fl_mono_pos)
  next
    case 2 then show ?thesis using fl_nonpos[of x] fl_nonneg[of y] by simp
  next
    case 3
    then have "fl (- y) \<le> fl (- x)" using assms by (intro fl_mono_pos) simp_all
    then show ?thesis by (simp add: fl_neg)
  qed
qed

text \<open>The error of one rounding: relative in the normal range, absolute below it.\<close>

lemma fl_err_pos:
  assumes "pow2 (- 1022) \<le> x"
  shows "\<bar>fl x - x\<bar> \<le> x / 2 ^ 53"
proof -
  let ?s = "pow2 (expo x - 52)"
  let ?m = "x / ?s"
  let ?n = "round_half_even ?m"
  have xpos: "0 < x" using assms pow2_pos[of "- 1022"] by simp
  have x0: "x \<noteq> 0" using xpos by simp
  have sp: "0 < ?s" by (rule pow2_pos)
  have f: "fl x = of_int ?n * ?s" by (rule fl_pos_eq[OF x0 normal_expo[OF assms]])
  have "fl x - x = (of_int ?n - ?m) * ?s" using sp by (simp add: f field_simps)
  then have "\<bar>fl x - x\<bar> = \<bar>of_int ?n - ?m\<bar> * ?s" using sp by (simp add: abs_mult)
  also have "\<dots> \<le> (1 / 2) * ?s" using rhe_err[of ?m] sp by (simp only: mult_right_mono less_imp_le)
  also have "\<dots> \<le> x / 2 ^ 53"
  proof -
    have "2 ^ 52 * ?s \<le> x" using mantissa_bounds(1)[OF xpos] sp by (simp add: field_simps)
    then show ?thesis by simp
  qed
  finally show ?thesis .
qed

lemma fl_err_subnormal:
  assumes "0 < x" and "x < pow2 (- 1022)"
  shows "\<bar>fl x - x\<bar> \<le> pow2 (- 1074) / 2"
proof -
  let ?s = "pow2 (- 1074)"
  let ?m = "x / ?s"
  let ?n = "round_half_even ?m"
  have x0: "x \<noteq> 0" using assms(1) by simp
  have sp: "0 < ?s" by (rule pow2_pos)
  have f: "fl x = of_int ?n * ?s" by (rule fl_sub_eq[OF x0 subnormal_expo[OF assms]])
  have "fl x - x = (of_int ?n - ?m) * ?s" using sp by (simp add: f field_simps)
  then have "\<bar>fl x - x\<bar> = \<bar>of_int ?n - ?m\<bar> * ?s" using sp by (simp add: abs_mult)
  also have "\<dots> \<le> (1 / 2) * ?s" using rhe_err[of ?m] sp by (simp only: mult_right_mono less_imp_le)
  finally show ?thesis by simp
qed

lemma is_double_fl: "is_double (fl x)"
  by (simp add: is_double_def fl_idem)


section \<open>Evaluating float operations\<close>

lemma rhe_cert:
  assumes "2 * \<bar>y - of_int n\<bar> < 1 \<or> (2 * \<bar>y - of_int n\<bar> = 1 \<and> even n)"
  shows "round_half_even y = n"
proof -
  have f: "of_int \<lfloor>y\<rfloor> \<le> y" "y < of_int \<lfloor>y\<rfloor> + 1" by linarith+
  from assms show ?thesis
  proof
    assume a: "2 * \<bar>y - of_int n\<bar> < 1"
    define R where "R = round_half_even y"
    have e: "\<bar>of_int R - y\<bar> \<le> 1 / 2" unfolding R_def by (rule rhe_err)
    have "(of_int R :: rat) < of_int n + 1" using a e by (simp add: abs_if split: if_splits)
    then have "(of_int R :: rat) < of_int (n + 1)" by simp
    then have u: "R < n + 1" by (simp only: of_int_less_iff)
    have "(of_int n :: rat) < of_int R + 1" using a e by (simp add: abs_if split: if_splits)
    then have "(of_int n :: rat) < of_int (R + 1)" by simp
    then have "n < R + 1" by (simp only: of_int_less_iff)
    with u show ?thesis unfolding R_def by simp
  next
    assume a: "2 * \<bar>y - of_int n\<bar> = 1 \<and> even n"
    then have "y - of_int n = 1 / 2 \<or> y - of_int n = - 1 / 2"
      by (simp add: abs_if split: if_splits)
    then consider "y = of_int n + 1 / 2" | "y = of_int n - 1 / 2" by fastforce
    then show ?thesis
    proof cases
      case 1
      then have "\<lfloor>y\<rfloor> = n" by (simp add: floor_unique)
      then show ?thesis using a 1 by (simp add: round_half_even_def Let_def)
    next
      case 2
      then have "\<lfloor>y\<rfloor> = n - 1" by (simp add: floor_unique)
      then show ?thesis using a 2 by (simp add: round_half_even_def Let_def)
    qed
  qed
qed

lemma fl_cert:
  assumes lo: "2 ^ 52 * pow2 k \<le> x" and hi: "x < 2 ^ 53 * pow2 k"
    and r: "r = of_int n * pow2 k"
    and c: "2 * \<bar>x - r\<bar> < pow2 k \<or> (2 * \<bar>x - r\<bar> = pow2 k \<and> even n)"
    and k: "- 1074 \<le> k"
  shows "fl x = r"
proof -
  have kp: "0 < pow2 k" by (rule pow2_pos)
  have "0 < 2 ^ 52 * pow2 k" using kp by simp
  then have xpos: "0 < x" using lo by simp
  have x0: "x \<noteq> 0" using xpos by simp
  have "pow2 (k + 52) \<le> \<bar>x\<bar>" using lo xpos pow2_shift52[of "k + 52"] by simp
  moreover have "\<bar>x\<bar> < pow2 (k + 52 + 1)" using hi xpos pow2_shift53[of "k + 52"] by simp
  ultimately have e: "expo x = k + 52" by (rule expo_unique)
  have ek: "expo x - 52 = k" by (simp add: e)
  have en: "- 1022 \<le> expo x" using k by (simp add: e)
  have d: "x / pow2 k - of_int n = (x - r) / pow2 k" using kp by (simp add: r field_simps)
  have "2 * \<bar>x / pow2 k - of_int n\<bar> = (2 * \<bar>x - r\<bar>) / pow2 k"
    unfolding d using kp by simp
  then have "2 * \<bar>x / pow2 k - of_int n\<bar> < 1 \<or> (2 * \<bar>x / pow2 k - of_int n\<bar> = 1 \<and> even n)"
    using c kp by (auto simp: field_simps)
  then have "round_half_even (x / pow2 k) = n" by (rule rhe_cert)
  then show ?thesis unfolding fl_pos_eq[OF x0 en] ek r by simp
qed

text \<open>The same below the normal range, where the spacing is \<open>2^-1074\<close>.\<close>

lemma fl_cert_subnormal:
  assumes lo: "0 < x" and hi: "x < pow2 (- 1022)"
    and r: "r = of_int n * pow2 (- 1074)"
    and c: "2 * \<bar>x - r\<bar> < pow2 (- 1074) \<or> (2 * \<bar>x - r\<bar> = pow2 (- 1074) \<and> even n)"
  shows "fl x = r"
proof -
  let ?s = "pow2 (- 1074)"
  have kp: "0 < ?s" by (rule pow2_pos)
  have x0: "x \<noteq> 0" using lo by simp
  have d: "x / ?s - of_int n = (x - r) / ?s" using kp by (simp add: r field_simps)
  have "2 * \<bar>x / ?s - of_int n\<bar> = (2 * \<bar>x - r\<bar>) / ?s"
    unfolding d using kp by simp
  then have "2 * \<bar>x / ?s - of_int n\<bar> < 1 \<or> (2 * \<bar>x / ?s - of_int n\<bar> = 1 \<and> even n)"
    using c kp by (auto simp: field_simps)
  then have "round_half_even (x / ?s) = n" by (rule rhe_cert)
  then show ?thesis unfolding fl_sub_eq[OF x0 subnormal_expo[OF lo hi]] r by simp
qed

lemma py_int_cert: "0 \<le> x \<Longrightarrow> of_int n \<le> x \<Longrightarrow> x < of_int n + 1 \<Longrightarrow> py_int x = n"
  by (simp add: py_int_def floor_unique)

lemma fsub_50_25: "fsub 50 25 = 25"
  unfolding fsub_def by (rule fl_cert[where k = "- 48" and n = 7036874417766400]) (simp_all add: pow2_def)

lemma fsub_25_15: "fsub 25 15 = 10"
  unfolding fsub_def by (rule fl_cert[where k = "- 49" and n = 5629499534213120]) (simp_all add: pow2_def)

lemma discretize_grind_unfold:
  "discretize_grind g = max 0 (min 29 (py_int (fmul (fdiv (of_int (g - 1)) 29) 29)))"
  by (simp add: discretize_grind_def GRIND_SIZE_BOUNDS_def GRIND_SIZE_STEPS_def)

lemma discretize_volume_unfold:
  "discretize_volume v = max 0 (min 9 (py_int (fmul (fdiv (fsub v 25) 25) 9)))"
  by (simp add: discretize_volume_def BREW_VOLUME_BOUNDS_def BREW_VOLUME_STEPS_def fsub_50_25)

lemma discretize_dose_unfold:
  "discretize_dose d = max 0 (min 9 (py_int (fmul (fdiv (fsub d 15) 10) 9)))"
  by (simp add: discretize_dose_def COFFEE_DOSE_BOUNDS_def COFFEE_DOSE_STEPS_def fsub_25_15)

lemma undiscretize_grind_unfold:
  "undiscretize_grind idx = py_round (fadd 1 (fmul (fdiv (of_int idx) 29) 29))"
  by (simp add: undiscretize_grind_def GRIND_SIZE_BOUNDS_def GRIND_SIZE_STEPS_def)

lemma undiscretize_volume_unfold:
  "undiscretize_volume idx = fadd 25 (fmul (fdiv (of_int idx) 9) 25)"
  by (simp add: undiscretize_volume_def BREW_VOLUME_BOUNDS_def BREW_VOLUME_STEPS_def fsub_50_25)

lemma undiscretize_dose_unfold:
  "undiscretize_dose idx = fadd 15 (fmul (fdiv (of_int idx) 9) 10)"
  by (simp add: undiscretize_dose_def COFFEE_DOSE_BOUNDS_def COFFEE_DOSE_STEPS_def fsub_25_15)

text \<open>The doubles of the float literals \<^verbatim>\<open>1.0\<close>, \<^verbatim>\<open>0.1\<close>, \<^verbatim>\<open>0.2\<close>, \<^verbatim>\<open>0.01\<close> and
  \<^verbatim>\<open>0.995\<close>.\<close>

lemma fl_one: "fl 1 = 1"
  by (rule fl_cert[where k = "- 52" and n = 4503599627370496]) (simp_all add: pow2_def)

lemma fl_tenth: "fl (1 / 10) = 3602879701896397 / 36028797018963968"
  by (rule fl_cert[where k = "- 56" and n = 7205759403792794]) (simp_all add: pow2_def)

lemma fl_fifth: "fl (1 / 5) = 3602879701896397 / 18014398509481984"
  by (rule fl_cert[where k = "- 55" and n = 7205759403792794]) (simp_all add: pow2_def)

lemma fl_hundredth: "fl (1 / 100) = 5764607523034235 / 576460752303423488"
  by (rule fl_cert[where k = "- 59" and n = 5764607523034235]) (simp_all add: pow2_def)

lemma fl_decay_value: "fl (199 / 200) = 8962163258467287 / 9007199254740992"
  by (rule fl_cert[where k = "- 53" and n = 8962163258467287]) (simp_all add: pow2_def)


section \<open>Discretisation, value by value\<close>

subsection \<open>The grind setting\<close>

text \<open>For each grind index \<open>k\<close> the float \<open>(k / 29) * 29\<close> truncates to \<open>k\<close>, and
  one more rounds to \<open>k + 1\<close>; the product differs from \<open>k\<close> for \<open>k = 15\<close> only.\<close>

lemma grind_value_0:
  "py_int (fmul (fdiv 0 29) 29) = 0" "py_round (fadd 1 (fmul (fdiv 0 29) 29)) = 1"
proof -
  have e1: "fdiv 0 29 = 0"
    by (simp add: fdiv_def fl_zero)
  have e2: "fmul 0 29 = 0"
    by (simp add: fmul_def fl_zero)
  have e3: "fadd 1 0 = 1"
    unfolding fadd_def by (rule fl_cert[where k = "- 52" and n = 4503599627370496]) (simp_all add: pow2_def)
  have t: "py_int 0 = 0"
    by (rule py_int_cert) simp_all
  have r: "round_half_even 1 = 1"
    by (rule rhe_cert) simp
  show "py_int (fmul (fdiv 0 29) 29) = 0"
    by (simp only: e1 e2 t)
  show "py_round (fadd 1 (fmul (fdiv 0 29) 29)) = 1"
    by (simp only: e1 e2 e3 r py_round_def)
qed

lemma grind_value_1:
  "py_int (fmul (fdiv 1 29) 29) = 1" "py_round (fadd 1 (fmul (fdiv 1 29) 29)) = 2"
proof -
  have e1: "fdiv 1 29 = 2484744621997515 / 72057594037927936"
    unfolding fdiv_def by (rule fl_cert[where k = "- 57" and n = 4969489243995030]) (simp_all add: pow2_def)
  have e2: "fmul (2484744621997515 / 72057594037927936) 29 = 1"
    unfolding fmul_def by (rule fl_cert[where k = "- 53" and n = 9007199254740992]) (simp_all add: pow2_def)
  have e3: "fadd 1 1 = 2"
    unfolding fadd_def by (rule fl_cert[where k = "- 51" and n = 4503599627370496]) (simp_all add: pow2_def)
  have t: "py_int 1 = 1"
    by (rule py_int_cert) simp_all
  have r: "round_half_even 2 = 2"
    by (rule rhe_cert) simp
  show "py_int (fmul (fdiv 1 29) 29) = 1"
    by (simp only: e1 e2 t)
  show "py_round (fadd 1 (fmul (fdiv 1 29) 29)) = 2"
    by (simp only: e1 e2 e3 r py_round_def)
qed

lemma grind_value_2:
  "py_int (fmul (fdiv 2 29) 29) = 2" "py_round (fadd 1 (fmul (fdiv 2 29) 29)) = 3"
proof -
  have e1: "fdiv 2 29 = 2484744621997515 / 36028797018963968"
    unfolding fdiv_def by (rule fl_cert[where k = "- 56" and n = 4969489243995030]) (simp_all add: pow2_def)
  have e2: "fmul (2484744621997515 / 36028797018963968) 29 = 2"
    unfolding fmul_def by (rule fl_cert[where k = "- 52" and n = 9007199254740992]) (simp_all add: pow2_def)
  have e3: "fadd 1 2 = 3"
    unfolding fadd_def by (rule fl_cert[where k = "- 51" and n = 6755399441055744]) (simp_all add: pow2_def)
  have t: "py_int 2 = 2"
    by (rule py_int_cert) simp_all
  have r: "round_half_even 3 = 3"
    by (rule rhe_cert) simp
  show "py_int (fmul (fdiv 2 29) 29) = 2"
    by (simp only: e1 e2 t)
  show "py_round (fadd 1 (fmul (fdiv 2 29) 29)) = 3"
    by (simp only: e1 e2 e3 r py_round_def)
qed

lemma grind_value_3:
  "py_int (fmul (fdiv 3 29) 29) = 3" "py_round (fadd 1 (fmul (fdiv 3 29) 29)) = 4"
proof -
  have e1: "fdiv 3 29 = 7454233865992545 / 72057594037927936"
    unfolding fdiv_def by (rule fl_cert[where k = "- 56" and n = 7454233865992545]) (simp_all add: pow2_def)
  have e2: "fmul (7454233865992545 / 72057594037927936) 29 = 3"
    unfolding fmul_def by (rule fl_cert[where k = "- 51" and n = 6755399441055744]) (simp_all add: pow2_def)
  have e3: "fadd 1 3 = 4"
    unfolding fadd_def by (rule fl_cert[where k = "- 50" and n = 4503599627370496]) (simp_all add: pow2_def)
  have t: "py_int 3 = 3"
    by (rule py_int_cert) simp_all
  have r: "round_half_even 4 = 4"
    by (rule rhe_cert) simp
  show "py_int (fmul (fdiv 3 29) 29) = 3"
    by (simp only: e1 e2 t)
  show "py_round (fadd 1 (fmul (fdiv 3 29) 29)) = 4"
    by (simp only: e1 e2 e3 r py_round_def)
qed

lemma grind_value_4:
  "py_int (fmul (fdiv 4 29) 29) = 4" "py_round (fadd 1 (fmul (fdiv 4 29) 29)) = 5"
proof -
  have e1: "fdiv 4 29 = 2484744621997515 / 18014398509481984"
    unfolding fdiv_def by (rule fl_cert[where k = "- 55" and n = 4969489243995030]) (simp_all add: pow2_def)
  have e2: "fmul (2484744621997515 / 18014398509481984) 29 = 4"
    unfolding fmul_def by (rule fl_cert[where k = "- 51" and n = 9007199254740992]) (simp_all add: pow2_def)
  have e3: "fadd 1 4 = 5"
    unfolding fadd_def by (rule fl_cert[where k = "- 50" and n = 5629499534213120]) (simp_all add: pow2_def)
  have t: "py_int 4 = 4"
    by (rule py_int_cert) simp_all
  have r: "round_half_even 5 = 5"
    by (rule rhe_cert) simp
  show "py_int (fmul (fdiv 4 29) 29) = 4"
    by (simp only: e1 e2 t)
  show "py_round (fadd 1 (fmul (fdiv 4 29) 29)) = 5"
    by (simp only: e1 e2 e3 r py_round_def)
qed

lemma grind_value_5:
  "py_int (fmul (fdiv 5 29) 29) = 5" "py_round (fadd 1 (fmul (fdiv 5 29) 29)) = 6"
proof -
  have e1: "fdiv 5 29 = 1552965388748447 / 9007199254740992"
    unfolding fdiv_def by (rule fl_cert[where k = "- 55" and n = 6211861554993788]) (simp_all add: pow2_def)
  have e2: "fmul (1552965388748447 / 9007199254740992) 29 = 5"
    unfolding fmul_def by (rule fl_cert[where k = "- 50" and n = 5629499534213120]) (simp_all add: pow2_def)
  have e3: "fadd 1 5 = 6"
    unfolding fadd_def by (rule fl_cert[where k = "- 50" and n = 6755399441055744]) (simp_all add: pow2_def)
  have t: "py_int 5 = 5"
    by (rule py_int_cert) simp_all
  have r: "round_half_even 6 = 6"
    by (rule rhe_cert) simp
  show "py_int (fmul (fdiv 5 29) 29) = 5"
    by (simp only: e1 e2 t)
  show "py_round (fadd 1 (fmul (fdiv 5 29) 29)) = 6"
    by (simp only: e1 e2 e3 r py_round_def)
qed

lemma grind_value_6:
  "py_int (fmul (fdiv 6 29) 29) = 6" "py_round (fadd 1 (fmul (fdiv 6 29) 29)) = 7"
proof -
  have e1: "fdiv 6 29 = 7454233865992545 / 36028797018963968"
    unfolding fdiv_def by (rule fl_cert[where k = "- 55" and n = 7454233865992545]) (simp_all add: pow2_def)
  have e2: "fmul (7454233865992545 / 36028797018963968) 29 = 6"
    unfolding fmul_def by (rule fl_cert[where k = "- 50" and n = 6755399441055744]) (simp_all add: pow2_def)
  have e3: "fadd 1 6 = 7"
    unfolding fadd_def by (rule fl_cert[where k = "- 50" and n = 7881299347898368]) (simp_all add: pow2_def)
  have t: "py_int 6 = 6"
    by (rule py_int_cert) simp_all
  have r: "round_half_even 7 = 7"
    by (rule rhe_cert) simp
  show "py_int (fmul (fdiv 6 29) 29) = 6"
    by (simp only: e1 e2 t)
  show "py_round (fadd 1 (fmul (fdiv 6 29) 29)) = 7"
    by (simp only: e1 e2 e3 r py_round_def)
qed

lemma grind_value_7:
  "py_int (fmul (fdiv 7 29) 29) = 7" "py_round (fadd 1 (fmul (fdiv 7 29) 29)) = 8"
proof -
  have e1: "fdiv 7 29 = 8696606176991303 / 36028797018963968"
    unfolding fdiv_def by (rule fl_cert[where k = "- 55" and n = 8696606176991303]) (simp_all add: pow2_def)
  have e2: "fmul (8696606176991303 / 36028797018963968) 29 = 7"
    unfolding fmul_def by (rule fl_cert[where k = "- 50" and n = 7881299347898368]) (simp_all add: pow2_def)
  have e3: "fadd 1 7 = 8"
    unfolding fadd_def by (rule fl_cert[where k = "- 49" and n = 4503599627370496]) (simp_all add: pow2_def)
  have t: "py_int 7 = 7"
    by (rule py_int_cert) simp_all
  have r: "round_half_even 8 = 8"
    by (rule rhe_cert) simp
  show "py_int (fmul (fdiv 7 29) 29) = 7"
    by (simp only: e1 e2 t)
  show "py_round (fadd 1 (fmul (fdiv 7 29) 29)) = 8"
    by (simp only: e1 e2 e3 r py_round_def)
qed

lemma grind_value_8:
  "py_int (fmul (fdiv 8 29) 29) = 8" "py_round (fadd 1 (fmul (fdiv 8 29) 29)) = 9"
proof -
  have e1: "fdiv 8 29 = 2484744621997515 / 9007199254740992"
    unfolding fdiv_def by (rule fl_cert[where k = "- 54" and n = 4969489243995030]) (simp_all add: pow2_def)
  have e2: "fmul (2484744621997515 / 9007199254740992) 29 = 8"
    unfolding fmul_def by (rule fl_cert[where k = "- 50" and n = 9007199254740992]) (simp_all add: pow2_def)
  have e3: "fadd 1 8 = 9"
    unfolding fadd_def by (rule fl_cert[where k = "- 49" and n = 5066549580791808]) (simp_all add: pow2_def)
  have t: "py_int 8 = 8"
    by (rule py_int_cert) simp_all
  have r: "round_half_even 9 = 9"
    by (rule rhe_cert) simp
  show "py_int (fmul (fdiv 8 29) 29) = 8"
    by (simp only: e1 e2 t)
  show "py_round (fadd 1 (fmul (fdiv 8 29) 29)) = 9"
    by (simp only: e1 e2 e3 r py_round_def)
qed

lemma grind_value_9:
  "py_int (fmul (fdiv 9 29) 29) = 9" "py_round (fadd 1 (fmul (fdiv 9 29) 29)) = 10"
proof -
  have e1: "fdiv 9 29 = 5590675399494409 / 18014398509481984"
    unfolding fdiv_def by (rule fl_cert[where k = "- 54" and n = 5590675399494409]) (simp_all add: pow2_def)
  have e2: "fmul (5590675399494409 / 18014398509481984) 29 = 9"
    unfolding fmul_def by (rule fl_cert[where k = "- 49" and n = 5066549580791808]) (simp_all add: pow2_def)
  have e3: "fadd 1 9 = 10"
    unfolding fadd_def by (rule fl_cert[where k = "- 49" and n = 5629499534213120]) (simp_all add: pow2_def)
  have t: "py_int 9 = 9"
    by (rule py_int_cert) simp_all
  have r: "round_half_even 10 = 10"
    by (rule rhe_cert) simp
  show "py_int (fmul (fdiv 9 29) 29) = 9"
    by (simp only: e1 e2 t)
  show "py_round (fadd 1 (fmul (fdiv 9 29) 29)) = 10"
    by (simp only: e1 e2 e3 r py_round_def)
qed

lemma grind_value_10:
  "py_int (fmul (fdiv 10 29) 29) = 10" "py_round (fadd 1 (fmul (fdiv 10 29) 29)) = 11"
proof -
  have e1: "fdiv 10 29 = 1552965388748447 / 4503599627370496"
    unfolding fdiv_def by (rule fl_cert[where k = "- 54" and n = 6211861554993788]) (simp_all add: pow2_def)
  have e2: "fmul (1552965388748447 / 4503599627370496) 29 = 10"
    unfolding fmul_def by (rule fl_cert[where k = "- 49" and n = 5629499534213120]) (simp_all add: pow2_def)
  have e3: "fadd 1 10 = 11"
    unfolding fadd_def by (rule fl_cert[where k = "- 49" and n = 6192449487634432]) (simp_all add: pow2_def)
  have t: "py_int 10 = 10"
    by (rule py_int_cert) simp_all
  have r: "round_half_even 11 = 11"
    by (rule rhe_cert) simp
  show "py_int (fmul (fdiv 10 29) 29) = 10"
    by (simp only: e1 e2 t)
  show "py_round (fadd 1 (fmul (fdiv 10 29) 29)) = 11"
    by (simp only: e1 e2 e3 r py_round_def)
qed

lemma grind_value_11:
  "py_int (fmul (fdiv 11 29) 29) = 11" "py_round (fadd 1 (fmul (fdiv 11 29) 29)) = 12"
proof -
  have e1: "fdiv 11 29 = 3416523855246583 / 9007199254740992"
    unfolding fdiv_def by (rule fl_cert[where k = "- 54" and n = 6833047710493166]) (simp_all add: pow2_def)
  have e2: "fmul (3416523855246583 / 9007199254740992) 29 = 11"
    unfolding fmul_def by (rule fl_cert[where k = "- 49" and n = 6192449487634432]) (simp_all add: pow2_def)
  have e3: "fadd 1 11 = 12"
    unfolding fadd_def by (rule fl_cert[where k = "- 49" and n = 6755399441055744]) (simp_all add: pow2_def)
  have t: "py_int 11 = 11"
    by (rule py_int_cert) simp_all
  have r: "round_half_even 12 = 12"
    by (rule rhe_cert) simp
  show "py_int (fmul (fdiv 11 29) 29) = 11"
    by (simp only: e1 e2 t)
  show "py_round (fadd 1 (fmul (fdiv 11 29) 29)) = 12"
    by (simp only: e1 e2 e3 r py_round_def)
qed

lemma grind_value_12:
  "py_int (fmul (fdiv 12 29) 29) = 12" "py_round (fadd 1 (fmul (fdiv 12 29) 29)) = 13"
proof -
  have e1: "fdiv 12 29 = 7454233865992545 / 18014398509481984"
    unfolding fdiv_def by (rule fl_cert[where k = "- 54" and n = 7454233865992545]) (simp_all add: pow2_def)
  have e2: "fmul (7454233865992545 / 18014398509481984) 29 = 12"
    unfolding fmul_def by (rule fl_cert[where k = "- 49" and n = 6755399441055744]) (simp_all add: pow2_def)
  have e3: "fadd 1 12 = 13"
    unfolding fadd_def by (rule fl_cert[where k = "- 49" and n = 7318349394477056]) (simp_all add: pow2_def)
  have t: "py_int 12 = 12"
    by (rule py_int_cert) simp_all
  have r: "round_half_even 13 = 13"
    by (rule rhe_cert) simp
  show "py_int (fmul (fdiv 12 29) 29) = 12"
    by (simp only: e1 e2 t)
  show "py_round (fadd 1 (fmul (fdiv 12 29) 29)) = 13"
    by (simp only: e1 e2 e3 r py_round_def)
qed

lemma grind_value_13:
  "py_int (fmul (fdiv 13 29) 29) = 13" "py_round (fadd 1 (fmul (fdiv 13 29) 29)) = 14"
proof -
  have e1: "fdiv 13 29 = 2018855005372981 / 4503599627370496"
    unfolding fdiv_def by (rule fl_cert[where k = "- 54" and n = 8075420021491924]) (simp_all add: pow2_def)
  have e2: "fmul (2018855005372981 / 4503599627370496) 29 = 13"
    unfolding fmul_def by (rule fl_cert[where k = "- 49" and n = 7318349394477056]) (simp_all add: pow2_def)
  have e3: "fadd 1 13 = 14"
    unfolding fadd_def by (rule fl_cert[where k = "- 49" and n = 7881299347898368]) (simp_all add: pow2_def)
  have t: "py_int 13 = 13"
    by (rule py_int_cert) simp_all
  have r: "round_half_even 14 = 14"
    by (rule rhe_cert) simp
  show "py_int (fmul (fdiv 13 29) 29) = 13"
    by (simp only: e1 e2 t)
  show "py_round (fadd 1 (fmul (fdiv 13 29) 29)) = 14"
    by (simp only: e1 e2 e3 r py_round_def)
qed

lemma grind_value_14:
  "py_int (fmul (fdiv 14 29) 29) = 14" "py_round (fadd 1 (fmul (fdiv 14 29) 29)) = 15"
proof -
  have e1: "fdiv 14 29 = 8696606176991303 / 18014398509481984"
    unfolding fdiv_def by (rule fl_cert[where k = "- 54" and n = 8696606176991303]) (simp_all add: pow2_def)
  have e2: "fmul (8696606176991303 / 18014398509481984) 29 = 14"
    unfolding fmul_def by (rule fl_cert[where k = "- 49" and n = 7881299347898368]) (simp_all add: pow2_def)
  have e3: "fadd 1 14 = 15"
    unfolding fadd_def by (rule fl_cert[where k = "- 49" and n = 8444249301319680]) (simp_all add: pow2_def)
  have t: "py_int 14 = 14"
    by (rule py_int_cert) simp_all
  have r: "round_half_even 15 = 15"
    by (rule rhe_cert) simp
  show "py_int (fmul (fdiv 14 29) 29) = 14"
    by (simp only: e1 e2 t)
  show "py_round (fadd 1 (fmul (fdiv 14 29) 29)) = 15"
    by (simp only: e1 e2 e3 r py_round_def)
qed

lemma grind_value_15:
  "py_int (fmul (fdiv 15 29) 29) = 15" "py_round (fadd 1 (fmul (fdiv 15 29) 29)) = 16"
proof -
  have e1: "fdiv 15 29 = 4658896166245341 / 9007199254740992"
    unfolding fdiv_def by (rule fl_cert[where k = "- 53" and n = 4658896166245341]) (simp_all add: pow2_def)
  have e2: "fmul (4658896166245341 / 9007199254740992) 29 = 8444249301319681 / 562949953421312"
    unfolding fmul_def by (rule fl_cert[where k = "- 49" and n = 8444249301319681]) (simp_all add: pow2_def)
  have e3: "fadd 1 (8444249301319681 / 562949953421312) = 16"
    unfolding fadd_def by (rule fl_cert[where k = "- 48" and n = 4503599627370496]) (simp_all add: pow2_def)
  have t: "py_int (8444249301319681 / 562949953421312) = 15"
    by (rule py_int_cert) simp_all
  have r: "round_half_even 16 = 16"
    by (rule rhe_cert) simp
  show "py_int (fmul (fdiv 15 29) 29) = 15"
    by (simp only: e1 e2 t)
  show "py_round (fadd 1 (fmul (fdiv 15 29) 29)) = 16"
    by (simp only: e1 e2 e3 r py_round_def)
qed

lemma grind_value_16:
  "py_int (fmul (fdiv 16 29) 29) = 16" "py_round (fadd 1 (fmul (fdiv 16 29) 29)) = 17"
proof -
  have e1: "fdiv 16 29 = 2484744621997515 / 4503599627370496"
    unfolding fdiv_def by (rule fl_cert[where k = "- 53" and n = 4969489243995030]) (simp_all add: pow2_def)
  have e2: "fmul (2484744621997515 / 4503599627370496) 29 = 16"
    unfolding fmul_def by (rule fl_cert[where k = "- 49" and n = 9007199254740992]) (simp_all add: pow2_def)
  have e3: "fadd 1 16 = 17"
    unfolding fadd_def by (rule fl_cert[where k = "- 48" and n = 4785074604081152]) (simp_all add: pow2_def)
  have t: "py_int 16 = 16"
    by (rule py_int_cert) simp_all
  have r: "round_half_even 17 = 17"
    by (rule rhe_cert) simp
  show "py_int (fmul (fdiv 16 29) 29) = 16"
    by (simp only: e1 e2 t)
  show "py_round (fadd 1 (fmul (fdiv 16 29) 29)) = 17"
    by (simp only: e1 e2 e3 r py_round_def)
qed

lemma grind_value_17:
  "py_int (fmul (fdiv 17 29) 29) = 17" "py_round (fadd 1 (fmul (fdiv 17 29) 29)) = 18"
proof -
  have e1: "fdiv 17 29 = 5280082321744719 / 9007199254740992"
    unfolding fdiv_def by (rule fl_cert[where k = "- 53" and n = 5280082321744719]) (simp_all add: pow2_def)
  have e2: "fmul (5280082321744719 / 9007199254740992) 29 = 17"
    unfolding fmul_def by (rule fl_cert[where k = "- 48" and n = 4785074604081152]) (simp_all add: pow2_def)
  have e3: "fadd 1 17 = 18"
    unfolding fadd_def by (rule fl_cert[where k = "- 48" and n = 5066549580791808]) (simp_all add: pow2_def)
  have t: "py_int 17 = 17"
    by (rule py_int_cert) simp_all
  have r: "round_half_even 18 = 18"
    by (rule rhe_cert) simp
  show "py_int (fmul (fdiv 17 29) 29) = 17"
    by (simp only: e1 e2 t)
  show "py_round (fadd 1 (fmul (fdiv 17 29) 29)) = 18"
    by (simp only: e1 e2 e3 r py_round_def)
qed

lemma grind_value_18:
  "py_int (fmul (fdiv 18 29) 29) = 18" "py_round (fadd 1 (fmul (fdiv 18 29) 29)) = 19"
proof -
  have e1: "fdiv 18 29 = 5590675399494409 / 9007199254740992"
    unfolding fdiv_def by (rule fl_cert[where k = "- 53" and n = 5590675399494409]) (simp_all add: pow2_def)
  have e2: "fmul (5590675399494409 / 9007199254740992) 29 = 18"
    unfolding fmul_def by (rule fl_cert[where k = "- 48" and n = 5066549580791808]) (simp_all add: pow2_def)
  have e3: "fadd 1 18 = 19"
    unfolding fadd_def by (rule fl_cert[where k = "- 48" and n = 5348024557502464]) (simp_all add: pow2_def)
  have t: "py_int 18 = 18"
    by (rule py_int_cert) simp_all
  have r: "round_half_even 19 = 19"
    by (rule rhe_cert) simp
  show "py_int (fmul (fdiv 18 29) 29) = 18"
    by (simp only: e1 e2 t)
  show "py_round (fadd 1 (fmul (fdiv 18 29) 29)) = 19"
    by (simp only: e1 e2 e3 r py_round_def)
qed

lemma grind_value_19:
  "py_int (fmul (fdiv 19 29) 29) = 19" "py_round (fadd 1 (fmul (fdiv 19 29) 29)) = 20"
proof -
  have e1: "fdiv 19 29 = 2950634238622049 / 4503599627370496"
    unfolding fdiv_def by (rule fl_cert[where k = "- 53" and n = 5901268477244098]) (simp_all add: pow2_def)
  have e2: "fmul (2950634238622049 / 4503599627370496) 29 = 19"
    unfolding fmul_def by (rule fl_cert[where k = "- 48" and n = 5348024557502464]) (simp_all add: pow2_def)
  have e3: "fadd 1 19 = 20"
    unfolding fadd_def by (rule fl_cert[where k = "- 48" and n = 5629499534213120]) (simp_all add: pow2_def)
  have t: "py_int 19 = 19"
    by (rule py_int_cert) simp_all
  have r: "round_half_even 20 = 20"
    by (rule rhe_cert) simp
  show "py_int (fmul (fdiv 19 29) 29) = 19"
    by (simp only: e1 e2 t)
  show "py_round (fadd 1 (fmul (fdiv 19 29) 29)) = 20"
    by (simp only: e1 e2 e3 r py_round_def)
qed

lemma grind_value_20:
  "py_int (fmul (fdiv 20 29) 29) = 20" "py_round (fadd 1 (fmul (fdiv 20 29) 29)) = 21"
proof -
  have e1: "fdiv 20 29 = 1552965388748447 / 2251799813685248"
    unfolding fdiv_def by (rule fl_cert[where k = "- 53" and n = 6211861554993788]) (simp_all add: pow2_def)
  have e2: "fmul (1552965388748447 / 2251799813685248) 29 = 20"
    unfolding fmul_def by (rule fl_cert[where k = "- 48" and n = 5629499534213120]) (simp_all add: pow2_def)
  have e3: "fadd 1 20 = 21"
    unfolding fadd_def by (rule fl_cert[where k = "- 48" and n = 5910974510923776]) (simp_all add: pow2_def)
  have t: "py_int 20 = 20"
    by (rule py_int_cert) simp_all
  have r: "round_half_even 21 = 21"
    by (rule rhe_cert) simp
  show "py_int (fmul (fdiv 20 29) 29) = 20"
    by (simp only: e1 e2 t)
  show "py_round (fadd 1 (fmul (fdiv 20 29) 29)) = 21"
    by (simp only: e1 e2 e3 r py_round_def)
qed

lemma grind_value_21:
  "py_int (fmul (fdiv 21 29) 29) = 21" "py_round (fadd 1 (fmul (fdiv 21 29) 29)) = 22"
proof -
  have e1: "fdiv 21 29 = 6522454632743477 / 9007199254740992"
    unfolding fdiv_def by (rule fl_cert[where k = "- 53" and n = 6522454632743477]) (simp_all add: pow2_def)
  have e2: "fmul (6522454632743477 / 9007199254740992) 29 = 21"
    unfolding fmul_def by (rule fl_cert[where k = "- 48" and n = 5910974510923776]) (simp_all add: pow2_def)
  have e3: "fadd 1 21 = 22"
    unfolding fadd_def by (rule fl_cert[where k = "- 48" and n = 6192449487634432]) (simp_all add: pow2_def)
  have t: "py_int 21 = 21"
    by (rule py_int_cert) simp_all
  have r: "round_half_even 22 = 22"
    by (rule rhe_cert) simp
  show "py_int (fmul (fdiv 21 29) 29) = 21"
    by (simp only: e1 e2 t)
  show "py_round (fadd 1 (fmul (fdiv 21 29) 29)) = 22"
    by (simp only: e1 e2 e3 r py_round_def)
qed

lemma grind_value_22:
  "py_int (fmul (fdiv 22 29) 29) = 22" "py_round (fadd 1 (fmul (fdiv 22 29) 29)) = 23"
proof -
  have e1: "fdiv 22 29 = 3416523855246583 / 4503599627370496"
    unfolding fdiv_def by (rule fl_cert[where k = "- 53" and n = 6833047710493166]) (simp_all add: pow2_def)
  have e2: "fmul (3416523855246583 / 4503599627370496) 29 = 22"
    unfolding fmul_def by (rule fl_cert[where k = "- 48" and n = 6192449487634432]) (simp_all add: pow2_def)
  have e3: "fadd 1 22 = 23"
    unfolding fadd_def by (rule fl_cert[where k = "- 48" and n = 6473924464345088]) (simp_all add: pow2_def)
  have t: "py_int 22 = 22"
    by (rule py_int_cert) simp_all
  have r: "round_half_even 23 = 23"
    by (rule rhe_cert) simp
  show "py_int (fmul (fdiv 22 29) 29) = 22"
    by (simp only: e1 e2 t)
  show "py_round (fadd 1 (fmul (fdiv 22 29) 29)) = 23"
    by (simp only: e1 e2 e3 r py_round_def)
qed

lemma grind_value_23:
  "py_int (fmul (fdiv 23 29) 29) = 23" "py_round (fadd 1 (fmul (fdiv 23 29) 29)) = 24"
proof -
  have e1: "fdiv 23 29 = 892955098530357 / 1125899906842624"
    unfolding fdiv_def by (rule fl_cert[where k = "- 53" and n = 7143640788242856]) (simp_all add: pow2_def)
  have e2: "fmul (892955098530357 / 1125899906842624) 29 = 23"
    unfolding fmul_def by (rule fl_cert[where k = "- 48" and n = 6473924464345088]) (simp_all add: pow2_def)
  have e3: "fadd 1 23 = 24"
    unfolding fadd_def by (rule fl_cert[where k = "- 48" and n = 6755399441055744]) (simp_all add: pow2_def)
  have t: "py_int 23 = 23"
    by (rule py_int_cert) simp_all
  have r: "round_half_even 24 = 24"
    by (rule rhe_cert) simp
  show "py_int (fmul (fdiv 23 29) 29) = 23"
    by (simp only: e1 e2 t)
  show "py_round (fadd 1 (fmul (fdiv 23 29) 29)) = 24"
    by (simp only: e1 e2 e3 r py_round_def)
qed

lemma grind_value_24:
  "py_int (fmul (fdiv 24 29) 29) = 24" "py_round (fadd 1 (fmul (fdiv 24 29) 29)) = 25"
proof -
  have e1: "fdiv 24 29 = 7454233865992545 / 9007199254740992"
    unfolding fdiv_def by (rule fl_cert[where k = "- 53" and n = 7454233865992545]) (simp_all add: pow2_def)
  have e2: "fmul (7454233865992545 / 9007199254740992) 29 = 24"
    unfolding fmul_def by (rule fl_cert[where k = "- 48" and n = 6755399441055744]) (simp_all add: pow2_def)
  have e3: "fadd 1 24 = 25"
    unfolding fadd_def by (rule fl_cert[where k = "- 48" and n = 7036874417766400]) (simp_all add: pow2_def)
  have t: "py_int 24 = 24"
    by (rule py_int_cert) simp_all
  have r: "round_half_even 25 = 25"
    by (rule rhe_cert) simp
  show "py_int (fmul (fdiv 24 29) 29) = 24"
    by (simp only: e1 e2 t)
  show "py_round (fadd 1 (fmul (fdiv 24 29) 29)) = 25"
    by (simp only: e1 e2 e3 r py_round_def)
qed

lemma grind_value_25:
  "py_int (fmul (fdiv 25 29) 29) = 25" "py_round (fadd 1 (fmul (fdiv 25 29) 29)) = 26"
proof -
  have e1: "fdiv 25 29 = 3882413471871117 / 4503599627370496"
    unfolding fdiv_def by (rule fl_cert[where k = "- 53" and n = 7764826943742234]) (simp_all add: pow2_def)
  have e2: "fmul (3882413471871117 / 4503599627370496) 29 = 25"
    unfolding fmul_def by (rule fl_cert[where k = "- 48" and n = 7036874417766400]) (simp_all add: pow2_def)
  have e3: "fadd 1 25 = 26"
    unfolding fadd_def by (rule fl_cert[where k = "- 48" and n = 7318349394477056]) (simp_all add: pow2_def)
  have t: "py_int 25 = 25"
    by (rule py_int_cert) simp_all
  have r: "round_half_even 26 = 26"
    by (rule rhe_cert) simp
  show "py_int (fmul (fdiv 25 29) 29) = 25"
    by (simp only: e1 e2 t)
  show "py_round (fadd 1 (fmul (fdiv 25 29) 29)) = 26"
    by (simp only: e1 e2 e3 r py_round_def)
qed

lemma grind_value_26:
  "py_int (fmul (fdiv 26 29) 29) = 26" "py_round (fadd 1 (fmul (fdiv 26 29) 29)) = 27"
proof -
  have e1: "fdiv 26 29 = 2018855005372981 / 2251799813685248"
    unfolding fdiv_def by (rule fl_cert[where k = "- 53" and n = 8075420021491924]) (simp_all add: pow2_def)
  have e2: "fmul (2018855005372981 / 2251799813685248) 29 = 26"
    unfolding fmul_def by (rule fl_cert[where k = "- 48" and n = 7318349394477056]) (simp_all add: pow2_def)
  have e3: "fadd 1 26 = 27"
    unfolding fadd_def by (rule fl_cert[where k = "- 48" and n = 7599824371187712]) (simp_all add: pow2_def)
  have t: "py_int 26 = 26"
    by (rule py_int_cert) simp_all
  have r: "round_half_even 27 = 27"
    by (rule rhe_cert) simp
  show "py_int (fmul (fdiv 26 29) 29) = 26"
    by (simp only: e1 e2 t)
  show "py_round (fadd 1 (fmul (fdiv 26 29) 29)) = 27"
    by (simp only: e1 e2 e3 r py_round_def)
qed

lemma grind_value_27:
  "py_int (fmul (fdiv 27 29) 29) = 27" "py_round (fadd 1 (fmul (fdiv 27 29) 29)) = 28"
proof -
  have e1: "fdiv 27 29 = 8386013099241613 / 9007199254740992"
    unfolding fdiv_def by (rule fl_cert[where k = "- 53" and n = 8386013099241613]) (simp_all add: pow2_def)
  have e2: "fmul (8386013099241613 / 9007199254740992) 29 = 27"
    unfolding fmul_def by (rule fl_cert[where k = "- 48" and n = 7599824371187712]) (simp_all add: pow2_def)
  have e3: "fadd 1 27 = 28"
    unfolding fadd_def by (rule fl_cert[where k = "- 48" and n = 7881299347898368]) (simp_all add: pow2_def)
  have t: "py_int 27 = 27"
    by (rule py_int_cert) simp_all
  have r: "round_half_even 28 = 28"
    by (rule rhe_cert) simp
  show "py_int (fmul (fdiv 27 29) 29) = 27"
    by (simp only: e1 e2 t)
  show "py_round (fadd 1 (fmul (fdiv 27 29) 29)) = 28"
    by (simp only: e1 e2 e3 r py_round_def)
qed

lemma grind_value_28:
  "py_int (fmul (fdiv 28 29) 29) = 28" "py_round (fadd 1 (fmul (fdiv 28 29) 29)) = 29"
proof -
  have e1: "fdiv 28 29 = 8696606176991303 / 9007199254740992"
    unfolding fdiv_def by (rule fl_cert[where k = "- 53" and n = 8696606176991303]) (simp_all add: pow2_def)
  have e2: "fmul (8696606176991303 / 9007199254740992) 29 = 28"
    unfolding fmul_def by (rule fl_cert[where k = "- 48" and n = 7881299347898368]) (simp_all add: pow2_def)
  have e3: "fadd 1 28 = 29"
    unfolding fadd_def by (rule fl_cert[where k = "- 48" and n = 8162774324609024]) (simp_all add: pow2_def)
  have t: "py_int 28 = 28"
    by (rule py_int_cert) simp_all
  have r: "round_half_even 29 = 29"
    by (rule rhe_cert) simp
  show "py_int (fmul (fdiv 28 29) 29) = 28"
    by (simp only: e1 e2 t)
  show "py_round (fadd 1 (fmul (fdiv 28 29) 29)) = 29"
    by (simp only: e1 e2 e3 r py_round_def)
qed

lemma grind_value_29:
  "py_int (fmul (fdiv 29 29) 29) = 29" "py_round (fadd 1 (fmul (fdiv 29 29) 29)) = 30"
proof -
  have e1: "fdiv 29 29 = 1"
    unfolding fdiv_def by (rule fl_cert[where k = "- 52" and n = 4503599627370496]) (simp_all add: pow2_def)
  have e2: "fmul 1 29 = 29"
    unfolding fmul_def by (rule fl_cert[where k = "- 48" and n = 8162774324609024]) (simp_all add: pow2_def)
  have e3: "fadd 1 29 = 30"
    unfolding fadd_def by (rule fl_cert[where k = "- 48" and n = 8444249301319680]) (simp_all add: pow2_def)
  have t: "py_int 29 = 29"
    by (rule py_int_cert) simp_all
  have r: "round_half_even 30 = 30"
    by (rule rhe_cert) simp
  show "py_int (fmul (fdiv 29 29) 29) = 29"
    by (simp only: e1 e2 t)
  show "py_round (fadd 1 (fmul (fdiv 29 29) 29)) = 30"
    by (simp only: e1 e2 e3 r py_round_def)
qed

lemma grind_values:
  assumes "0 \<le> k" and "k \<le> 29"
  shows "py_int (fmul (fdiv (of_int k) 29) 29) = k"
    and "py_round (fadd 1 (fmul (fdiv (of_int k) 29) 29)) = k + 1"
proof -
  have c: "k = 0 \<or> k = 1 \<or> k = 2 \<or> k = 3 \<or> k = 4 \<or> k = 5 \<or> k = 6 \<or> k = 7 \<or> k = 8 \<or> k = 9 \<or> k = 10 \<or> k = 11 \<or> k = 12 \<or> k = 13 \<or> k = 14 \<or> k = 15 \<or> k = 16 \<or> k = 17 \<or> k = 18 \<or> k = 19 \<or> k = 20 \<or> k = 21 \<or> k = 22 \<or> k = 23 \<or> k = 24 \<or> k = 25 \<or> k = 26 \<or> k = 27 \<or> k = 28 \<or> k = 29"
    using assms by arith
  from c show "py_int (fmul (fdiv (of_int k) 29) 29) = k"
    by (elim disjE) (simp_all add: grind_value_0 grind_value_1 grind_value_2 grind_value_3 grind_value_4 grind_value_5 grind_value_6 grind_value_7 grind_value_8 grind_value_9 grind_value_10 grind_value_11 grind_value_12 grind_value_13 grind_value_14 grind_value_15 grind_value_16 grind_value_17 grind_value_18 grind_value_19 grind_value_20 grind_value_21 grind_value_22 grind_value_23 grind_value_24 grind_value_25 grind_value_26 grind_value_27 grind_value_28 grind_value_29)
  from c show "py_round (fadd 1 (fmul (fdiv (of_int k) 29) 29)) = k + 1"
    by (elim disjE) (simp_all add: grind_value_0 grind_value_1 grind_value_2 grind_value_3 grind_value_4 grind_value_5 grind_value_6 grind_value_7 grind_value_8 grind_value_9 grind_value_10 grind_value_11 grind_value_12 grind_value_13 grind_value_14 grind_value_15 grind_value_16 grind_value_17 grind_value_18 grind_value_19 grind_value_20 grind_value_21 grind_value_22 grind_value_23 grind_value_24 grind_value_25 grind_value_26 grind_value_27 grind_value_28 grind_value_29)
qed

lemma discretize_grind_exact: "1 \<le> g \<Longrightarrow> g \<le> 30 \<Longrightarrow> discretize_grind g = g - 1"
  unfolding discretize_grind_unfold using grind_values(1)[of "g - 1"] by simp

lemma undiscretize_grind_exact: "0 \<le> i \<Longrightarrow> i \<le> 29 \<Longrightarrow> undiscretize_grind i = i + 1"
  unfolding undiscretize_grind_unfold using grind_values(2)[of i] by simp

subsection \<open>The brew volume\<close>

text \<open>The value of each index, and the index of that value.\<close>

lemma undiscretize_volume_0: "undiscretize_volume 0 = 25"
proof -
  have e1: "fdiv 0 9 = 0"
    by (simp add: fdiv_def fl_zero)
  have e2: "fmul 0 25 = 0"
    by (simp add: fmul_def fl_zero)
  have e3: "fadd 25 0 = 25"
    unfolding fadd_def by (rule fl_cert[where k = "- 48" and n = 7036874417766400]) (simp_all add: pow2_def)
  show ?thesis
    unfolding undiscretize_volume_unfold by (simp add: e1 e2 e3)
qed

lemma discretize_volume_of_0: "discretize_volume 25 = 0"
proof -
  have e1: "fsub 25 25 = 0"
    by (simp add: fsub_def fl_zero)
  have e2: "fdiv 0 25 = 0"
    by (simp add: fdiv_def fl_zero)
  have e3: "fmul 0 9 = 0"
    by (simp add: fmul_def fl_zero)
  have t: "py_int 0 = 0"
    by (rule py_int_cert) simp_all
  show ?thesis
    unfolding discretize_volume_unfold by (simp add: e1 e2 e3 t)
qed

lemma undiscretize_volume_1: "undiscretize_volume 1 = 3909374676536889 / 140737488355328"
proof -
  have e1: "fdiv 1 9 = 2001599834386887 / 18014398509481984"
    unfolding fdiv_def by (rule fl_cert[where k = "- 56" and n = 8006399337547548]) (simp_all add: pow2_def)
  have e2: "fmul (2001599834386887 / 18014398509481984) 25 = 3127499741229511 / 1125899906842624"
    unfolding fmul_def by (rule fl_cert[where k = "- 51" and n = 6254999482459022]) (simp_all add: pow2_def)
  have e3: "fadd 25 (3127499741229511 / 1125899906842624) = 3909374676536889 / 140737488355328"
    unfolding fadd_def by (rule fl_cert[where k = "- 48" and n = 7818749353073778]) (simp_all add: pow2_def)
  show ?thesis
    unfolding undiscretize_volume_unfold by (simp add: e1 e2 e3)
qed

lemma discretize_volume_of_1: "discretize_volume (3909374676536889 / 140737488355328) = 1"
proof -
  have e1: "fsub (3909374676536889 / 140737488355328) 25 = 390937467653689 / 140737488355328"
    unfolding fsub_def by (rule fl_cert[where k = "- 51" and n = 6254999482459024]) (simp_all add: pow2_def)
  have e2: "fdiv (390937467653689 / 140737488355328) 25 = 8006399337547551 / 72057594037927936"
    unfolding fdiv_def by (rule fl_cert[where k = "- 56" and n = 8006399337547551]) (simp_all add: pow2_def)
  have e3: "fmul (8006399337547551 / 72057594037927936) 9 = 4503599627370497 / 4503599627370496"
    unfolding fmul_def by (rule fl_cert[where k = "- 52" and n = 4503599627370497]) (simp_all add: pow2_def)
  have t: "py_int (4503599627370497 / 4503599627370496) = 1"
    by (rule py_int_cert) simp_all
  show ?thesis
    unfolding discretize_volume_unfold by (simp add: e1 e2 e3 t)
qed

lemma undiscretize_volume_2: "undiscretize_volume 2 = 2150156072095289 / 70368744177664"
proof -
  have e1: "fdiv 2 9 = 2001599834386887 / 9007199254740992"
    unfolding fdiv_def by (rule fl_cert[where k = "- 55" and n = 8006399337547548]) (simp_all add: pow2_def)
  have e2: "fmul (2001599834386887 / 9007199254740992) 25 = 3127499741229511 / 562949953421312"
    unfolding fmul_def by (rule fl_cert[where k = "- 50" and n = 6254999482459022]) (simp_all add: pow2_def)
  have e3: "fadd 25 (3127499741229511 / 562949953421312) = 2150156072095289 / 70368744177664"
    unfolding fadd_def by (rule fl_cert[where k = "- 48" and n = 8600624288381156]) (simp_all add: pow2_def)
  show ?thesis
    unfolding undiscretize_volume_unfold by (simp add: e1 e2 e3)
qed

lemma discretize_volume_of_2: "discretize_volume (2150156072095289 / 70368744177664) = 2"
proof -
  have e1: "fsub (2150156072095289 / 70368744177664) 25 = 390937467653689 / 70368744177664"
    unfolding fsub_def by (rule fl_cert[where k = "- 50" and n = 6254999482459024]) (simp_all add: pow2_def)
  have e2: "fdiv (390937467653689 / 70368744177664) 25 = 8006399337547551 / 36028797018963968"
    unfolding fdiv_def by (rule fl_cert[where k = "- 55" and n = 8006399337547551]) (simp_all add: pow2_def)
  have e3: "fmul (8006399337547551 / 36028797018963968) 9 = 4503599627370497 / 2251799813685248"
    unfolding fmul_def by (rule fl_cert[where k = "- 51" and n = 4503599627370497]) (simp_all add: pow2_def)
  have t: "py_int (4503599627370497 / 2251799813685248) = 2"
    by (rule py_int_cert) simp_all
  show ?thesis
    unfolding discretize_volume_unfold by (simp add: e1 e2 e3 t)
qed

lemma undiscretize_volume_3: "undiscretize_volume 3 = 2345624805922133 / 70368744177664"
proof -
  have e1: "fdiv 3 9 = 6004799503160661 / 18014398509481984"
    unfolding fdiv_def by (rule fl_cert[where k = "- 54" and n = 6004799503160661]) (simp_all add: pow2_def)
  have e2: "fmul (6004799503160661 / 18014398509481984) 25 = 2345624805922133 / 281474976710656"
    unfolding fmul_def by (rule fl_cert[where k = "- 49" and n = 4691249611844266]) (simp_all add: pow2_def)
  have e3: "fadd 25 (2345624805922133 / 281474976710656) = 2345624805922133 / 70368744177664"
    unfolding fadd_def by (rule fl_cert[where k = "- 47" and n = 4691249611844266]) (simp_all add: pow2_def)
  show ?thesis
    unfolding undiscretize_volume_unfold by (simp add: e1 e2 e3)
qed

lemma discretize_volume_of_3: "discretize_volume (2345624805922133 / 70368744177664) = 2"
proof -
  have e1: "fsub (2345624805922133 / 70368744177664) 25 = 586406201480533 / 70368744177664"
    unfolding fsub_def by (rule fl_cert[where k = "- 49" and n = 4691249611844264]) (simp_all add: pow2_def)
  have e2: "fdiv (586406201480533 / 70368744177664) 25 = 3002399751580329 / 9007199254740992"
    unfolding fdiv_def by (rule fl_cert[where k = "- 54" and n = 6004799503160658]) (simp_all add: pow2_def)
  have e3: "fmul (3002399751580329 / 9007199254740992) 9 = 1688849860263935 / 562949953421312"
    unfolding fmul_def by (rule fl_cert[where k = "- 51" and n = 6755399441055740]) (simp_all add: pow2_def)
  have t: "py_int (1688849860263935 / 562949953421312) = 2"
    by (rule py_int_cert) simp_all
  show ?thesis
    unfolding discretize_volume_unfold by (simp add: e1 e2 e3 t)
qed

lemma undiscretize_volume_4: "undiscretize_volume 4 = 1270546769874489 / 35184372088832"
proof -
  have e1: "fdiv 4 9 = 2001599834386887 / 4503599627370496"
    unfolding fdiv_def by (rule fl_cert[where k = "- 54" and n = 8006399337547548]) (simp_all add: pow2_def)
  have e2: "fmul (2001599834386887 / 4503599627370496) 25 = 3127499741229511 / 281474976710656"
    unfolding fmul_def by (rule fl_cert[where k = "- 49" and n = 6254999482459022]) (simp_all add: pow2_def)
  have e3: "fadd 25 (3127499741229511 / 281474976710656) = 1270546769874489 / 35184372088832"
    unfolding fadd_def by (rule fl_cert[where k = "- 47" and n = 5082187079497956]) (simp_all add: pow2_def)
  show ?thesis
    unfolding undiscretize_volume_unfold by (simp add: e1 e2 e3)
qed

lemma discretize_volume_of_4: "discretize_volume (1270546769874489 / 35184372088832) = 4"
proof -
  have e1: "fsub (1270546769874489 / 35184372088832) 25 = 390937467653689 / 35184372088832"
    unfolding fsub_def by (rule fl_cert[where k = "- 49" and n = 6254999482459024]) (simp_all add: pow2_def)
  have e2: "fdiv (390937467653689 / 35184372088832) 25 = 8006399337547551 / 18014398509481984"
    unfolding fdiv_def by (rule fl_cert[where k = "- 54" and n = 8006399337547551]) (simp_all add: pow2_def)
  have e3: "fmul (8006399337547551 / 18014398509481984) 9 = 4503599627370497 / 1125899906842624"
    unfolding fmul_def by (rule fl_cert[where k = "- 50" and n = 4503599627370497]) (simp_all add: pow2_def)
  have t: "py_int (4503599627370497 / 1125899906842624) = 4"
    by (rule py_int_cert) simp_all
  show ?thesis
    unfolding discretize_volume_unfold by (simp add: e1 e2 e3 t)
qed

lemma undiscretize_volume_5: "undiscretize_volume 5 = 1368281136787911 / 35184372088832"
proof -
  have e1: "fdiv 5 9 = 2501999792983609 / 4503599627370496"
    unfolding fdiv_def by (rule fl_cert[where k = "- 53" and n = 5003999585967218]) (simp_all add: pow2_def)
  have e2: "fmul (2501999792983609 / 4503599627370496) 25 = 3909374676536889 / 281474976710656"
    unfolding fmul_def by (rule fl_cert[where k = "- 49" and n = 7818749353073778]) (simp_all add: pow2_def)
  have e3: "fadd 25 (3909374676536889 / 281474976710656) = 1368281136787911 / 35184372088832"
    unfolding fadd_def by (rule fl_cert[where k = "- 47" and n = 5473124547151644]) (simp_all add: pow2_def)
  show ?thesis
    unfolding undiscretize_volume_unfold by (simp add: e1 e2 e3)
qed

lemma discretize_volume_of_5: "discretize_volume (1368281136787911 / 35184372088832) = 4"
proof -
  have e1: "fsub (1368281136787911 / 35184372088832) 25 = 488671834567111 / 35184372088832"
    unfolding fsub_def by (rule fl_cert[where k = "- 49" and n = 7818749353073776]) (simp_all add: pow2_def)
  have e2: "fdiv (488671834567111 / 35184372088832) 25 = 5003999585967217 / 9007199254740992"
    unfolding fdiv_def by (rule fl_cert[where k = "- 53" and n = 5003999585967217]) (simp_all add: pow2_def)
  have e3: "fmul (5003999585967217 / 9007199254740992) 9 = 5629499534213119 / 1125899906842624"
    unfolding fmul_def by (rule fl_cert[where k = "- 50" and n = 5629499534213119]) (simp_all add: pow2_def)
  have t: "py_int (5629499534213119 / 1125899906842624) = 4"
    by (rule py_int_cert) simp_all
  show ?thesis
    unfolding discretize_volume_unfold by (simp add: e1 e2 e3 t)
qed

lemma undiscretize_volume_6: "undiscretize_volume 6 = 5864062014805333 / 140737488355328"
proof -
  have e1: "fdiv 6 9 = 6004799503160661 / 9007199254740992"
    unfolding fdiv_def by (rule fl_cert[where k = "- 53" and n = 6004799503160661]) (simp_all add: pow2_def)
  have e2: "fmul (6004799503160661 / 9007199254740992) 25 = 2345624805922133 / 140737488355328"
    unfolding fmul_def by (rule fl_cert[where k = "- 48" and n = 4691249611844266]) (simp_all add: pow2_def)
  have e3: "fadd 25 (2345624805922133 / 140737488355328) = 5864062014805333 / 140737488355328"
    unfolding fadd_def by (rule fl_cert[where k = "- 47" and n = 5864062014805333]) (simp_all add: pow2_def)
  show ?thesis
    unfolding undiscretize_volume_unfold by (simp add: e1 e2 e3)
qed

lemma discretize_volume_of_6: "discretize_volume (5864062014805333 / 140737488355328) = 5"
proof -
  have e1: "fsub (5864062014805333 / 140737488355328) 25 = 2345624805922133 / 140737488355328"
    unfolding fsub_def by (rule fl_cert[where k = "- 48" and n = 4691249611844266]) (simp_all add: pow2_def)
  have e2: "fdiv (2345624805922133 / 140737488355328) 25 = 1501199875790165 / 2251799813685248"
    unfolding fdiv_def by (rule fl_cert[where k = "- 53" and n = 6004799503160660]) (simp_all add: pow2_def)
  have e3: "fmul (1501199875790165 / 2251799813685248) 9 = 3377699720527871 / 562949953421312"
    unfolding fmul_def by (rule fl_cert[where k = "- 50" and n = 6755399441055742]) (simp_all add: pow2_def)
  have t: "py_int (3377699720527871 / 562949953421312) = 5"
    by (rule py_int_cert) simp_all
  show ?thesis
    unfolding discretize_volume_unfold by (simp add: e1 e2 e3 t)
qed

lemma undiscretize_volume_7: "undiscretize_volume 7 = 3127499741229511 / 70368744177664"
proof -
  have e1: "fdiv 7 9 = 7005599420354105 / 9007199254740992"
    unfolding fdiv_def by (rule fl_cert[where k = "- 53" and n = 7005599420354105]) (simp_all add: pow2_def)
  have e2: "fmul (7005599420354105 / 9007199254740992) 25 = 5473124547151645 / 281474976710656"
    unfolding fmul_def by (rule fl_cert[where k = "- 48" and n = 5473124547151645]) (simp_all add: pow2_def)
  have e3: "fadd 25 (5473124547151645 / 281474976710656) = 3127499741229511 / 70368744177664"
    unfolding fadd_def by (rule fl_cert[where k = "- 47" and n = 6254999482459022]) (simp_all add: pow2_def)
  show ?thesis
    unfolding undiscretize_volume_unfold by (simp add: e1 e2 e3)
qed

lemma discretize_volume_of_7: "discretize_volume (3127499741229511 / 70368744177664) = 6"
proof -
  have e1: "fsub (3127499741229511 / 70368744177664) 25 = 1368281136787911 / 70368744177664"
    unfolding fsub_def by (rule fl_cert[where k = "- 48" and n = 5473124547151644]) (simp_all add: pow2_def)
  have e2: "fdiv (1368281136787911 / 70368744177664) 25 = 875699927544263 / 1125899906842624"
    unfolding fdiv_def by (rule fl_cert[where k = "- 53" and n = 7005599420354104]) (simp_all add: pow2_def)
  have e3: "fmul (875699927544263 / 1125899906842624) 9 = 7881299347898367 / 1125899906842624"
    unfolding fmul_def by (rule fl_cert[where k = "- 50" and n = 7881299347898367]) (simp_all add: pow2_def)
  have t: "py_int (7881299347898367 / 1125899906842624) = 6"
    by (rule py_int_cert) simp_all
  show ?thesis
    unfolding discretize_volume_unfold by (simp add: e1 e2 e3 t)
qed

lemma undiscretize_volume_8: "undiscretize_volume 8 = 6645936950112711 / 140737488355328"
proof -
  have e1: "fdiv 8 9 = 2001599834386887 / 2251799813685248"
    unfolding fdiv_def by (rule fl_cert[where k = "- 53" and n = 8006399337547548]) (simp_all add: pow2_def)
  have e2: "fmul (2001599834386887 / 2251799813685248) 25 = 3127499741229511 / 140737488355328"
    unfolding fmul_def by (rule fl_cert[where k = "- 48" and n = 6254999482459022]) (simp_all add: pow2_def)
  have e3: "fadd 25 (3127499741229511 / 140737488355328) = 6645936950112711 / 140737488355328"
    unfolding fadd_def by (rule fl_cert[where k = "- 47" and n = 6645936950112711]) (simp_all add: pow2_def)
  show ?thesis
    unfolding undiscretize_volume_unfold by (simp add: e1 e2 e3)
qed

lemma discretize_volume_of_8: "discretize_volume (6645936950112711 / 140737488355328) = 8"
proof -
  have e1: "fsub (6645936950112711 / 140737488355328) 25 = 3127499741229511 / 140737488355328"
    unfolding fsub_def by (rule fl_cert[where k = "- 48" and n = 6254999482459022]) (simp_all add: pow2_def)
  have e2: "fdiv (3127499741229511 / 140737488355328) 25 = 2001599834386887 / 2251799813685248"
    unfolding fdiv_def by (rule fl_cert[where k = "- 53" and n = 8006399337547548]) (simp_all add: pow2_def)
  have e3: "fmul (2001599834386887 / 2251799813685248) 9 = 8"
    unfolding fmul_def by (rule fl_cert[where k = "- 50" and n = 9007199254740992]) (simp_all add: pow2_def)
  have t: "py_int 8 = 8"
    by (rule py_int_cert) simp_all
  show ?thesis
    unfolding discretize_volume_unfold by (simp add: e1 e2 e3 t)
qed

lemma undiscretize_volume_9: "undiscretize_volume 9 = 50"
proof -
  have e1: "fdiv 9 9 = 1"
    unfolding fdiv_def by (rule fl_cert[where k = "- 52" and n = 4503599627370496]) (simp_all add: pow2_def)
  have e2: "fmul 1 25 = 25"
    unfolding fmul_def by (rule fl_cert[where k = "- 48" and n = 7036874417766400]) (simp_all add: pow2_def)
  have e3: "fadd 25 25 = 50"
    unfolding fadd_def by (rule fl_cert[where k = "- 47" and n = 7036874417766400]) (simp_all add: pow2_def)
  show ?thesis
    unfolding undiscretize_volume_unfold by (simp add: e1 e2 e3)
qed

lemma discretize_volume_of_9: "discretize_volume 50 = 9"
proof -
  have e1: "fsub 50 25 = 25"
    unfolding fsub_def by (rule fl_cert[where k = "- 48" and n = 7036874417766400]) (simp_all add: pow2_def)
  have e2: "fdiv 25 25 = 1"
    unfolding fdiv_def by (rule fl_cert[where k = "- 52" and n = 4503599627370496]) (simp_all add: pow2_def)
  have e3: "fmul 1 9 = 9"
    unfolding fmul_def by (rule fl_cert[where k = "- 49" and n = 5066549580791808]) (simp_all add: pow2_def)
  have t: "py_int 9 = 9"
    by (rule py_int_cert) simp_all
  show ?thesis
    unfolding discretize_volume_unfold by (simp add: e1 e2 e3 t)
qed

lemma volume_roundtrip_table:
  "map (\<lambda>i. discretize_volume (undiscretize_volume i)) [0, 1, 2, 3, 4, 5, 6, 7, 8, 9]
     = [0, 1, 2, 2, 4, 4, 5, 6, 8, 9]"
  by (simp add: undiscretize_volume_0 discretize_volume_of_0 undiscretize_volume_1 discretize_volume_of_1 undiscretize_volume_2 discretize_volume_of_2 undiscretize_volume_3 discretize_volume_of_3 undiscretize_volume_4 discretize_volume_of_4 undiscretize_volume_5 discretize_volume_of_5 undiscretize_volume_6 discretize_volume_of_6 undiscretize_volume_7 discretize_volume_of_7 undiscretize_volume_8 discretize_volume_of_8 undiscretize_volume_9 discretize_volume_of_9)

subsection \<open>The coffee dose\<close>

text \<open>The value of each index, and the index of that value.\<close>

lemma undiscretize_dose_0: "undiscretize_dose 0 = 15"
proof -
  have e1: "fdiv 0 9 = 0"
    by (simp add: fdiv_def fl_zero)
  have e2: "fmul 0 10 = 0"
    by (simp add: fmul_def fl_zero)
  have e3: "fadd 15 0 = 15"
    unfolding fadd_def by (rule fl_cert[where k = "- 49" and n = 8444249301319680]) (simp_all add: pow2_def)
  show ?thesis
    unfolding undiscretize_dose_unfold by (simp add: e1 e2 e3)
qed

lemma discretize_dose_of_0: "discretize_dose 15 = 0"
proof -
  have e1: "fsub 15 15 = 0"
    by (simp add: fsub_def fl_zero)
  have e2: "fdiv 0 10 = 0"
    by (simp add: fdiv_def fl_zero)
  have e3: "fmul 0 9 = 0"
    by (simp add: fmul_def fl_zero)
  have t: "py_int 0 = 0"
    by (rule py_int_cert) simp_all
  show ?thesis
    unfolding discretize_dose_unfold by (simp add: e1 e2 e3 t)
qed

lemma undiscretize_dose_1: "undiscretize_dose 1 = 4534874624782791 / 281474976710656"
proof -
  have e1: "fdiv 1 9 = 2001599834386887 / 18014398509481984"
    unfolding fdiv_def by (rule fl_cert[where k = "- 56" and n = 8006399337547548]) (simp_all add: pow2_def)
  have e2: "fmul (2001599834386887 / 18014398509481984) 10 = 2501999792983609 / 2251799813685248"
    unfolding fmul_def by (rule fl_cert[where k = "- 52" and n = 5003999585967218]) (simp_all add: pow2_def)
  have e3: "fadd 15 (2501999792983609 / 2251799813685248) = 4534874624782791 / 281474976710656"
    unfolding fadd_def by (rule fl_cert[where k = "- 48" and n = 4534874624782791]) (simp_all add: pow2_def)
  show ?thesis
    unfolding undiscretize_dose_unfold by (simp add: e1 e2 e3)
qed

lemma discretize_dose_of_1: "discretize_dose (4534874624782791 / 281474976710656) = 0"
proof -
  have e1: "fsub (4534874624782791 / 281474976710656) 15 = 312749974122951 / 281474976710656"
    unfolding fsub_def by (rule fl_cert[where k = "- 52" and n = 5003999585967216]) (simp_all add: pow2_def)
  have e2: "fdiv (312749974122951 / 281474976710656) 10 = 4003199668773773 / 36028797018963968"
    unfolding fdiv_def by (rule fl_cert[where k = "- 56" and n = 8006399337547546]) (simp_all add: pow2_def)
  have e3: "fmul (4003199668773773 / 36028797018963968) 9 = 9007199254740989 / 9007199254740992"
    unfolding fmul_def by (rule fl_cert[where k = "- 53" and n = 9007199254740989]) (simp_all add: pow2_def)
  have t: "py_int (9007199254740989 / 9007199254740992) = 0"
    by (rule py_int_cert) simp_all
  show ?thesis
    unfolding discretize_dose_unfold by (simp add: e1 e2 e3 t)
qed

lemma undiscretize_dose_2: "undiscretize_dose 2 = 2423812299452871 / 140737488355328"
proof -
  have e1: "fdiv 2 9 = 2001599834386887 / 9007199254740992"
    unfolding fdiv_def by (rule fl_cert[where k = "- 55" and n = 8006399337547548]) (simp_all add: pow2_def)
  have e2: "fmul (2001599834386887 / 9007199254740992) 10 = 2501999792983609 / 1125899906842624"
    unfolding fmul_def by (rule fl_cert[where k = "- 51" and n = 5003999585967218]) (simp_all add: pow2_def)
  have e3: "fadd 15 (2501999792983609 / 1125899906842624) = 2423812299452871 / 140737488355328"
    unfolding fadd_def by (rule fl_cert[where k = "- 48" and n = 4847624598905742]) (simp_all add: pow2_def)
  show ?thesis
    unfolding undiscretize_dose_unfold by (simp add: e1 e2 e3)
qed

lemma discretize_dose_of_2: "discretize_dose (2423812299452871 / 140737488355328) = 1"
proof -
  have e1: "fsub (2423812299452871 / 140737488355328) 15 = 312749974122951 / 140737488355328"
    unfolding fsub_def by (rule fl_cert[where k = "- 51" and n = 5003999585967216]) (simp_all add: pow2_def)
  have e2: "fdiv (312749974122951 / 140737488355328) 10 = 4003199668773773 / 18014398509481984"
    unfolding fdiv_def by (rule fl_cert[where k = "- 55" and n = 8006399337547546]) (simp_all add: pow2_def)
  have e3: "fmul (4003199668773773 / 18014398509481984) 9 = 9007199254740989 / 4503599627370496"
    unfolding fmul_def by (rule fl_cert[where k = "- 52" and n = 9007199254740989]) (simp_all add: pow2_def)
  have t: "py_int (9007199254740989 / 4503599627370496) = 1"
    by (rule py_int_cert) simp_all
  show ?thesis
    unfolding discretize_dose_unfold by (simp add: e1 e2 e3 t)
qed

lemma undiscretize_dose_3: "undiscretize_dose 3 = 5160374573028693 / 281474976710656"
proof -
  have e1: "fdiv 3 9 = 6004799503160661 / 18014398509481984"
    unfolding fdiv_def by (rule fl_cert[where k = "- 54" and n = 6004799503160661]) (simp_all add: pow2_def)
  have e2: "fmul (6004799503160661 / 18014398509481984) 10 = 3752999689475413 / 1125899906842624"
    unfolding fmul_def by (rule fl_cert[where k = "- 51" and n = 7505999378950826]) (simp_all add: pow2_def)
  have e3: "fadd 15 (3752999689475413 / 1125899906842624) = 5160374573028693 / 281474976710656"
    unfolding fadd_def by (rule fl_cert[where k = "- 48" and n = 5160374573028693]) (simp_all add: pow2_def)
  show ?thesis
    unfolding undiscretize_dose_unfold by (simp add: e1 e2 e3)
qed

lemma discretize_dose_of_3: "discretize_dose (5160374573028693 / 281474976710656) = 2"
proof -
  have e1: "fsub (5160374573028693 / 281474976710656) 15 = 938249922368853 / 281474976710656"
    unfolding fsub_def by (rule fl_cert[where k = "- 51" and n = 7505999378950824]) (simp_all add: pow2_def)
  have e2: "fdiv (938249922368853 / 281474976710656) 10 = 6004799503160659 / 18014398509481984"
    unfolding fdiv_def by (rule fl_cert[where k = "- 54" and n = 6004799503160659]) (simp_all add: pow2_def)
  have e3: "fmul (6004799503160659 / 18014398509481984) 9 = 6755399441055741 / 2251799813685248"
    unfolding fmul_def by (rule fl_cert[where k = "- 51" and n = 6755399441055741]) (simp_all add: pow2_def)
  have t: "py_int (6755399441055741 / 2251799813685248) = 2"
    by (rule py_int_cert) simp_all
  show ?thesis
    unfolding discretize_dose_unfold by (simp add: e1 e2 e3 t)
qed

lemma undiscretize_dose_4: "undiscretize_dose 4 = 1368281136787911 / 70368744177664"
proof -
  have e1: "fdiv 4 9 = 2001599834386887 / 4503599627370496"
    unfolding fdiv_def by (rule fl_cert[where k = "- 54" and n = 8006399337547548]) (simp_all add: pow2_def)
  have e2: "fmul (2001599834386887 / 4503599627370496) 10 = 2501999792983609 / 562949953421312"
    unfolding fmul_def by (rule fl_cert[where k = "- 50" and n = 5003999585967218]) (simp_all add: pow2_def)
  have e3: "fadd 15 (2501999792983609 / 562949953421312) = 1368281136787911 / 70368744177664"
    unfolding fadd_def by (rule fl_cert[where k = "- 48" and n = 5473124547151644]) (simp_all add: pow2_def)
  show ?thesis
    unfolding undiscretize_dose_unfold by (simp add: e1 e2 e3)
qed

lemma discretize_dose_of_4: "discretize_dose (1368281136787911 / 70368744177664) = 3"
proof -
  have e1: "fsub (1368281136787911 / 70368744177664) 15 = 312749974122951 / 70368744177664"
    unfolding fsub_def by (rule fl_cert[where k = "- 50" and n = 5003999585967216]) (simp_all add: pow2_def)
  have e2: "fdiv (312749974122951 / 70368744177664) 10 = 4003199668773773 / 9007199254740992"
    unfolding fdiv_def by (rule fl_cert[where k = "- 54" and n = 8006399337547546]) (simp_all add: pow2_def)
  have e3: "fmul (4003199668773773 / 9007199254740992) 9 = 9007199254740989 / 2251799813685248"
    unfolding fmul_def by (rule fl_cert[where k = "- 51" and n = 9007199254740989]) (simp_all add: pow2_def)
  have t: "py_int (9007199254740989 / 2251799813685248) = 3"
    by (rule py_int_cert) simp_all
  show ?thesis
    unfolding discretize_dose_unfold by (simp add: e1 e2 e3 t)
qed

lemma undiscretize_dose_5: "undiscretize_dose 5 = 1446468630318649 / 70368744177664"
proof -
  have e1: "fdiv 5 9 = 2501999792983609 / 4503599627370496"
    unfolding fdiv_def by (rule fl_cert[where k = "- 53" and n = 5003999585967218]) (simp_all add: pow2_def)
  have e2: "fmul (2501999792983609 / 4503599627370496) 10 = 3127499741229511 / 562949953421312"
    unfolding fmul_def by (rule fl_cert[where k = "- 50" and n = 6254999482459022]) (simp_all add: pow2_def)
  have e3: "fadd 15 (3127499741229511 / 562949953421312) = 1446468630318649 / 70368744177664"
    unfolding fadd_def by (rule fl_cert[where k = "- 48" and n = 5785874521274596]) (simp_all add: pow2_def)
  show ?thesis
    unfolding undiscretize_dose_unfold by (simp add: e1 e2 e3)
qed

lemma discretize_dose_of_5: "discretize_dose (1446468630318649 / 70368744177664) = 5"
proof -
  have e1: "fsub (1446468630318649 / 70368744177664) 15 = 390937467653689 / 70368744177664"
    unfolding fsub_def by (rule fl_cert[where k = "- 50" and n = 6254999482459024]) (simp_all add: pow2_def)
  have e2: "fdiv (390937467653689 / 70368744177664) 10 = 5003999585967219 / 9007199254740992"
    unfolding fdiv_def by (rule fl_cert[where k = "- 53" and n = 5003999585967219]) (simp_all add: pow2_def)
  have e3: "fmul (5003999585967219 / 9007199254740992) 9 = 5629499534213121 / 1125899906842624"
    unfolding fmul_def by (rule fl_cert[where k = "- 50" and n = 5629499534213121]) (simp_all add: pow2_def)
  have t: "py_int (5629499534213121 / 1125899906842624) = 5"
    by (rule py_int_cert) simp_all
  show ?thesis
    unfolding discretize_dose_unfold by (simp add: e1 e2 e3 t)
qed

lemma undiscretize_dose_6: "undiscretize_dose 6 = 3049312247698773 / 140737488355328"
proof -
  have e1: "fdiv 6 9 = 6004799503160661 / 9007199254740992"
    unfolding fdiv_def by (rule fl_cert[where k = "- 53" and n = 6004799503160661]) (simp_all add: pow2_def)
  have e2: "fmul (6004799503160661 / 9007199254740992) 10 = 3752999689475413 / 562949953421312"
    unfolding fmul_def by (rule fl_cert[where k = "- 50" and n = 7505999378950826]) (simp_all add: pow2_def)
  have e3: "fadd 15 (3752999689475413 / 562949953421312) = 3049312247698773 / 140737488355328"
    unfolding fadd_def by (rule fl_cert[where k = "- 48" and n = 6098624495397546]) (simp_all add: pow2_def)
  show ?thesis
    unfolding undiscretize_dose_unfold by (simp add: e1 e2 e3)
qed

lemma discretize_dose_of_6: "discretize_dose (3049312247698773 / 140737488355328) = 5"
proof -
  have e1: "fsub (3049312247698773 / 140737488355328) 15 = 938249922368853 / 140737488355328"
    unfolding fsub_def by (rule fl_cert[where k = "- 50" and n = 7505999378950824]) (simp_all add: pow2_def)
  have e2: "fdiv (938249922368853 / 140737488355328) 10 = 6004799503160659 / 9007199254740992"
    unfolding fdiv_def by (rule fl_cert[where k = "- 53" and n = 6004799503160659]) (simp_all add: pow2_def)
  have e3: "fmul (6004799503160659 / 9007199254740992) 9 = 6755399441055741 / 1125899906842624"
    unfolding fmul_def by (rule fl_cert[where k = "- 50" and n = 6755399441055741]) (simp_all add: pow2_def)
  have t: "py_int (6755399441055741 / 1125899906842624) = 5"
    by (rule py_int_cert) simp_all
  show ?thesis
    unfolding discretize_dose_unfold by (simp add: e1 e2 e3 t)
qed

lemma undiscretize_dose_7: "undiscretize_dose 7 = 3205687234760249 / 140737488355328"
proof -
  have e1: "fdiv 7 9 = 7005599420354105 / 9007199254740992"
    unfolding fdiv_def by (rule fl_cert[where k = "- 53" and n = 7005599420354105]) (simp_all add: pow2_def)
  have e2: "fmul (7005599420354105 / 9007199254740992) 10 = 8756999275442631 / 1125899906842624"
    unfolding fmul_def by (rule fl_cert[where k = "- 50" and n = 8756999275442631]) (simp_all add: pow2_def)
  have e3: "fadd 15 (8756999275442631 / 1125899906842624) = 3205687234760249 / 140737488355328"
    unfolding fadd_def by (rule fl_cert[where k = "- 48" and n = 6411374469520498]) (simp_all add: pow2_def)
  show ?thesis
    unfolding undiscretize_dose_unfold by (simp add: e1 e2 e3)
qed

lemma discretize_dose_of_7: "discretize_dose (3205687234760249 / 140737488355328) = 7"
proof -
  have e1: "fsub (3205687234760249 / 140737488355328) 15 = 1094624909430329 / 140737488355328"
    unfolding fsub_def by (rule fl_cert[where k = "- 50" and n = 8756999275442632]) (simp_all add: pow2_def)
  have e2: "fdiv (1094624909430329 / 140737488355328) 10 = 3502799710177053 / 4503599627370496"
    unfolding fdiv_def by (rule fl_cert[where k = "- 53" and n = 7005599420354106]) (simp_all add: pow2_def)
  have e3: "fmul (3502799710177053 / 4503599627370496) 9 = 7881299347898369 / 1125899906842624"
    unfolding fmul_def by (rule fl_cert[where k = "- 50" and n = 7881299347898369]) (simp_all add: pow2_def)
  have t: "py_int (7881299347898369 / 1125899906842624) = 7"
    by (rule py_int_cert) simp_all
  show ?thesis
    unfolding discretize_dose_unfold by (simp add: e1 e2 e3 t)
qed

lemma undiscretize_dose_8: "undiscretize_dose 8 = 6724124443643449 / 281474976710656"
proof -
  have e1: "fdiv 8 9 = 2001599834386887 / 2251799813685248"
    unfolding fdiv_def by (rule fl_cert[where k = "- 53" and n = 8006399337547548]) (simp_all add: pow2_def)
  have e2: "fmul (2001599834386887 / 2251799813685248) 10 = 2501999792983609 / 281474976710656"
    unfolding fmul_def by (rule fl_cert[where k = "- 49" and n = 5003999585967218]) (simp_all add: pow2_def)
  have e3: "fadd 15 (2501999792983609 / 281474976710656) = 6724124443643449 / 281474976710656"
    unfolding fadd_def by (rule fl_cert[where k = "- 48" and n = 6724124443643449]) (simp_all add: pow2_def)
  show ?thesis
    unfolding undiscretize_dose_unfold by (simp add: e1 e2 e3)
qed

lemma discretize_dose_of_8: "discretize_dose (6724124443643449 / 281474976710656) = 8"
proof -
  have e1: "fsub (6724124443643449 / 281474976710656) 15 = 2501999792983609 / 281474976710656"
    unfolding fsub_def by (rule fl_cert[where k = "- 49" and n = 5003999585967218]) (simp_all add: pow2_def)
  have e2: "fdiv (2501999792983609 / 281474976710656) 10 = 8006399337547549 / 9007199254740992"
    unfolding fdiv_def by (rule fl_cert[where k = "- 53" and n = 8006399337547549]) (simp_all add: pow2_def)
  have e3: "fmul (8006399337547549 / 9007199254740992) 9 = 8"
    unfolding fmul_def by (rule fl_cert[where k = "- 49" and n = 4503599627370496]) (simp_all add: pow2_def)
  have t: "py_int 8 = 8"
    by (rule py_int_cert) simp_all
  show ?thesis
    unfolding discretize_dose_unfold by (simp add: e1 e2 e3 t)
qed

lemma undiscretize_dose_9: "undiscretize_dose 9 = 25"
proof -
  have e1: "fdiv 9 9 = 1"
    unfolding fdiv_def by (rule fl_cert[where k = "- 52" and n = 4503599627370496]) (simp_all add: pow2_def)
  have e2: "fmul 1 10 = 10"
    unfolding fmul_def by (rule fl_cert[where k = "- 49" and n = 5629499534213120]) (simp_all add: pow2_def)
  have e3: "fadd 15 10 = 25"
    unfolding fadd_def by (rule fl_cert[where k = "- 48" and n = 7036874417766400]) (simp_all add: pow2_def)
  show ?thesis
    unfolding undiscretize_dose_unfold by (simp add: e1 e2 e3)
qed

lemma discretize_dose_of_9: "discretize_dose 25 = 9"
proof -
  have e1: "fsub 25 15 = 10"
    unfolding fsub_def by (rule fl_cert[where k = "- 49" and n = 5629499534213120]) (simp_all add: pow2_def)
  have e2: "fdiv 10 10 = 1"
    unfolding fdiv_def by (rule fl_cert[where k = "- 52" and n = 4503599627370496]) (simp_all add: pow2_def)
  have e3: "fmul 1 9 = 9"
    unfolding fmul_def by (rule fl_cert[where k = "- 49" and n = 5066549580791808]) (simp_all add: pow2_def)
  have t: "py_int 9 = 9"
    by (rule py_int_cert) simp_all
  show ?thesis
    unfolding discretize_dose_unfold by (simp add: e1 e2 e3 t)
qed

lemma dose_roundtrip_table:
  "map (\<lambda>i. discretize_dose (undiscretize_dose i)) [0, 1, 2, 3, 4, 5, 6, 7, 8, 9]
     = [0, 0, 1, 2, 3, 5, 5, 7, 8, 9]"
  by (simp add: undiscretize_dose_0 discretize_dose_of_0 undiscretize_dose_1 discretize_dose_of_1 undiscretize_dose_2 discretize_dose_of_2 undiscretize_dose_3 discretize_dose_of_3 undiscretize_dose_4 discretize_dose_of_4 undiscretize_dose_5 discretize_dose_of_5 undiscretize_dose_6 discretize_dose_of_6 undiscretize_dose_7 discretize_dose_of_7 undiscretize_dose_8 discretize_dose_of_8 undiscretize_dose_9 discretize_dose_of_9)

subsection \<open>Single values\<close>

lemma discretize_volume_40: "discretize_volume 40 = 5"
proof -
  have e1: "fsub 40 25 = 15"
    unfolding fsub_def by (rule fl_cert[where k = "- 49" and n = 8444249301319680]) (simp_all add: pow2_def)
  have e2: "fdiv 15 25 = 5404319552844595 / 9007199254740992"
    unfolding fdiv_def by (rule fl_cert[where k = "- 53" and n = 5404319552844595]) (simp_all add: pow2_def)
  have e3: "fmul (5404319552844595 / 9007199254740992) 9 = 6079859496950169 / 1125899906842624"
    unfolding fmul_def by (rule fl_cert[where k = "- 50" and n = 6079859496950169]) (simp_all add: pow2_def)
  have t: "py_int (6079859496950169 / 1125899906842624) = 5"
    by (rule py_int_cert) simp_all
  show ?thesis
    unfolding discretize_volume_unfold by (simp add: e1 e2 e3 t)
qed

lemma discretize_dose_18: "discretize_dose 18 = 2"
proof -
  have e1: "fsub 18 15 = 3"
    unfolding fsub_def by (rule fl_cert[where k = "- 51" and n = 6755399441055744]) (simp_all add: pow2_def)
  have e2: "fdiv 3 10 = 5404319552844595 / 18014398509481984"
    unfolding fdiv_def by (rule fl_cert[where k = "- 54" and n = 5404319552844595]) (simp_all add: pow2_def)
  have e3: "fmul (5404319552844595 / 18014398509481984) 9 = 6079859496950169 / 2251799813685248"
    unfolding fmul_def by (rule fl_cert[where k = "- 51" and n = 6079859496950169]) (simp_all add: pow2_def)
  have t: "py_int (6079859496950169 / 2251799813685248) = 2"
    by (rule py_int_cert) simp_all
  show ?thesis
    unfolding discretize_dose_unfold by (simp add: e1 e2 e3 t)
qed

text \<open>The double nearest to 16.111.\<close>

lemma discretize_dose_16_111: "discretize_dose (4534843349785379 / 281474976710656) = 0"
proof -
  have e1: "fsub (4534843349785379 / 281474976710656) 15 = 312718699125539 / 281474976710656"
    unfolding fsub_def by (rule fl_cert[where k = "- 52" and n = 5003499186008624]) (simp_all add: pow2_def)
  have e2: "fdiv (312718699125539 / 281474976710656) 10 = 4002799348806899 / 36028797018963968"
    unfolding fdiv_def by (rule fl_cert[where k = "- 56" and n = 8005598697613798]) (simp_all add: pow2_def)
  have e3: "fmul (4002799348806899 / 36028797018963968) 9 = 9006298534815523 / 9007199254740992"
    unfolding fmul_def by (rule fl_cert[where k = "- 53" and n = 9006298534815523]) (simp_all add: pow2_def)
  have t: "py_int (9006298534815523 / 9007199254740992) = 0"
    by (rule py_int_cert) simp_all
  show ?thesis
    unfolding discretize_dose_unfold by (simp add: e1 e2 e3 t)
qed



section \<open>The reward\<close>

lemma metrics_loop_eq:
  "metrics_loop vs metrics = metrics @ map spec_metric_score (List.map_filter id vs)"
proof (induction vs metrics rule: metrics_loop.induct)
  case (1 metrics)
  show ?case by simp
next
  case (2 rest metrics)
  then show ?case by simp
next
  case (3 v rest metrics)
  then show ?case
    by (simp add: spec_metric_score_def IDEAL_METRIC_MIN_def
        IDEAL_METRIC_MAX_def ACCEPTABLE_METRIC_MIN_def ACCEPTABLE_METRIC_MAX_def)
qed

lemma calculate_metrics_reward_eq:
  "calculate_metrics_reward ev =
     (let present = List.map_filter id [bitterness ev, acidity ev, taste_strength ev]
      in if present = [] then 0
         else fdiv (py_sum (map spec_metric_score present)) (of_nat (length present)))"
  by (simp add: calculate_metrics_reward_def metrics_loop_eq Let_def)

lemma calculate_channeling_bonus_eq:
  "calculate_channeling_bonus ev = spec_channeling_adjustment ev"
  by (simp add: calculate_channeling_bonus_def spec_channeling_adjustment_def
      LOW_CHANNELING_THRESHOLD_def HIGH_CHANNELING_THRESHOLD_def split: option.splits)

lemma calculate_brew_time_bonus_eq:
  "calculate_brew_time_bonus ev = spec_brew_time_adjustment ev"
  by (simp add: calculate_brew_time_bonus_def spec_brew_time_adjustment_def
      IDEAL_BREW_TIME_MIN_def IDEAL_BREW_TIME_MAX_def MIN_BREW_TIME_def MAX_BREW_TIME_def
      split: option.splits)

lemma clamp_max_min: "max (- 1) (min 1 x) = clamp x (- 1) 1"
  by (simp add: clamp_def max_def min_def)

lemma calculate_reward_range: "- 1 \<le> calculate_reward ev" "calculate_reward ev \<le> 1"
  by (simp_all add: calculate_reward_def Let_def)

text \<open>
  C1. For every evaluation the reward that \<open>calculate_reward\<close> computes is the reward
  of the specification: the primary term (the scaled overall experience, or else the
  average score of the taste metrics that are present, or else 0), plus the channeling
  adjustment, plus the brew-time adjustment, clamped into \<open>[-1, 1]\<close>. So the reward lies
  in \<open>[-1, 1]\<close>, and it is 0 when every field is absent.
\<close>

theorem calculate_reward_spec:
  "calculate_reward ev = spec_reward ev
   \<and> - 1 \<le> calculate_reward ev \<and> calculate_reward ev \<le> 1
   \<and> calculate_reward no_evaluation = 0"
proof -
  have "calculate_reward ev = spec_reward ev"
    by (simp add: calculate_reward_def spec_reward_def spec_primary_def Let_def clamp_max_min
        calculate_metrics_reward_eq calculate_channeling_bonus_eq calculate_brew_time_bonus_eq
        split: option.splits)
  moreover have "calculate_reward no_evaluation = 0"
    by (simp add: calculate_reward_def no_evaluation_def calculate_metrics_reward_def
        calculate_channeling_bonus_def calculate_brew_time_bonus_def fadd_def fl_zero)
  ultimately show ?thesis using calculate_reward_range[of ev] by simp
qed

text \<open>The two worked examples of the specification: about 0.978 and about 0.267.\<close>

lemma reward_example_overall:
  "calculate_reward \<lparr>bitterness = None, acidity = None, taste_strength = None,
      overall_experience = Some 9, brew_time = Some 30, channeling = Some 2\<rparr>
   = 8807039271302303 / 9007199254740992"
proof -
  have e1: "fsub 9 (11 / 2) = 7 / 2"
    unfolding fsub_def by (rule fl_cert[where k = "- 51" and n = 7881299347898368]) (simp_all add: pow2_def)
  have e2: "fdiv (7 / 2) (9 / 2) = 7005599420354105 / 9007199254740992"
    unfolding fdiv_def by (rule fl_cert[where k = "- 53" and n = 7005599420354105]) (simp_all add: pow2_def)
  have e3: "fadd (7005599420354105 / 9007199254740992) (3602879701896397 / 36028797018963968) = 1976579836457051 / 2251799813685248"
    unfolding fadd_def by (rule fl_cert[where k = "- 53" and n = 7906319345828204]) (simp_all add: pow2_def)
  have e4: "fadd (1976579836457051 / 2251799813685248) (3602879701896397 / 36028797018963968) = 8807039271302303 / 9007199254740992"
    unfolding fadd_def by (rule fl_cert[where k = "- 53" and n = 8807039271302303]) (simp_all add: pow2_def)
  show ?thesis
    by (simp add: calculate_reward_def calculate_channeling_bonus_def
        calculate_brew_time_bonus_def LOW_CHANNELING_THRESHOLD_def IDEAL_BREW_TIME_MIN_def
        IDEAL_BREW_TIME_MAX_def lit_0_1_def fl_tenth e1 e2 e3 e4)
qed

lemma reward_example_metrics:
  "calculate_reward \<lparr>bitterness = Some 5, acidity = Some 6, taste_strength = Some 9,
      overall_experience = None, brew_time = None, channeling = None\<rparr>
   = 4803839602528529 / 18014398509481984"
proof -
  have e1: "fadd 0 (1 / 2) = 1 / 2"
    unfolding fadd_def by (rule fl_cert[where k = "- 53" and n = 4503599627370496]) (simp_all add: pow2_def)
  have e2: "fadd (1 / 2) (1 / 2) = 1"
    unfolding fadd_def by (rule fl_cert[where k = "- 52" and n = 4503599627370496]) (simp_all add: pow2_def)
  have e3: "fadd 1 (- (3602879701896397 / 18014398509481984)) = 3602879701896397 / 4503599627370496"
    unfolding fadd_def by (rule fl_cert[where k = "- 53" and n = 7205759403792794]) (simp_all add: pow2_def)
  have e4: "fdiv (3602879701896397 / 4503599627370496) 3 = 4803839602528529 / 18014398509481984"
    unfolding fdiv_def by (rule fl_cert[where k = "- 54" and n = 4803839602528529]) (simp_all add: pow2_def)
  have e5: "fadd (4803839602528529 / 18014398509481984) 0 = 4803839602528529 / 18014398509481984"
    unfolding fadd_def by (rule fl_cert[where k = "- 54" and n = 4803839602528529]) (simp_all add: pow2_def)
  have m: "calculate_metrics_reward \<lparr>bitterness = Some 5, acidity = Some 6,
      taste_strength = Some 9, overall_experience = None, brew_time = None, channeling = None\<rparr>
      = 4803839602528529 / 18014398509481984"
    by (simp add: calculate_metrics_reward_def py_sum_def IDEAL_METRIC_MIN_def
        IDEAL_METRIC_MAX_def ACCEPTABLE_METRIC_MIN_def ACCEPTABLE_METRIC_MAX_def lit_0_2_def
        fl_fifth e1 e2 e3 e4)
  show ?thesis
    by (simp add: calculate_reward_def m calculate_channeling_bonus_def
        calculate_brew_time_bonus_def e5)
qed


section \<open>Validation of an evaluation\<close>

lemma check_ratings_Some_iff:
  "(\<exists>e. check_ratings fs = Some e) \<longleftrightarrow> (\<exists>v. Some v \<in> snd ` set fs \<and> (v < 1 \<or> 10 < v))"
proof (induction fs rule: check_ratings.induct)
  case 1
  show ?case by simp
next
  case (2 field_name rest)
  then show ?case by simp
next
  case (3 field_name v rest)
  then show ?case by (auto simp: MIN_RATING_def MAX_RATING_def)
qed

lemma post_init_Inl_iff:
  "(\<exists>e. post_init ev = Inl e) \<longleftrightarrow>
     (\<exists>e. check_ratings
             [(''bitterness'', bitterness ev),
              (''acidity'', acidity ev),
              (''taste_strength'', taste_strength ev),
              (''overall_experience'', overall_experience ev),
              (''channeling'', channeling ev)] = Some e)
     \<or> (\<exists>t. brew_time ev = Some t \<and> t \<le> 0)"
  unfolding post_init_def by (simp split: option.splits)

text \<open>
  C6. Constructing an evaluation raises exactly when one of the five ratings is provided
  and lies outside \<open>[1, 10]\<close>, or the brew time is provided and is not positive. When it
  does not raise, the evaluation holds the fields as they were given, none of them moved
  into range; when it raises there is no evaluation at all. Absent fields are never a
  reason to raise, and the evaluation without any field is accepted.
\<close>

theorem post_init_raises_iff:
  "((\<exists>e. post_init ev = Inl e) \<longleftrightarrow>
      (\<exists>v. Some v \<in> {bitterness ev, acidity ev, taste_strength ev, overall_experience ev,
                       channeling ev} \<and> (v < 1 \<or> 10 < v))
      \<or> (\<exists>t. brew_time ev = Some t \<and> t \<le> 0))
   \<and> ((\<forall>e. post_init ev \<noteq> Inl e) \<longrightarrow> post_init ev = Inr ev)
   \<and> post_init no_evaluation = Inr no_evaluation"
proof -
  have n: "post_init no_evaluation = Inr no_evaluation"
    by (simp add: post_init_def no_evaluation_def)
  have a: "(\<forall>e. post_init ev \<noteq> Inl e) \<longrightarrow> post_init ev = Inr ev"
    unfolding post_init_def by (simp split: option.splits)
  have b: "(\<exists>e. post_init ev = Inl e) \<longleftrightarrow>
      (\<exists>v. Some v \<in> {bitterness ev, acidity ev, taste_strength ev, overall_experience ev,
                       channeling ev} \<and> (v < 1 \<or> 10 < v))
      \<or> (\<exists>t. brew_time ev = Some t \<and> t \<le> 0)"
    unfolding post_init_Inl_iff check_ratings_Some_iff by simp
  show ?thesis using n a b by blast
qed

theorem post_init_raises_iff_witness:
  "post_init (no_evaluation\<lparr>channeling := Some 11\<rparr>) = Inl (RatingOutOfRange ''channeling'' 11)
   \<and> post_init (no_evaluation\<lparr>channeling := Some 10, brew_time := Some 30\<rparr>)
       = Inr (no_evaluation\<lparr>channeling := Some 10, brew_time := Some 30\<rparr>)"
proof -
  let ?bad = "no_evaluation\<lparr>channeling := Some 11\<rparr>"
  let ?good = "no_evaluation\<lparr>channeling := Some 10, brew_time := Some 30\<rparr>"
  have "\<exists>e. post_init ?bad = Inl e"
    using post_init_raises_iff[of ?bad] by (simp add: no_evaluation_def)
  moreover have "\<forall>e. post_init ?good \<noteq> Inl e"
    using post_init_raises_iff[of ?good] by (simp add: no_evaluation_def)
  then have "post_init ?good = Inr ?good"
    using post_init_raises_iff[of ?good] by blast
  moreover have "post_init ?bad = Inl (RatingOutOfRange ''channeling'' 11)"
    by (simp add: post_init_def no_evaluation_def MIN_RATING_def MAX_RATING_def)
  ultimately show ?thesis by simp
qed


section \<open>Learning without a pending suggestion\<close>

text \<open>
  C7. When the agent has no pending cursor (one of the two keys is \<open>None\<close>, as in a
  fresh agent and after \<open>reset_last_action\<close>), \<open>learn_from_evaluation\<close> returns the
  agent as it was: the table, epsilon and the cursor are unchanged. The function has
  no raising branch, so it is total in the model.
\<close>

theorem learn_without_cursor:
  "(last_state_key self = None \<or> last_action_key self = None
      \<longrightarrow> learn_from_evaluation self evaluation = self)
   \<and> learn_from_evaluation (BrewingAgent_init lr df eps eps_decay min_eps) evaluation
       = BrewingAgent_init lr df eps eps_decay min_eps
   \<and> learn_from_evaluation (reset_last_action self) evaluation = reset_last_action self"
  by (auto simp: learn_from_evaluation_def BrewingAgent_init_def reset_last_action_def
      split: option.splits)

theorem learn_without_cursor_witness:
  "(last_state_key default_agent = None \<or> last_action_key default_agent = None)
   \<and> learn_from_evaluation default_agent no_evaluation = default_agent"
  using learn_without_cursor[of default_agent no_evaluation]
  by (simp add: default_agent_def BrewingAgent_init_def)


section \<open>State keys\<close>

lemma digit_cases:
  assumes "d < 10"
  obtains "d = 0" | "d = 1" | "d = 2" | "d = 3" | "d = 4" | "d = 5" | "d = 6" | "d = 7"
    | "d = 8" | "d = (9::nat)"
proof -
  have "d = 0 \<or> d = 1 \<or> d = 2 \<or> d = 3 \<or> d = 4 \<or> d = 5 \<or> d = 6 \<or> d = 7 \<or> d = 8 \<or> d = 9"
    using assms by arith
  then show thesis using that by blast
qed

lemma digit_val_digit_char: "d < 10 \<Longrightarrow> digit_val (digit_char d) = d"
  by (erule digit_cases) (simp_all add: digit_val_def digit_char_def)

lemma is_digit_digit_char: "d < 10 \<Longrightarrow> is_digit (digit_char d)"
  by (erule digit_cases) (simp_all add: is_digit_def digit_char_def)

lemma not_space_digit_char: "d < 10 \<Longrightarrow> \<not> is_space (digit_char d)"
  by (erule digit_cases) (simp_all add: is_space_def digit_char_def)

lemma nat_of_digits_snoc: "nat_of_digits (ds @ [c]) = 10 * nat_of_digits ds + digit_val c"
  by (simp add: nat_of_digits_def)

lemma nat_of_digits_str_nat: "nat_of_digits (str_nat n) = n"
proof (induction n rule: str_nat.induct)
  case (1 n)
  show ?case
  proof (cases "n < 10")
    case True
    then show ?thesis
      by (subst str_nat.simps) (simp add: nat_of_digits_def digit_val_digit_char)
  next
    case False
    then have "nat_of_digits (str_nat (n div 10)) = n div 10" by (rule "1.IH")
    then show ?thesis using False
      by (subst str_nat.simps) (simp add: nat_of_digits_snoc digit_val_digit_char)
  qed
qed

lemma str_nat_digits: "list_all is_digit (str_nat n) \<and> str_nat n \<noteq> []"
proof (induction n rule: str_nat.induct)
  case (1 n)
  show ?case
  proof (cases "n < 10")
    case True
    then show ?thesis by (subst (1 2) str_nat.simps) (simp add: is_digit_digit_char)
  next
    case False
    then have "list_all is_digit (str_nat (n div 10)) \<and> str_nat (n div 10) \<noteq> []" by (rule "1.IH")
    then show ?thesis using False
      by (subst (1 2) str_nat.simps) (simp add: is_digit_digit_char)
  qed
qed

lemma str_nat_inj: "str_nat m = str_nat n \<Longrightarrow> m = n"
  by (metis nat_of_digits_str_nat)

lemma minus_not_digit: "\<not> is_digit (CHR ''-'')"
  by (simp add: is_digit_def)

lemma str_nat_no_minus: "str_nat n \<noteq> CHR ''-'' # cs"
proof
  assume "str_nat n = CHR ''-'' # cs"
  moreover have "list_all is_digit (str_nat n)" using str_nat_digits by simp
  ultimately show False by (simp add: minus_not_digit)
qed

lemma str_int_inj: "str_int i = str_int j \<Longrightarrow> i = j"
proof -
  assume a: "str_int i = str_int j"
  consider "i < 0" "j < 0" | "i < 0" "\<not> j < 0" | "\<not> i < 0" "j < 0" | "\<not> i < 0" "\<not> j < 0"
    by blast
  then show ?thesis
  proof cases
    case 1
    then have "str_nat (nat (- i)) = str_nat (nat (- j))" using a by (simp add: str_int_def)
    then have "nat (- i) = nat (- j)" by (rule str_nat_inj)
    then show ?thesis using 1 by simp
  next
    case 2
    then have "str_nat (nat j) = CHR ''-'' # str_nat (nat (- i))"
      using a by (simp add: str_int_def)
    then show ?thesis using str_nat_no_minus by blast
  next
    case 3
    then have "str_nat (nat i) = CHR ''-'' # str_nat (nat (- j))"
      using a by (simp add: str_int_def)
    then show ?thesis using str_nat_no_minus by blast
  next
    case 4
    then have "str_nat (nat i) = str_nat (nat j)" using a by (simp add: str_int_def)
    then have "nat i = nat j" by (rule str_nat_inj)
    then show ?thesis using 4 by simp
  qed
qed

lemma key_inj:
  "str_bool b @ CHR ''_'' # str_int d = str_bool b' @ CHR ''_'' # str_int d' \<longleftrightarrow> b = b' \<and> d = d'"
  by (cases b; cases b') (auto simp: str_bool_def dest: str_int_inj)

lemma state_to_key_eq_iff:
  "state_to_key s = state_to_key t \<longleftrightarrow>
     is_first_brew s = is_first_brew t
     \<and> min (days_since_roast s) 30 = min (days_since_roast t) 30"
  by (simp add: state_to_key_def key_inj)

lemma state_to_key_image:
  "state_to_key ` {s. 0 \<le> days_since_roast s} =
     (\<lambda>(b, d). str_bool b @ ''_'' @ str_int d) ` (UNIV \<times> {0..30})"
proof (intro equalityI subsetI)
  fix k assume "k \<in> state_to_key ` {s. 0 \<le> days_since_roast s}"
  then obtain s :: BrewState where s: "0 \<le> days_since_roast s" and k: "k = state_to_key s" by auto
  have "(is_first_brew s, min (days_since_roast s) 30) \<in> UNIV \<times> {0..30}" using s by simp
  then show "k \<in> (\<lambda>(b, d). str_bool b @ ''_'' @ str_int d) ` (UNIV \<times> {0..30})"
    unfolding k state_to_key_def by (rule rev_image_eqI) simp
next
  fix k assume "k \<in> (\<lambda>(b, d). str_bool b @ ''_'' @ str_int d) ` (UNIV \<times> {0..30})"
  then obtain b d where d: "0 \<le> d" "d \<le> 30" and k: "k = str_bool b @ ''_'' @ str_int d" by auto
  let ?s = "\<lparr>is_first_brew = b, days_since_roast = d\<rparr>"
  have "?s \<in> {s. 0 \<le> days_since_roast s}" using d by simp
  moreover have "k = state_to_key ?s" using d by (simp add: k state_to_key_def)
  ultimately show "k \<in> state_to_key ` {s. 0 \<le> days_since_roast s}" by (rule rev_image_eqI)
qed

lemma state_to_key_card: "card (state_to_key ` {s. 0 \<le> days_since_roast s}) = 62"
proof -
  have "inj_on (\<lambda>(b, d). str_bool b @ ''_'' @ str_int d) (UNIV \<times> {0..30})"
    by (auto simp: inj_on_def key_inj)
  then have "card ((\<lambda>(b, d). str_bool b @ ''_'' @ str_int d) ` (UNIV \<times> {0..30}))
      = card ((UNIV :: bool set) \<times> {0..30::int})"
    by (rule card_image)
  also have "\<dots> = 62" by simp
  finally show ?thesis by (simp only: state_to_key_image)
qed

text \<open>
  C4, as the code has it. The key is a function of the context, and two contexts have
  the same key exactly when they agree on the first-brew flag and on
  \<open>min days_since_roast 30\<close>: the days are capped at 30 and not raised to 0. Over the
  contexts with a non-negative number of days the key takes exactly 62 values.
\<close>

theorem state_to_key_injective:
  "(state_to_key s = state_to_key t \<longleftrightarrow>
      is_first_brew s = is_first_brew t
      \<and> min (days_since_roast s) 30 = min (days_since_roast t) 30)
   \<and> card (state_to_key ` {s. 0 \<le> days_since_roast s}) = 62"
  using state_to_key_eq_iff state_to_key_card by simp

lemma str_int_small: "str_int 0 = ''0''" "str_int (- 1) = ''-1''"
  by (simp_all add: str_int_def str_nat.simps digit_char_def)

text \<open>
  C4 as stated fails: \<open>- 1\<close> and \<open>0\<close> days clamp to the same number of days in
  \<open>[0, 30]\<close>, but their keys differ, since the code takes the minimum with 30 only.
  A roast date in the future gives such a negative number of days.
\<close>

theorem state_to_key_negative_days:
  "max 0 (min (- 1) 30) = max 0 (min 0 (30::int))
   \<and> state_to_key \<lparr>is_first_brew = True, days_since_roast = - 1\<rparr> = ''True_-1''
   \<and> state_to_key \<lparr>is_first_brew = True, days_since_roast = 0\<rparr> = ''True_0''
   \<and> state_to_key \<lparr>is_first_brew = True, days_since_roast = - 1\<rparr>
       \<noteq> state_to_key \<lparr>is_first_brew = True, days_since_roast = 0\<rparr>"
  by (simp add: state_to_key_def str_bool_def str_int_small)

text \<open>Over all contexts the keys are not bounded in number.\<close>

lemma state_to_key_unbounded: "infinite (range state_to_key)"
proof
  assume f: "finite (range state_to_key)"
  let ?g = "\<lambda>d. state_to_key \<lparr>is_first_brew = True, days_since_roast = d\<rparr>"
  have "inj_on ?g {..0}" by (auto simp: inj_on_def state_to_key_eq_iff)
  moreover have "?g ` {..0} \<subseteq> range state_to_key" by auto
  then have "finite (?g ` {..0})" using f by (rule finite_subset)
  ultimately have "finite {..0::int}" by (rule finite_imageD[rotated])
  then show False by (simp add: infinite_Iic)
qed


section \<open>The value table\<close>

lemma get_q_table_eq: "get_q_table self = q_table self"
  by (simp add: get_q_table_def)

lemma row_getitem_fst:
  "fst (row_getitem t sk) = (case map_of t sk of Some row \<Rightarrow> row | None \<Rightarrow> [])"
  by (simp add: row_getitem_def split: option.splits)

lemma row_getitem_snd:
  "snd (row_getitem t sk) = (case map_of t sk of Some row \<Rightarrow> t | None \<Rightarrow> t @ [(sk, [])])"
  by (simp add: row_getitem_def split: option.splits)

lemma map_of_row_getitem:
  "map_of (snd (row_getitem t sk)) sk' =
     (if sk' = sk then Some (fst (row_getitem t sk)) else map_of t sk')"
  by (auto simp: row_getitem_def map_add_def split: option.splits)

lemma q_lookup_row_getitem:
  "q_lookup (snd (row_getitem t sk)) sk' ak' = q_lookup t sk' ak'"
  by (auto simp: q_lookup_def row_getitem_def map_add_def split: option.splits)

lemma value_getitem_fst:
  "fst (value_getitem row ak) = (case map_of row ak of Some q \<Rightarrow> q | None \<Rightarrow> 0)"
  by (simp add: value_getitem_def split: option.splits)

lemma map_of_value_getitem:
  "map_of (snd (value_getitem row ak)) ak' =
     (if ak' = ak then Some (fst (value_getitem row ak)) else map_of row ak')"
  by (auto simp: value_getitem_def map_add_def split: option.splits)

lemma q_lookup_update_row:
  "q_lookup (AList.update sk row t) sk' ak' =
     (if sk' = sk then (case map_of row ak' of None \<Rightarrow> 0 | Some q \<Rightarrow> q) else q_lookup t sk' ak')"
  by (simp add: q_lookup_def update_conv')

lemma q_lookup_table_setitem:
  "q_lookup (table_setitem t sk ak q) sk' ak' =
     (if sk' = sk \<and> ak' = ak then q else q_lookup t sk' ak')"
proof -
  obtain row t' where r: "row_getitem t sk = (row, t')" by (cases "row_getitem t sk")
  have row: "row = fst (row_getitem t sk)" and t': "t' = snd (row_getitem t sk)"
    by (simp_all add: r)
  have "q_lookup t' sk' ak' = q_lookup t sk' ak'" unfolding t' by (rule q_lookup_row_getitem)
  moreover have "sk' = sk \<Longrightarrow> ak' \<noteq> ak \<Longrightarrow>
      (case map_of row ak' of None \<Rightarrow> 0 | Some q \<Rightarrow> q) = q_lookup t sk' ak'"
    unfolding row by (simp add: row_getitem_fst q_lookup_def split: option.splits)
  ultimately show ?thesis
    by (simp add: table_setitem_def r q_lookup_update_row update_conv')
qed

text \<open>The effect of a learning step on the table, as seen through \<open>q_lookup\<close>.\<close>

lemma learn_q_table:
  assumes "last_state_key self = Some sk" and "last_action_key self = Some ak"
  shows "q_lookup (q_table (learn_from_evaluation self ev)) sk' ak' =
           (if sk' = sk \<and> ak' = ak
            then fadd (q_lookup (q_table self) sk ak)
                      (fmul (learning_rate self)
                            (fsub (calculate_reward ev) (q_lookup (q_table self) sk ak)))
            else q_lookup (q_table self) sk' ak')"
proof -
  obtain row t where r: "row_getitem (q_table self) sk = (row, t)"
    by (cases "row_getitem (q_table self) sk")
  obtain cur row1 where v: "value_getitem row ak = (cur, row1)"
    by (cases "value_getitem row ak")
  have row: "row = fst (row_getitem (q_table self) sk)"
    and t: "t = snd (row_getitem (q_table self) sk)" by (simp_all add: r)
  have cur: "cur = fst (value_getitem row ak)" and row1: "row1 = snd (value_getitem row ak)"
    by (simp_all add: v)
  have c: "cur = q_lookup (q_table self) sk ak"
    unfolding cur row by (simp add: value_getitem_fst row_getitem_fst q_lookup_def split: option.splits)
  have u: "q_lookup (AList.update sk row1 t) sk' ak' = q_lookup (q_table self) sk' ak'"
    if "\<not> (sk' = sk \<and> ak' = ak)"
  proof (cases "sk' = sk")
    case False
    then show ?thesis unfolding t by (simp add: q_lookup_update_row q_lookup_row_getitem)
  next
    case True
    with that have ne: "ak' \<noteq> ak" by simp
    have m: "map_of row1 ak' = map_of row ak'"
      unfolding row1 using ne by (simp add: map_of_value_getitem)
    have "q_lookup (AList.update sk row1 t) sk' ak' =
            (case map_of row1 ak' of None \<Rightarrow> 0 | Some q \<Rightarrow> q)"
      using True by (simp add: q_lookup_update_row)
    also have "\<dots> = (case map_of row ak' of None \<Rightarrow> 0 | Some q \<Rightarrow> q)"
      by (simp only: m)
    also have "\<dots> = q_lookup (q_table self) sk' ak'"
      unfolding row using True by (simp add: row_getitem_fst q_lookup_def split: option.splits)
    finally show ?thesis .
  qed
  show ?thesis
    using assms u by (simp add: learn_from_evaluation_def r v Let_def q_lookup_table_setitem c)
qed

lemma is_double_calculate_reward: "fl (calculate_reward ev) = calculate_reward ev"
proof -
  have "fl (max (- 1) (min 1 (fl x))) = max (- 1) (min 1 (fl x))" for x
    by (simp add: max_def min_def fl_idem fl_one fl_neg)
  then show ?thesis by (simp add: calculate_reward_def Let_def fadd_def)
qed

text \<open>
  C2. With a pending cursor \<open>(sk, ak)\<close>, \<open>learn_from_evaluation\<close> replaces the
  estimate stored at the cursor by \<open>old + learning_rate * (r - old)\<close>, computed in float
  arithmetic, where \<open>old\<close> is the stored estimate (0 for an unseen pair) and \<open>r\<close> the
  reward of the evaluation; every other estimate is unchanged. When \<open>old\<close> is 0 the new
  estimate is the float product \<open>learning_rate * r\<close>, for the learning rate \<^verbatim>\<open>0.1\<close> the
  product \<^verbatim>\<open>0.1 * r\<close>.
\<close>

theorem learn_update:
  assumes "last_state_key self = Some sk" and "last_action_key self = Some ak"
  shows "q_lookup (q_table (learn_from_evaluation self ev)) sk ak =
           fadd (q_lookup (q_table self) sk ak)
                (fmul (learning_rate self)
                      (fsub (calculate_reward ev) (q_lookup (q_table self) sk ak)))
         \<and> (q_lookup (q_table self) sk ak = 0 \<longrightarrow>
              q_lookup (q_table (learn_from_evaluation self ev)) sk ak
                = fmul (learning_rate self) (calculate_reward ev))
         \<and> (q_lookup (q_table self) sk ak = 0 \<and> learning_rate self = lit_0_1 \<longrightarrow>
              q_lookup (q_table (learn_from_evaluation self ev)) sk ak
                = fmul lit_0_1 (calculate_reward ev))
         \<and> (\<forall>sk' ak'. \<not> (sk' = sk \<and> ak' = ak) \<longrightarrow>
              q_lookup (q_table (learn_from_evaluation self ev)) sk' ak'
                = q_lookup (q_table self) sk' ak')"
proof -
  have z: "fadd 0 (fmul lr (fsub (calculate_reward ev) 0)) = fmul lr (calculate_reward ev)" for lr
    by (simp add: fadd_def fmul_def fsub_def is_double_calculate_reward fl_idem)
  show ?thesis
    using z by (simp add: learn_q_table[OF assms])
qed

text \<open>Every call commutes with a change of the discount factor.\<close>

lemma do_call_discount:
  "do_call (self\<lparr>discount_factor := g\<rparr>) c =
     (case do_call self c of (r, self') \<Rightarrow> (r, self'\<lparr>discount_factor := g\<rparr>))"
proof (cases c)
  case (SuggestAction state r)
  then show ?thesis
    by (simp add: suggest_action_def get_best_action_def Let_def
        split: prod.splits list.splits option.splits)
next
  case (Learn ev)
  then show ?thesis
    by (simp add: learn_from_evaluation_def Let_def split: prod.splits option.splits)
next
  case (Recommend state k)
  then show ?thesis
    by (simp add: get_action_recommendations_def Let_def split: prod.splits)
next
  case Snapshot
  then show ?thesis by (simp add: get_q_table_def)
next
  case (Restore data)
  then show ?thesis by (simp add: load_q_table_def)
next
  case ResetCursor
  then show ?thesis by (simp add: reset_last_action_def)
qed

lemma run_Cons:
  "run self (c # cs) =
     (fst (do_call self c) # fst (run (snd (do_call self c)) cs),
      snd (run (snd (do_call self c)) cs))"
  by (simp split: prod.splits)

text \<open>
  C9. Two agents that differ in the discount factor only, given the same sequence of
  calls with the same random draws, return the same values, and end in states that
  differ in the discount factor only: the same table, cursor and epsilon.
\<close>

theorem discount_factor_inert:
  "fst (run (self\<lparr>discount_factor := g\<rparr>) calls) = fst (run self calls)
   \<and> snd (run (self\<lparr>discount_factor := g\<rparr>) calls) = (snd (run self calls))\<lparr>discount_factor := g\<rparr>"
proof (induction calls arbitrary: self)
  case Nil
  show ?case by simp
next
  case (Cons c cs)
  obtain r self' where d: "do_call self c = (r, self')" by (cases "do_call self c")
  have d': "do_call (self\<lparr>discount_factor := g\<rparr>) c = (r, self'\<lparr>discount_factor := g\<rparr>)"
    by (simp add: do_call_discount d)
  show ?case unfolding run_Cons d d' fst_conv snd_conv using Cons.IH[of self'] by simp
qed


section \<open>The example agent\<close>

text \<open>The default agent after a suggestion in the exploit branch: the table has an empty
  row for the context, and the cursor is the key of the baseline action.\<close>

lemma str_int_digits:
  "str_int 0 = ''0''" "str_int 2 = ''2''" "str_int 3 = ''3''" "str_int 5 = ''5''"
  "str_int 14 = ''14''"
  by (simp_all add: str_int_def str_nat.simps digit_char_def)

lemma state_to_key_example: "state_to_key example_state = ''True_3''"
  by (simp add: state_to_key_def example_state_def str_bool_def str_int_digits)

lemma action_to_key_baseline: "action_to_key (get_baseline_action state) = ''14_5_2''"
  by (simp add: action_to_key_def get_baseline_action_def discretize_grind_exact
      discretize_volume_40 discretize_dose_18 str_int_digits)

lemma exploit_example: "\<not> rand_unit example_draws < epsilon default_agent"
  by (simp add: example_draws_def default_agent_def BrewingAgent_init_def fl_tenth)

lemma pending_agent_eq:
  "pending_agent = default_agent\<lparr>q_table := [(''True_3'', [])],
      last_state_key := Some ''True_3'', last_action_key := Some ''14_5_2''\<rparr>"
  using exploit_example
  by (simp add: pending_agent_def suggest_action_def get_best_action_def row_getitem_def
      Let_def state_to_key_example action_to_key_baseline default_agent_def BrewingAgent_init_def)

text \<open>The learning step of C2 at the example agent and the example evaluation.\<close>

theorem learn_update_witness:
  "last_state_key pending_agent = Some ''True_3''
   \<and> last_action_key pending_agent = Some ''14_5_2''
   \<and> q_lookup (q_table pending_agent) ''True_3'' ''14_5_2'' = 0
   \<and> learning_rate pending_agent = lit_0_1
   \<and> q_lookup (q_table (learn_from_evaluation pending_agent example_evaluation)) ''True_3'' ''14_5_2''
       = fmul lit_0_1 (calculate_reward example_evaluation)
   \<and> q_lookup (q_table (learn_from_evaluation pending_agent example_evaluation)) ''True_3'' ''0_0_0''
       = q_lookup (q_table pending_agent) ''True_3'' ''0_0_0''"
proof -
  have s: "last_state_key pending_agent = Some ''True_3''"
    and a: "last_action_key pending_agent = Some ''14_5_2''"
    by (simp_all add: pending_agent_eq)
  have z: "q_lookup (q_table pending_agent) ''True_3'' ''14_5_2'' = 0"
    by (simp add: pending_agent_eq q_lookup_def)
  have l: "learning_rate pending_agent = lit_0_1"
    by (simp add: pending_agent_eq default_agent_def BrewingAgent_init_def lit_0_1_def)
  show ?thesis
    using learn_update[OF s a, of example_evaluation] s a z l by simp
qed


section \<open>Lookups that grow the table\<close>

lemma get_best_action_table:
  "q_table (snd (get_best_action self sk state)) = snd (row_getitem (q_table self) sk)"
  by (simp add: get_best_action_def Let_def split: prod.splits list.splits option.splits)

lemma suggest_action_table:
  "q_table (snd (suggest_action self state r)) =
     (if rand_unit r < epsilon self then q_table self
      else snd (row_getitem (q_table self) (state_to_key state)))"
proof -
  have "q_table (snd (suggest_action self state r)) =
      q_table (snd (if rand_unit r < epsilon self then (get_random_action r, self)
                    else get_best_action self (state_to_key state) state))"
    by (simp add: suggest_action_def Let_def split: prod.splits)
  then show ?thesis by (simp add: get_best_action_table)
qed

lemma get_action_recommendations_table:
  "q_table (snd (get_action_recommendations self state top_k)) =
     snd (row_getitem (q_table self) (state_to_key state))"
  by (simp add: get_action_recommendations_def Let_def split: prod.splits)

text \<open>
  C10. When the state key of a context has no row in the table,
  \<open>get_action_recommendations\<close>, and \<open>suggest_action\<close> in its exploit branch, append an
  empty row for that key: the snapshot taken afterwards maps the key to an empty
  mapping. The estimate read for any pair is unchanged (0 for the pairs of the new row).
\<close>

theorem lookups_insert_empty_row:
  assumes "map_of (q_table self) (state_to_key state) = None"
  shows "get_q_table (snd (get_action_recommendations self state top_k))
           = q_table self @ [(state_to_key state, [])]
         \<and> map_of (get_q_table (snd (get_action_recommendations self state top_k)))
              (state_to_key state) = Some []
         \<and> (\<not> rand_unit r < epsilon self \<longrightarrow>
              get_q_table (snd (suggest_action self state r))
                = q_table self @ [(state_to_key state, [])]
              \<and> map_of (get_q_table (snd (suggest_action self state r))) (state_to_key state)
                  = Some [])
         \<and> (\<forall>sk ak.
              q_lookup (q_table (snd (get_action_recommendations self state top_k))) sk ak
                = q_lookup (q_table self) sk ak
              \<and> q_lookup (q_table (snd (suggest_action self state r))) sk ak
                  = q_lookup (q_table self) sk ak)"
proof -
  let ?k = "state_to_key state"
  have t: "snd (row_getitem (q_table self) ?k) = q_table self @ [(?k, [])]"
    using assms by (simp add: row_getitem_snd)
  have m: "map_of (q_table self @ [(?k, [])]) ?k = Some []"
    unfolding map_of_append map_add_def assms by simp
  have q: "q_lookup (q_table self @ [(?k, [])]) sk ak = q_lookup (q_table self) sk ak" for sk ak
    using q_lookup_row_getitem[of "q_table self" ?k sk ak] by (simp only: t)
  show ?thesis
    unfolding get_q_table_eq get_action_recommendations_table suggest_action_table t
    using m q by simp
qed

theorem lookups_insert_empty_row_witness:
  "map_of (q_table default_agent) (state_to_key example_state) = None
   \<and> \<not> rand_unit example_draws < epsilon default_agent
   \<and> get_q_table (snd (get_action_recommendations default_agent example_state 3))
       = [(''True_3'', [])]
   \<and> get_q_table (snd (suggest_action default_agent example_state example_draws))
       = [(''True_3'', [])]
   \<and> q_lookup (q_table (snd (get_action_recommendations default_agent example_state 3)))
        ''True_3'' ''14_5_2'' = 0"
proof -
  have h: "map_of (q_table default_agent) (state_to_key example_state) = None"
    by (simp add: default_agent_def BrewingAgent_init_def)
  have e: "\<not> rand_unit example_draws < epsilon default_agent"
    by (rule exploit_example)
  have k: "state_to_key example_state = ''True_3''"
    by (rule state_to_key_example)
  have q: "q_table default_agent = []"
    by (simp add: default_agent_def BrewingAgent_init_def)
  show ?thesis
    using lookups_insert_empty_row[OF h, of 3 example_draws] h e
    by (simp add: k q q_lookup_def)
qed


section \<open>The round trip through the indices\<close>

text \<open>The absolute error of one rounding, for a non-negative number below a bound.\<close>

lemma fl_abs_err:
  assumes "0 \<le> x" and "x \<le> M" and "1 \<le> M"
  shows "\<bar>fl x - x\<bar> \<le> M / 9007199254740992"
proof -
  consider "x = 0" | "0 < x" "x < pow2 (- 1022)" | "pow2 (- 1022) \<le> x"
    using assms(1) by linarith
  then show ?thesis
  proof cases
    case 1
    then show ?thesis using assms by (simp add: fl_zero)
  next
    case 2
    have "pow2 (- 1074) \<le> pow2 (- 52)" by (rule pow2_mono) simp
    then have s: "pow2 (- 1074) / 2 \<le> 1 / 9007199254740992" by (simp add: pow2_def)
    have "\<bar>fl x - x\<bar> \<le> pow2 (- 1074) / 2" by (rule fl_err_subnormal[OF 2])
    also note s
    also have "1 / 9007199254740992 \<le> M / 9007199254740992"
      using assms(3) by (simp add: divide_right_mono)
    finally show ?thesis .
  next
    case 3
    then have "\<bar>fl x - x\<bar> \<le> x / 2 ^ 53" by (rule fl_err_pos)
    also have "\<dots> \<le> M / 2 ^ 53" using assms(2) by (simp add: divide_right_mono)
    finally show ?thesis by simp
  qed
qed

lemma volume_error:
  assumes "25 \<le> v" and "v \<le> 50"
  shows "\<bar>undiscretize_volume (discretize_volume v) - v\<bar> \<le> 278 / 100"
proof -
  define a where "a = v - 25"
  define t1 where "t1 = fsub v 25"
  define t2 where "t2 = fdiv t1 25"
  define t3 where "t3 = fmul t2 9"
  define j where "j = \<lfloor>t3\<rfloor>"
  define q1 where "q1 = fdiv (of_int j) 9"
  define q2 where "q2 = fmul q1 25"
  define r where "r = fadd 25 q2"
  have a: "0 \<le> a" "a \<le> 25" using assms by (simp_all add: a_def)
  have "\<bar>t1 - a\<bar> \<le> 25 / 9007199254740992"
    unfolding t1_def fsub_def a_def by (rule fl_abs_err) (use assms in simp_all)
  then have t1: "t1 - a \<le> 25 / 9007199254740992" "a - t1 \<le> 25 / 9007199254740992" by linarith+
  have t1n: "0 \<le> t1" unfolding t1_def fsub_def by (rule fl_nonneg) (use assms in simp)
  have t1u: "t1 \<le> 26" using t1(1) a(2) by linarith
  have "\<bar>t2 - t1 / 25\<bar> \<le> 2 / 9007199254740992"
    unfolding t2_def fdiv_def by (rule fl_abs_err) (use t1n t1u in simp_all)
  then have t2: "t2 - t1 / 25 \<le> 2 / 9007199254740992" "t1 / 25 - t2 \<le> 2 / 9007199254740992"
    by linarith+
  have t2n: "0 \<le> t2" unfolding t2_def fdiv_def by (rule fl_nonneg) (use t1n in simp)
  have t2u: "t2 \<le> 2" using t2(1) t1u by linarith
  have "\<bar>t3 - t2 * 9\<bar> \<le> 18 / 9007199254740992"
    unfolding t3_def fmul_def by (rule fl_abs_err) (use t2n t2u in simp_all)
  then have t3: "t3 - t2 * 9 \<le> 18 / 9007199254740992" "t2 * 9 - t3 \<le> 18 / 9007199254740992"
    by linarith+
  have t3n: "0 \<le> t3" unfolding t3_def fmul_def by (rule fl_nonneg) (use t2n in simp)
  have x: "t3 - 9 * a / 25 \<le> 45 / 9007199254740992" "9 * a / 25 - t3 \<le> 45 / 9007199254740992"
    using t1 t2 t3 by linarith+
  have t3u: "t3 < 10" using x(1) a(2) by linarith
  have j0: "0 \<le> j" unfolding j_def using t3n by simp
  have j9: "j \<le> 9"
  proof -
    have "j < 10" unfolding j_def using t3u by (simp add: floor_less_iff)
    then show ?thesis by simp
  qed
  have jl: "of_int j \<le> t3" and ju: "t3 < of_int j + 1" unfolding j_def by linarith+
  have d: "discretize_volume v = j"
    unfolding discretize_volume_unfold using t3n j0 j9
    by (simp add: py_int_def t1_def[symmetric] t2_def[symmetric] t3_def[symmetric]
        j_def[symmetric])
  have jr: "0 \<le> (of_int j :: rat)" "(of_int j :: rat) \<le> 9" using j0 j9 by simp_all
  have "\<bar>q1 - of_int j / 9\<bar> \<le> 1 / 9007199254740992"
    unfolding q1_def fdiv_def by (rule fl_abs_err) (use jr in simp_all)
  then have q1: "q1 - of_int j / 9 \<le> 1 / 9007199254740992" "of_int j / 9 - q1 \<le> 1 / 9007199254740992"
    by linarith+
  have q1n: "0 \<le> q1" unfolding q1_def fdiv_def by (rule fl_nonneg) (use jr in simp)
  have q1u: "q1 \<le> 2" using q1(1) jr(2) by linarith
  have "\<bar>q2 - q1 * 25\<bar> \<le> 50 / 9007199254740992"
    unfolding q2_def fmul_def by (rule fl_abs_err) (use q1n q1u in simp_all)
  then have q2: "q2 - q1 * 25 \<le> 50 / 9007199254740992" "q1 * 25 - q2 \<le> 50 / 9007199254740992"
    by linarith+
  have q2n: "0 \<le> q2" unfolding q2_def fmul_def by (rule fl_nonneg) (use q1n in simp)
  have q2u: "q2 \<le> 26" using q2(1) q1(1) jr(2) by linarith
  have "\<bar>r - (25 + q2)\<bar> \<le> 51 / 9007199254740992"
    unfolding r_def fadd_def by (rule fl_abs_err) (use q2n q2u in simp_all)
  then have r: "r - (25 + q2) \<le> 51 / 9007199254740992" "25 + q2 - r \<le> 51 / 9007199254740992"
    by linarith+
  have u: "undiscretize_volume j = r"
    unfolding undiscretize_volume_unfold by (simp add: q1_def q2_def r_def)
  have v: "v = 25 + a" by (simp add: a_def)
  have "r - v \<le> 278 / 100" "v - r \<le> 278 / 100"
    using r q2 q1 x jl ju a unfolding v by linarith+
  then show ?thesis unfolding d u by linarith
qed

lemma dose_error:
  assumes "15 \<le> v" and "v \<le> 25"
  shows "\<bar>undiscretize_dose (discretize_dose v) - v\<bar> \<le> 1112 / 1000"
proof -
  define a where "a = v - 15"
  define t1 where "t1 = fsub v 15"
  define t2 where "t2 = fdiv t1 10"
  define t3 where "t3 = fmul t2 9"
  define j where "j = \<lfloor>t3\<rfloor>"
  define q1 where "q1 = fdiv (of_int j) 9"
  define q2 where "q2 = fmul q1 10"
  define r where "r = fadd 15 q2"
  have a: "0 \<le> a" "a \<le> 10" using assms by (simp_all add: a_def)
  have "\<bar>t1 - a\<bar> \<le> 10 / 9007199254740992"
    unfolding t1_def fsub_def a_def by (rule fl_abs_err) (use assms in simp_all)
  then have t1: "t1 - a \<le> 10 / 9007199254740992" "a - t1 \<le> 10 / 9007199254740992" by linarith+
  have t1n: "0 \<le> t1" unfolding t1_def fsub_def by (rule fl_nonneg) (use assms in simp)
  have t1u: "t1 \<le> 11" using t1(1) a(2) by linarith
  have "\<bar>t2 - t1 / 10\<bar> \<le> 2 / 9007199254740992"
    unfolding t2_def fdiv_def by (rule fl_abs_err) (use t1n t1u in simp_all)
  then have t2: "t2 - t1 / 10 \<le> 2 / 9007199254740992" "t1 / 10 - t2 \<le> 2 / 9007199254740992"
    by linarith+
  have t2n: "0 \<le> t2" unfolding t2_def fdiv_def by (rule fl_nonneg) (use t1n in simp)
  have t2u: "t2 \<le> 2" using t2(1) t1u by linarith
  have "\<bar>t3 - t2 * 9\<bar> \<le> 18 / 9007199254740992"
    unfolding t3_def fmul_def by (rule fl_abs_err) (use t2n t2u in simp_all)
  then have t3: "t3 - t2 * 9 \<le> 18 / 9007199254740992" "t2 * 9 - t3 \<le> 18 / 9007199254740992"
    by linarith+
  have t3n: "0 \<le> t3" unfolding t3_def fmul_def by (rule fl_nonneg) (use t2n in simp)
  have x: "t3 - 9 * a / 10 \<le> 45 / 9007199254740992" "9 * a / 10 - t3 \<le> 45 / 9007199254740992"
    using t1 t2 t3 by linarith+
  have t3u: "t3 < 10" using x(1) a(2) by linarith
  have j0: "0 \<le> j" unfolding j_def using t3n by simp
  have j9: "j \<le> 9"
  proof -
    have "j < 10" unfolding j_def using t3u by (simp add: floor_less_iff)
    then show ?thesis by simp
  qed
  have jl: "of_int j \<le> t3" and ju: "t3 < of_int j + 1" unfolding j_def by linarith+
  have d: "discretize_dose v = j"
    unfolding discretize_dose_unfold using t3n j0 j9
    by (simp add: py_int_def t1_def[symmetric] t2_def[symmetric] t3_def[symmetric]
        j_def[symmetric])
  have jr: "0 \<le> (of_int j :: rat)" "(of_int j :: rat) \<le> 9" using j0 j9 by simp_all
  have "\<bar>q1 - of_int j / 9\<bar> \<le> 1 / 9007199254740992"
    unfolding q1_def fdiv_def by (rule fl_abs_err) (use jr in simp_all)
  then have q1: "q1 - of_int j / 9 \<le> 1 / 9007199254740992" "of_int j / 9 - q1 \<le> 1 / 9007199254740992"
    by linarith+
  have q1n: "0 \<le> q1" unfolding q1_def fdiv_def by (rule fl_nonneg) (use jr in simp)
  have q1u: "q1 \<le> 2" using q1(1) jr(2) by linarith
  have "\<bar>q2 - q1 * 10\<bar> \<le> 20 / 9007199254740992"
    unfolding q2_def fmul_def by (rule fl_abs_err) (use q1n q1u in simp_all)
  then have q2: "q2 - q1 * 10 \<le> 20 / 9007199254740992" "q1 * 10 - q2 \<le> 20 / 9007199254740992"
    by linarith+
  have q2n: "0 \<le> q2" unfolding q2_def fmul_def by (rule fl_nonneg) (use q1n in simp)
  have q2u: "q2 \<le> 11" using q2(1) q1(1) jr(2) by linarith
  have "\<bar>r - (15 + q2)\<bar> \<le> 26 / 9007199254740992"
    unfolding r_def fadd_def by (rule fl_abs_err) (use q2n q2u in simp_all)
  then have r: "r - (15 + q2) \<le> 26 / 9007199254740992" "15 + q2 - r \<le> 26 / 9007199254740992"
    by linarith+
  have u: "undiscretize_dose j = r"
    unfolding undiscretize_dose_unfold by (simp add: q1_def q2_def r_def)
  have v: "v = 15 + a" by (simp add: a_def)
  have "r - v \<le> 1112 / 1000" "v - r \<le> 1112 / 1000"
    using r q2 q1 x jl ju a unfolding v by linarith+
  then show ?thesis unfolding d u by linarith
qed

text \<open>
  C3, as the code has it. For a grind setting in \<open>[1, 30]\<close> the index is the setting
  less one and maps back to the setting, and a grind index in \<open>[0, 29]\<close> maps to a
  setting and back to itself. For a volume in \<open>[25, 50]\<close> and a dose in \<open>[15, 25]\<close> the
  value of the index differs from the given value by a bucket at most: by 2.78 ml, and
  by 1.112 g (a bucket of the dose is 10/9 g, more than 1.11 g).
\<close>

theorem discretisation_error:
  "(1 \<le> g \<and> g \<le> 30 \<longrightarrow> undiscretize_grind (discretize_grind g) = g)
   \<and> (0 \<le> i \<and> i \<le> 29 \<longrightarrow> discretize_grind (undiscretize_grind i) = i)
   \<and> (25 \<le> v \<and> v \<le> 50 \<longrightarrow>
        \<bar>undiscretize_volume (discretize_volume v) - v\<bar> \<le> 278 / 100)
   \<and> (15 \<le> d \<and> d \<le> 25 \<longrightarrow>
        \<bar>undiscretize_dose (discretize_dose d) - d\<bar> \<le> 1112 / 1000)"
proof -
  have "undiscretize_grind (discretize_grind g) = g" if "1 \<le> g" "g \<le> 30"
    using that by (simp add: discretize_grind_exact undiscretize_grind_exact)
  moreover have "discretize_grind (undiscretize_grind i) = i" if "0 \<le> i" "i \<le> 29"
    using that by (simp add: discretize_grind_exact undiscretize_grind_exact)
  ultimately show ?thesis using volume_error[of v] dose_error[of d] by blast
qed

theorem discretisation_error_witness:
  "undiscretize_grind (discretize_grind 15) = 15
   \<and> discretize_grind (undiscretize_grind 14) = 14
   \<and> \<bar>undiscretize_volume (discretize_volume 40) - 40\<bar> \<le> 278 / 100
   \<and> \<bar>undiscretize_dose (discretize_dose 18) - 18\<bar> \<le> 1112 / 1000"
  using discretisation_error[of 15 14 40 18] by simp

lemma action_from_indices_0_3_0:
  "action_from_indices 0 3 0 =
     \<lparr>grind_size = 1, brew_volume = 2345624805922133 / 70368744177664, coffee_dose = 15\<rparr>"
  by (simp add: action_from_indices_def undiscretize_grind_exact undiscretize_volume_3
      undiscretize_dose_0)

lemma action_to_key_0_3_0: "action_to_key (action_from_indices 0 3 0) = ''0_2_0''"
  by (simp add: action_from_indices_0_3_0 action_to_key_def discretize_grind_exact
      discretize_volume_of_3 discretize_dose_of_0 str_int_digits)

text \<open>
  C3 as stated fails twice. Mapping an index to a value and back does not return every
  index: rounding makes the float quotient fall just below the index, and \<open>py_int\<close>
  truncates it to the index below, so the volume index 3 comes back as 2 and the
  indices \<open>(0, 3, 0)\<close> come back as the key of \<open>(0, 2, 0)\<close>. And a dose of 16.111 g (the
  double nearest to it), within the bounds, maps to the index 0 and back to 15 g, which
  is further than 1.11 g away.
\<close>

theorem discretisation_claim_fails:
  "discretize_volume (undiscretize_volume 3) = 2
   \<and> action_to_key (action_from_indices 0 3 0) = ''0_2_0''
   \<and> 15 \<le> (4534843349785379 / 281474976710656 :: rat)
   \<and> (4534843349785379 / 281474976710656 :: rat) \<le> 25
   \<and> 111 / 100 < \<bar>undiscretize_dose (discretize_dose (4534843349785379 / 281474976710656))
                     - 4534843349785379 / 281474976710656\<bar>"
  by (simp add: undiscretize_volume_3 discretize_volume_of_3 action_to_key_0_3_0
      discretize_dose_16_111 undiscretize_dose_0)

text \<open>
  A consequence of the first failure for the agent: in the exploit branch the entry
  \<^verbatim>\<open>"0_3_0"\<close> is chosen, the cursor records \<^verbatim>\<open>"0_2_0"\<close>, and the learning step that
  follows leaves the chosen entry as it was.
\<close>

lemma parse_action_key_0_3_0: "parse_action_key ''0_3_0'' = Some (0, 3, 0)"
  by (simp add: parse_action_key_def parse_int_def strip_def is_space_def parse_unsigned_def
      is_digit_def nat_of_digits_def digit_val_def int_max_str_digits_def)

lemma suggest_stale_row:
  "suggest_action stale_row_agent example_state example_draws =
     (action_from_indices 0 3 0,
      stale_row_agent\<lparr>last_state_key := Some ''True_3'', last_action_key := Some ''0_2_0''\<rparr>)"
  using exploit_example
  by (simp add: suggest_action_def get_best_action_def row_getitem_def Let_def
      state_to_key_example stale_row_agent_def parse_action_key_0_3_0 action_to_key_0_3_0
      default_agent_def BrewingAgent_init_def)

lemma learn_misses_exploited_entry:
  "q_lookup (q_table (learn_from_evaluation
       (snd (suggest_action stale_row_agent example_state example_draws)) ev))
     ''True_3'' ''0_3_0'' = 1"
proof -
  let ?a = "stale_row_agent\<lparr>last_state_key := Some ''True_3'', last_action_key := Some ''0_2_0''\<rparr>"
  have "q_lookup (q_table (learn_from_evaluation ?a ev)) ''True_3'' ''0_3_0''
      = q_lookup (q_table ?a) ''True_3'' ''0_3_0''"
    by (subst learn_q_table[where sk = "''True_3''" and ak = "''0_2_0''"]) simp_all
  also have "\<dots> = 1" by (simp add: stale_row_agent_def q_lookup_def)
  finally show ?thesis by (simp add: suggest_stale_row)
qed



section \<open>Malformed action keys\<close>

text \<open>The parser accepts a string exactly when it spells an integer, and a key exactly
  when it is well-formed.\<close>

lemma digit_not_space: "is_digit c \<Longrightarrow> \<not> is_space c"
  by (auto simp: is_digit_def is_space_def)

lemma digit_not_sign: "is_digit c \<Longrightarrow> c \<noteq> CHR ''-'' \<and> c \<noteq> CHR ''+''"
  by (auto simp: is_digit_def)

lemma sign_not_space: "\<not> is_space (CHR ''-'')" "\<not> is_space (CHR ''+'')"
  by (simp_all add: is_space_def)

lemma rev_split: "rev (dropWhile P (rev xs)) @ rev (takeWhile P (rev xs)) = xs"
  using arg_cong[OF takeWhile_dropWhile_id[of P "rev xs"], of rev]
  by (simp only: rev_append rev_rev_ident)

lemma strip_decomp:
  "\<exists>before after. s = before @ strip s @ after \<and> list_all is_space before \<and> list_all is_space after"
proof -
  let ?m = "dropWhile is_space s"
  let ?a = "rev (takeWhile is_space (rev ?m))"
  have 1: "takeWhile is_space s @ ?m = s" by (rule takeWhile_dropWhile_id)
  have 2: "strip s @ ?a = ?m" unfolding strip_def by (rule rev_split)
  have a: "list_all is_space (takeWhile is_space s)"
    by (simp add: list_all_iff) (meson set_takeWhileD)
  have b: "list_all is_space ?a"
    by (simp add: list_all_iff) (meson set_takeWhileD)
  have "s = takeWhile is_space s @ strip s @ ?a" by (simp only: 1 2)
  with a b show ?thesis by blast
qed

lemma strip_core:
  assumes "list_all is_space before" and "list_all is_space after"
    and "m \<noteq> []" and "\<not> is_space (hd m)" and "\<not> is_space (last m)"
  shows "strip (before @ m @ after) = m"
proof -
  obtain x m' where m: "m = x # m'" using assms(3) by (cases m) auto
  have x: "\<not> is_space x" using assms(4) by (simp add: m)
  have "dropWhile is_space (before @ m @ after) = dropWhile is_space (m @ after)"
    using assms(1) by (intro dropWhile_append2) (simp add: list_all_iff)
  also have "\<dots> = m @ after" using x by (simp add: m)
  finally have d: "dropWhile is_space (before @ m @ after) = m @ after" .
  obtain y where r: "rev m = y # rev (butlast m)" and y: "y = last m"
    using assms(3) by (metis append_butlast_last_id rev.simps(2) rev_append rev_rev_ident)
  have "dropWhile is_space (rev (m @ after)) = dropWhile is_space (rev m)"
    unfolding rev_append using assms(2) by (intro dropWhile_append2) (simp add: list_all_iff)
  also have "\<dots> = rev m" using assms(5) by (simp add: r y)
  finally show ?thesis by (simp add: strip_def d)
qed

lemma parse_unsigned_Some_iff:
  "parse_unsigned ds \<noteq> None \<longleftrightarrow>
     ds \<noteq> [] \<and> list_all is_digit ds \<and> length ds \<le> int_max_str_digits"
  by (simp add: parse_unsigned_def)

lemma parse_int_strip:
  "parse_int s \<noteq> None \<longleftrightarrow>
     (\<exists>sign digits. strip s = sign @ digits
        \<and> (sign = [] \<or> sign = ''+'' \<or> sign = ''-'')
        \<and> digits \<noteq> [] \<and> list_all is_digit digits \<and> length digits \<le> int_max_str_digits)"
proof
  assume a: "parse_int s \<noteq> None"
  then obtain c r where cr: "strip s = c # r" by (cases "strip s") (simp_all add: parse_int_def)
  consider "c = CHR ''-''" | "c = CHR ''+''" | "c \<noteq> CHR ''-''" "c \<noteq> CHR ''+''" by blast
  then show "\<exists>sign digits. strip s = sign @ digits
        \<and> (sign = [] \<or> sign = ''+'' \<or> sign = ''-'')
        \<and> digits \<noteq> [] \<and> list_all is_digit digits \<and> length digits \<le> int_max_str_digits"
  proof cases
    case 1
    then have "parse_unsigned r \<noteq> None" using a by (simp add: parse_int_def cr)
    then have "r \<noteq> [] \<and> list_all is_digit r \<and> length r \<le> int_max_str_digits"
      using parse_unsigned_Some_iff[of r] by blast
    moreover have "strip s = ''-'' @ r" using cr 1 by simp
    ultimately show ?thesis by blast
  next
    case 2
    then have "parse_unsigned r \<noteq> None" using a by (simp add: parse_int_def cr)
    then have "r \<noteq> [] \<and> list_all is_digit r \<and> length r \<le> int_max_str_digits"
      using parse_unsigned_Some_iff[of r] by blast
    moreover have "strip s = ''+'' @ r" using cr 2 by simp
    ultimately show ?thesis by blast
  next
    case 3
    then have "parse_unsigned (c # r) \<noteq> None" using a by (simp add: parse_int_def cr)
    then have "c # r \<noteq> [] \<and> list_all is_digit (c # r) \<and> length (c # r) \<le> int_max_str_digits"
      using parse_unsigned_Some_iff[of "c # r"] by blast
    moreover have "strip s = [] @ (c # r)" using cr by simp
    ultimately show ?thesis by blast
  qed
next
  assume "\<exists>sign digits. strip s = sign @ digits
        \<and> (sign = [] \<or> sign = ''+'' \<or> sign = ''-'')
        \<and> digits \<noteq> [] \<and> list_all is_digit digits \<and> length digits \<le> int_max_str_digits"
  then obtain sign digits where st: "strip s = sign @ digits"
    and sg: "sign = [] \<or> sign = ''+'' \<or> sign = ''-''"
    and d: "digits \<noteq> []" "list_all is_digit digits" "length digits \<le> int_max_str_digits"
    by blast
  have p: "parse_unsigned digits \<noteq> None" using d parse_unsigned_Some_iff[of digits] by blast
  obtain c r where cr: "digits = c # r" using d(1) by (cases digits) auto
  have c: "c \<noteq> CHR ''-''" "c \<noteq> CHR ''+''" using d(2) digit_not_sign[of c] by (simp_all add: cr)
  from sg show "parse_int s \<noteq> None"
  proof (elim disjE)
    assume "sign = []"
    then show ?thesis using p c by (simp add: parse_int_def st cr)
  next
    assume "sign = ''+''"
    then show ?thesis using p by (simp add: parse_int_def st)
  next
    assume "sign = ''-''"
    then show ?thesis using p by (simp add: parse_int_def st)
  qed
qed

lemma parse_int_iff_numeral: "parse_int s \<noteq> None \<longleftrightarrow> integer_numeral s"
proof
  assume "parse_int s \<noteq> None"
  then obtain sign digits where st: "strip s = sign @ digits"
    and sg: "sign = [] \<or> sign = ''+'' \<or> sign = ''-''"
    and d: "digits \<noteq> []" "list_all is_digit digits" "length digits \<le> int_max_str_digits"
    unfolding parse_int_strip by blast
  obtain before after where b: "s = before @ strip s @ after"
    "list_all is_space before" "list_all is_space after"
    using strip_decomp by blast
  have "s = before @ sign @ digits @ after" using b(1) st by simp
  then show "integer_numeral s" unfolding integer_numeral_def using b(2,3) sg d by blast
next
  assume "integer_numeral s"
  then obtain before sign digits after where s: "s = before @ sign @ digits @ after"
    and b: "list_all is_space before" "list_all is_space after"
    and sg: "sign = [] \<or> sign = ''+'' \<or> sign = ''-''"
    and d: "digits \<noteq> []" "list_all is_digit digits" "length digits \<le> int_max_str_digits"
    unfolding integer_numeral_def by blast
  let ?m = "sign @ digits"
  have m: "?m \<noteq> []" using d(1) by simp
  have hd_d: "\<not> is_space (hd digits)" and last_d: "\<not> is_space (last digits)"
    using d(1,2) digit_not_space by (simp_all add: list_all_iff)
  have h: "\<not> is_space (hd ?m)" using sg hd_d sign_not_space by auto
  have l: "\<not> is_space (last ?m)" using d(1) last_d by simp
  have "strip (before @ ?m @ after) = ?m" by (rule strip_core[OF b m h l])
  then have "strip s = sign @ digits" by (simp add: s)
  then show "parse_int s \<noteq> None" unfolding parse_int_strip using sg d by blast
qed

lemma numeral_no_underscore:
  assumes "integer_numeral s"
  shows "CHR ''_'' \<notin> set s"
proof -
  obtain before sign digits after where s: "s = before @ sign @ digits @ after"
    and b: "list_all is_space before" "list_all is_space after"
    and sg: "sign = [] \<or> sign = ''+'' \<or> sign = ''-''"
    and d: "list_all is_digit digits"
    using assms unfolding integer_numeral_def by blast
  have u: "\<not> is_space (CHR ''_'')" "\<not> is_digit (CHR ''_'')"
    by (simp_all add: is_space_def is_digit_def)
  have "CHR ''_'' \<notin> set before" "CHR ''_'' \<notin> set after" "CHR ''_'' \<notin> set digits"
    using b d u by (auto simp: list_all_iff)
  moreover have "CHR ''_'' \<notin> set sign" using sg by auto
  ultimately show ?thesis by (simp add: s)
qed

text \<open>The pieces of a split are the strings between the separators.\<close>

lemma split_on_nonempty: "split_on c s \<noteq> []"
  by (induction s) (auto split: list.splits)

lemma split_on_no_sep: "c \<notin> set a \<Longrightarrow> split_on c a = [a]"
  by (induction a) auto

lemma split_on_sep: "c \<notin> set a \<Longrightarrow> split_on c (a @ c # rest) = a # split_on c rest"
  by (induction a) auto

lemma split_on_single: "split_on c s = [p] \<Longrightarrow> s = p"
proof (induction s arbitrary: p)
  case Nil
  then show ?case by simp
next
  case (Cons x xs)
  show ?case
  proof (cases "x = c")
    case True
    then show ?thesis using Cons.prems split_on_nonempty[of c xs] by simp
  next
    case False
    obtain w ws where w: "split_on c xs = w # ws"
      using split_on_nonempty[of c xs] by (cases "split_on c xs") auto
    have "ws = []" "p = x # w" using Cons.prems False by (simp_all add: w)
    then show ?thesis using Cons.IH[of w] w by simp
  qed
qed

lemma split_on_more:
  "split_on c s = p # q # ps \<Longrightarrow> \<exists>rest. s = p @ c # rest \<and> split_on c rest = q # ps"
proof (induction s arbitrary: p)
  case Nil
  then show ?case by simp
next
  case (Cons x xs)
  show ?case
  proof (cases "x = c")
    case True
    then show ?thesis using Cons.prems by simp
  next
    case False
    obtain w ws where w: "split_on c xs = w # ws"
      using split_on_nonempty[of c xs] by (cases "split_on c xs") auto
    have e: "ws = q # ps" "p = x # w" using Cons.prems False by (simp_all add: w)
    obtain rest where "xs = w @ c # rest" "split_on c rest = q # ps"
      using Cons.IH[of w] w e(1) by auto
    then show ?thesis using e(2) by simp
  qed
qed

lemma split_on_three:
  assumes "split_on c s = [p, q, r]"
  shows "s = p @ [c] @ q @ [c] @ r"
proof -
  obtain rest where 1: "s = p @ c # rest" "split_on c rest = [q, r]"
    using split_on_more[OF assms] by blast
  obtain rest' where 2: "rest = q @ c # rest'" "split_on c rest' = [r]"
    using split_on_more[OF 1(2)] by blast
  have "rest' = r" by (rule split_on_single[OF 2(2)])
  then show ?thesis using 1(1) 2(1) by simp
qed

lemma split_on_joined:
  assumes "c \<notin> set p" and "c \<notin> set q" and "c \<notin> set r"
  shows "split_on c (p @ [c] @ q @ [c] @ r) = [p, q, r]"
  using assms by (simp add: split_on_sep split_on_no_sep)

lemma parse_action_key_Some_iff:
  "parse_action_key key \<noteq> None \<longleftrightarrow>
     (\<exists>a b c. split_on (CHR ''_'') key = [a, b, c]
        \<and> parse_int a \<noteq> None \<and> parse_int b \<noteq> None \<and> parse_int c \<noteq> None)"
proof -
  obtain ps where ps: "split_on (CHR ''_'') key = ps" by simp
  show ?thesis unfolding parse_action_key_def ps
    by (cases ps rule: list.exhaust; simp split: list.splits option.splits) auto
qed

lemma well_formed_key_iff: "well_formed_key key \<longleftrightarrow> parse_action_key key \<noteq> None"
proof
  assume "well_formed_key key"
  then obtain a b c where k: "key = a @ ''_'' @ b @ ''_'' @ c"
    and n: "integer_numeral a" "integer_numeral b" "integer_numeral c"
    unfolding well_formed_key_def by blast
  have s: "split_on (CHR ''_'') key = [a, b, c]"
    unfolding k
    using split_on_joined[OF numeral_no_underscore[OF n(1)] numeral_no_underscore[OF n(2)]
        numeral_no_underscore[OF n(3)]] by simp
  have p: "parse_int a \<noteq> None" "parse_int b \<noteq> None" "parse_int c \<noteq> None"
    using n by (simp_all only: parse_int_iff_numeral)
  have "\<exists>a b c. split_on (CHR ''_'') key = [a, b, c]
        \<and> parse_int a \<noteq> None \<and> parse_int b \<noteq> None \<and> parse_int c \<noteq> None"
    using s p by blast
  then show "parse_action_key key \<noteq> None" by (simp only: parse_action_key_Some_iff)
next
  assume "parse_action_key key \<noteq> None"
  then have "\<exists>a b c. split_on (CHR ''_'') key = [a, b, c]
        \<and> parse_int a \<noteq> None \<and> parse_int b \<noteq> None \<and> parse_int c \<noteq> None"
    by (simp only: parse_action_key_Some_iff)
  then obtain a b c where s: "split_on (CHR ''_'') key = [a, b, c]"
    and p: "parse_int a \<noteq> None" "parse_int b \<noteq> None" "parse_int c \<noteq> None"
    by blast
  have n: "integer_numeral a" "integer_numeral b" "integer_numeral c"
    using p by (simp_all only: parse_int_iff_numeral)
  have "key = a @ ''_'' @ b @ ''_'' @ c" using split_on_three[OF s] by simp
  then have "\<exists>a b c. key = a @ ''_'' @ b @ ''_'' @ c
        \<and> integer_numeral a \<and> integer_numeral b \<and> integer_numeral c"
    using n by blast
  then show "well_formed_key key" by (simp only: well_formed_key_def)
qed

lemma malformed_iff: "malformed key \<longleftrightarrow> parse_action_key key = None"
  unfolding malformed_def well_formed_key_iff by blast

text \<open>Malformed, by the fields: their number is not three, or one is not an integer.\<close>

lemma malformed_fields:
  "malformed key \<longleftrightarrow>
     length (split_on (CHR ''_'') key) \<noteq> 3
     \<or> (\<exists>part \<in> set (split_on (CHR ''_'') key). \<not> integer_numeral part)"
proof -
  obtain ps where ps: "split_on (CHR ''_'') key = ps" by simp
  have n: "\<not> integer_numeral part \<longleftrightarrow> parse_int part = None" for part
    using parse_int_iff_numeral[of part] by blast
  have "parse_action_key key = None \<longleftrightarrow>
      length ps \<noteq> 3 \<or> (\<exists>part \<in> set ps. parse_int part = None)"
    unfolding parse_action_key_def ps
    by (cases ps rule: list.exhaust; simp split: list.splits option.splits) auto
  then show ?thesis unfolding malformed_iff ps n .
qed

text \<open>Restoring a table: the rows are rebuilt entry by entry, in order; a row without
  entries is never created.\<close>

lemma update_absent: "k \<notin> fst ` set al \<Longrightarrow> AList.update k v al = al @ [(k, v)]"
  by (induction al) auto

lemma update_last: "k \<notin> fst ` set al \<Longrightarrow> AList.update k v (al @ [(k, w)]) = al @ [(k, v)]"
  by (induction al) auto

lemma map_of_last: "k \<notin> fst ` set al \<Longrightarrow> map_of (al @ [(k, w)]) k = Some w"
  by (induction al) auto

lemma table_setitem_last:
  assumes "sk \<notin> fst ` set t" and "ak \<notin> fst ` set acc"
  shows "table_setitem (t @ [(sk, acc)]) sk ak v = t @ [(sk, acc @ [(ak, v)])]"
proof -
  have m: "map_of (t @ [(sk, acc)]) sk = Some acc" by (rule map_of_last[OF assms(1)])
  have r: "row_getitem (t @ [(sk, acc)]) sk = (acc, t @ [(sk, acc)])"
    unfolding row_getitem_def m by simp
  show ?thesis
    unfolding table_setitem_def r
    by (simp add: update_last[OF assms(1)] update_absent[OF assms(2)])
qed

lemma table_setitem_new:
  assumes "sk \<notin> fst ` set t"
  shows "table_setitem t sk ak v = t @ [(sk, [(ak, v)])]"
proof -
  have "map_of t sk = None" using assms by (simp add: map_of_eq_None_iff)
  then show ?thesis using assms by (simp add: table_setitem_def row_getitem_def update_last)
qed

lemma fold_setitem_last:
  assumes "sk \<notin> fst ` set t" and "distinct (map fst (acc @ actions))"
  shows "fold (\<lambda>(ak, v) t. table_setitem t sk ak v) actions (t @ [(sk, acc)])
           = t @ [(sk, acc @ actions)]"
  using assms(2)
proof (induction actions arbitrary: acc)
  case Nil
  show ?case by simp
next
  case (Cons a actions)
  obtain ak v where a: "a = (ak, v)" by (cases a)
  have n: "ak \<notin> fst ` set acc" using Cons.prems by (auto simp: a)
  have d: "distinct (map fst ((acc @ [(ak, v)]) @ actions))" using Cons.prems by (simp add: a)
  show ?case
    using Cons.IH[OF d] by (simp add: a table_setitem_last[OF assms(1) n])
qed

lemma fold_setitem_new:
  assumes "sk \<notin> fst ` set t" and "distinct (map fst actions)"
  shows "fold (\<lambda>(ak, v) t. table_setitem t sk ak v) actions t
           = (if actions = [] then t else t @ [(sk, actions)])"
proof (cases actions)
  case Nil
  then show ?thesis by simp
next
  case (Cons a rest)
  obtain ak v where a: "a = (ak, v)" by (cases a)
  have d: "distinct (map fst ([(ak, v)] @ rest))" using assms(2) by (simp add: Cons a)
  show ?thesis
    using fold_setitem_last[OF assms(1) d]
    by (simp add: Cons a table_setitem_new[OF assms(1)])
qed

lemma fold_rows_exact:
  assumes "distinct (map fst (t @ data))"
    and "list_all (\<lambda>(state_key, actions). is_dict actions) data"
  shows "fold (\<lambda>(state_key, actions) t.
                 fold (\<lambda>(action_key, q_value) t. table_setitem t state_key action_key q_value)
                      actions t) data t
           = t @ filter (\<lambda>(state_key, actions). actions \<noteq> []) data"
  using assms
proof (induction data arbitrary: t)
  case Nil
  show ?case by simp
next
  case (Cons row data)
  obtain sk actions where row: "row = (sk, actions)" by (cases row)
  have n: "sk \<notin> fst ` set t" using Cons.prems(1) by (auto simp: row)
  have a: "distinct (map fst actions)" using Cons.prems(2) by (simp add: row is_dict_def)
  have r: "list_all (\<lambda>(state_key, actions). is_dict actions) data"
    using Cons.prems(2) by simp
  show ?case
  proof (cases "actions = []")
    case True
    have d: "distinct (map fst (t @ data))" using Cons.prems(1) by (simp add: row)
    show ?thesis using Cons.IH[OF d r] by (simp add: row True)
  next
    case False
    have d: "distinct (map fst ((t @ [(sk, actions)]) @ data))"
      using Cons.prems(1) by (simp add: row)
    show ?thesis
      using Cons.IH[OF d r] False by (simp add: row fold_setitem_new[OF n a])
  qed
qed

lemma load_q_table_exact:
  assumes "is_table data"
  shows "q_table (load_q_table self data)
           = filter (\<lambda>(state_key, actions). actions \<noteq> []) data"
proof -
  have d: "distinct (map fst ([] @ data))" using assms by (simp add: is_table_def is_dict_def)
  have r: "list_all (\<lambda>(state_key, actions). is_dict actions) data"
    using assms by (simp add: is_table_def)
  show ?thesis unfolding load_q_table_def using fold_rows_exact[OF d r] by simp
qed

text \<open>The key that \<^verbatim>\<open>max\<close> returns is the first of the keys with the largest value.\<close>

lemma max_key_loop_keep:
  "list_all (\<lambda>(k, q). q \<le> best_q) row \<Longrightarrow> max_key_loop best best_q row = best"
  by (induction row) auto

lemma max_key_loop_first_max:
  assumes "list_all (\<lambda>(k', q'). q' < q) before" and "best_q < q"
    and "list_all (\<lambda>(k', q'). q' \<le> q) after"
  shows "max_key_loop best best_q (before @ (key, q) # after) = key"
  using assms(1,2)
proof (induction before arbitrary: best best_q)
  case Nil
  then show ?case by (simp add: max_key_loop_keep[OF assms(3)])
next
  case (Cons e before)
  obtain k' q' where e: "e = (k', q')" by (cases e)
  have b: "list_all (\<lambda>(k', q'). q' < q) before" and q': "q' < q"
    using Cons.prems(1) by (simp_all add: e)
  show ?case
    using Cons.IH[OF b q'] Cons.IH[OF b Cons.prems(2)] by (simp add: e)
qed

lemma max_key_first_max:
  assumes "(k0, q0) # rest = before @ (key, q) # after"
    and "list_all (\<lambda>(k', q'). q' < q) before"
    and "list_all (\<lambda>(k', q'). q' \<le> q) after"
  shows "max_key_loop k0 q0 rest = key"
proof (cases before)
  case Nil
  then have "k0 = key" "q0 = q" "rest = after" using assms(1) by simp_all
  then show ?thesis by (simp add: max_key_loop_keep[OF assms(3)])
next
  case (Cons e before')
  then have e: "e = (k0, q0)" and rest: "rest = before' @ (key, q) # after"
    using assms(1) by simp_all
  have b: "list_all (\<lambda>(k', q'). q' < q) before'" and q0: "q0 < q"
    using assms(2) by (simp_all add: Cons e)
  show ?thesis unfolding rest by (rule max_key_loop_first_max[OF b q0 assms(3)])
qed

text \<open>The order of the recommendations: the entries of the row by decreasing estimate,
  entries with the same estimate in the order of the row.\<close>

lemma sorted_by_value_desc_ranking:
  "set (sorted_by_value_desc row) = set row"
  "length (sorted_by_value_desc row) = length row"
  "sorted (map (\<lambda>(k, q). - q) (sorted_by_value_desc row))"
  "filter (\<lambda>(k, q). q = v) (sorted_by_value_desc row) = filter (\<lambda>(k, q). q = v) row"
proof -
  let ?f = "\<lambda>(k, q). - q :: rat"
  show "set (sorted_by_value_desc row) = set row" by (simp add: sorted_by_value_desc_def)
  show "length (sorted_by_value_desc row) = length row" by (simp add: sorted_by_value_desc_def)
  show "sorted (map ?f (sorted_by_value_desc row))" by (simp add: sorted_by_value_desc_def)
  have p: "(\<lambda>(k, q). q = v) = (\<lambda>y. ?f y = - v)" by (auto simp: fun_eq_iff)
  show "filter (\<lambda>(k, q). q = v) (sorted_by_value_desc row) = filter (\<lambda>(k, q). q = v) row"
    unfolding p sorted_by_value_desc_def by (rule sort_key_stable)
qed

lemma recommendations_loop_eq:
  "recommendations_loop xs = List.map_filter well_formed_entry xs"
  by (induction xs rule: recommendations_loop.induct)
     (simp_all add: well_formed_entry_def split: option.splits)

lemma well_formed_entries:
  "List.map_filter well_formed_entry xs =
     map (\<lambda>(key, q). (action_of_key key, q)) (filter (\<lambda>(key, q). \<not> malformed key) xs)"
proof (induction xs)
  case Nil
  show ?case by (simp add: List.map_filter_simps)
next
  case (Cons x xs)
  obtain key q where x: "x = (key, q)" by (cases x)
  show ?case
    using Cons.IH
    by (cases "parse_action_key key")
       (auto simp: x List.map_filter_simps well_formed_entry_def malformed_iff action_of_key_def)
qed

lemma suggest_action_malformed:
  assumes "map_of (q_table self) (state_to_key state) = Some (before @ (key, q) # after)"
    and "list_all (\<lambda>(k', q'). q' < q) before"
    and "list_all (\<lambda>(k', q'). q' \<le> q) after"
    and "malformed key"
    and "\<not> rand_unit r < epsilon self"
  shows "suggest_action self state r =
           (get_baseline_action state,
            self\<lparr>last_state_key := Some (state_to_key state),
                 last_action_key := Some (action_to_key (get_baseline_action state))\<rparr>)"
proof -
  obtain k0 q0 rest where row: "before @ (key, q) # after = (k0, q0) # rest"
    by (cases "before @ (key, q) # after") auto
  have m: "max_key_loop k0 q0 rest = key"
    by (rule max_key_first_max[OF row[symmetric] assms(2,3)])
  have p: "parse_action_key key = None" using assms(4) by (simp only: malformed_iff)
  have "get_best_action self (state_to_key state) state = (get_baseline_action state, self)"
    using assms(1) by (simp add: get_best_action_def row_getitem_def row m p Let_def)
  then show ?thesis using assms(5) by (simp add: suggest_action_def Let_def)
qed

lemma get_action_recommendations_row:
  assumes "map_of (q_table self) (state_to_key state) = Some row" and "row \<noteq> []"
  shows "get_action_recommendations self state top_k =
     (let well_formed = filter (\<lambda>(key, q). \<not> malformed key)
                          (slice_to top_k (sorted_by_value_desc row))
      in if well_formed = [] then [(get_baseline_action state, 0)]
         else map (\<lambda>(key, q). (action_of_key key, q)) well_formed, self)"
  using assms
  by (simp add: get_action_recommendations_def row_getitem_def Let_def recommendations_loop_eq
      well_formed_entries)

text \<open>
  The range of the indices. With an index of magnitude \<open>10^300\<close> at most, every float
  that the undiscretisation computes stays below \<open>2^1024\<close>, where the model is
  binary64. The quotient \<^verbatim>\<open>10**400 / 29\<close> does not: Python raises \<^verbatim>\<open>OverflowError\<close>
  there, which the lookups do not catch.
\<close>

lemma fl_pow2: "- 1022 \<le> e \<Longrightarrow> fl (pow2 e) = pow2 e"
proof -
  assume e: "- 1022 \<le> e"
  have p: "pow2 e = of_int (2 ^ 52) * pow2 (e - 52)" using pow2_shift52[of e] by simp
  show ?thesis unfolding p by (rule fl_normal) (use e in simp_all)
qed

lemma fl_abs_le:
  assumes "\<bar>x\<bar> \<le> pow2 e" and "- 1022 \<le> e"
  shows "\<bar>fl x\<bar> \<le> pow2 e"
proof -
  have "fl x \<le> fl (pow2 e)" using assms(1) by (intro fl_mono) simp
  moreover have "fl (- pow2 e) \<le> fl x" using assms(1) by (intro fl_mono) simp
  ultimately show ?thesis by (simp add: fl_pow2[OF assms(2)] fl_neg)
qed

lemma undiscretize_chain:
  assumes "\<bar>x\<bar> \<le> pow2 1000" and "1 \<le> n" and "\<bar>w\<bar> \<le> 32" and "\<bar>lo\<bar> \<le> 32"
  shows "\<bar>fdiv x n\<bar> \<le> pow2 1000"
    and "\<bar>fmul (fdiv x n) w\<bar> \<le> pow2 1005"
    and "\<bar>fadd lo (fmul (fdiv x n) w)\<bar> \<le> pow2 1006"
proof -
  have p: "0 < pow2 1000" by (rule pow2_pos)
  have p5: "pow2 1005 = 32 * pow2 1000" using pow2_add[of 5 1000] by (simp add: pow2_def)
  have p6: "pow2 1006 = 64 * pow2 1000" using pow2_add[of 6 1000] by (simp add: pow2_def)
  have "pow2 0 \<le> pow2 1000" by (rule pow2_mono) simp
  then have p1: "1 \<le> pow2 1000" by (simp add: pow2_def)
  have "\<bar>x / n\<bar> = \<bar>x\<bar> / n" using assms(2) by simp
  also have "\<dots> \<le> \<bar>x\<bar>"
  proof -
    have "\<bar>x\<bar> * 1 \<le> \<bar>x\<bar> * n" using assms(2) by (intro mult_left_mono) simp_all
    then show ?thesis using assms(2) by (simp add: divide_le_eq)
  qed
  finally have "\<bar>x / n\<bar> \<le> pow2 1000" using assms(1) by simp
  then show q: "\<bar>fdiv x n\<bar> \<le> pow2 1000" unfolding fdiv_def by (rule fl_abs_le) simp
  have "\<bar>fdiv x n * w\<bar> = \<bar>fdiv x n\<bar> * \<bar>w\<bar>" by (rule abs_mult)
  also have "\<dots> \<le> pow2 1000 * 32" using q assms(3) by (intro mult_mono) simp_all
  finally have "\<bar>fdiv x n * w\<bar> \<le> pow2 1005" by (simp add: p5)
  then show m: "\<bar>fmul (fdiv x n) w\<bar> \<le> pow2 1005" unfolding fmul_def by (rule fl_abs_le) simp
  have "\<bar>lo + fmul (fdiv x n) w\<bar> \<le> \<bar>lo\<bar> + \<bar>fmul (fdiv x n) w\<bar>" by (rule abs_triangle_ineq)
  also have "\<dots> \<le> 32 * pow2 1000 + 32 * pow2 1000" using assms(4) m p1 unfolding p5
    by (intro add_mono) (simp_all add: order_trans[OF assms(4)])
  finally have "\<bar>lo + fmul (fdiv x n) w\<bar> \<le> pow2 1006" by (simp add: p6)
  then show "\<bar>fadd lo (fmul (fdiv x n) w)\<bar> \<le> pow2 1006" unfolding fadd_def
    by (rule fl_abs_le) simp
qed

lemma in_float_range_bound: "in_float_range idx \<Longrightarrow> \<bar>of_int idx :: rat\<bar> \<le> pow2 1000"
proof -
  assume "in_float_range idx"
  then have "\<bar>idx\<bar> \<le> 10 ^ 300" by (simp add: in_float_range_def)
  then have "(of_int \<bar>idx\<bar> :: rat) \<le> of_int (10 ^ 300)" by (simp only: of_int_le_iff)
  then have "\<bar>of_int idx :: rat\<bar> \<le> 10 ^ 300" by simp
  also have "(10 ^ 300 :: rat) \<le> pow2 1000" by (simp add: pow2_def)
  finally show ?thesis .
qed

lemma float_range_suffices:
  assumes "in_float_range idx"
  shows "\<bar>fdiv (of_int idx) 29\<bar> < pow2 1024"
    and "\<bar>fmul (fdiv (of_int idx) 29) 29\<bar> < pow2 1024"
    and "\<bar>fadd 1 (fmul (fdiv (of_int idx) 29) 29)\<bar> < pow2 1024"
    and "\<bar>fdiv (of_int idx) 9\<bar> < pow2 1024"
    and "\<bar>fmul (fdiv (of_int idx) 9) 25\<bar> < pow2 1024"
    and "\<bar>undiscretize_volume idx\<bar> < pow2 1024"
    and "\<bar>fmul (fdiv (of_int idx) 9) 10\<bar> < pow2 1024"
    and "\<bar>undiscretize_dose idx\<bar> < pow2 1024"
proof -
  note b = in_float_range_bound[OF assms]
  have l0: "pow2 1000 < pow2 1024" by (rule pow2_strict_mono) simp
  have l5: "pow2 1005 < pow2 1024" by (rule pow2_strict_mono) simp
  have l6: "pow2 1006 < pow2 1024" by (rule pow2_strict_mono) simp
  note g = undiscretize_chain[OF b, of 29 29 1]
  note v = undiscretize_chain[OF b, of 9 25 25]
  note d = undiscretize_chain[OF b, of 9 10 15]
  show "\<bar>fdiv (of_int idx) 29\<bar> < pow2 1024" using g(1) l0 by simp
  show "\<bar>fmul (fdiv (of_int idx) 29) 29\<bar> < pow2 1024" using g(2) l5 by simp
  show "\<bar>fadd 1 (fmul (fdiv (of_int idx) 29) 29)\<bar> < pow2 1024" using g(3) l6 by simp
  show "\<bar>fdiv (of_int idx) 9\<bar> < pow2 1024" using v(1) l0 by simp
  show "\<bar>fmul (fdiv (of_int idx) 9) 25\<bar> < pow2 1024" using v(2) l5 by simp
  show "\<bar>undiscretize_volume idx\<bar> < pow2 1024"
    unfolding undiscretize_volume_unfold using v(3) l6 by simp
  show "\<bar>fmul (fdiv (of_int idx) 9) 10\<bar> < pow2 1024" using d(2) l5 by simp
  show "\<bar>undiscretize_dose idx\<bar> < pow2 1024"
    unfolding undiscretize_dose_unfold using d(3) l6 by simp
qed

lemma huge_index_overflows: "pow2 1024 \<le> fdiv (of_int (10 ^ 400)) 29"
proof -
  have "pow2 1024 \<le> (10 ^ 400 / 29 :: rat)" by (simp add: pow2_def)
  then have "fl (pow2 1024) \<le> fl (10 ^ 400 / 29)" by (rule fl_mono)
  then show ?thesis by (simp add: fdiv_def fl_pow2)
qed

text \<open>
  C8, as the code has it. \<open>load_q_table\<close> stores every entry of the table it is given,
  whatever its action key looks like: the restored table is the given one without its
  empty rows. In the exploit branch of \<open>suggest_action\<close>, when the first key with the
  largest estimate of the row is malformed (it is not three integers joined by
  underscores), the baseline action is returned and recorded in the cursor.
  \<open>get_action_recommendations\<close> leaves out the malformed keys among the first \<open>top_k\<close>
  entries in the order of the estimates and returns the actions of the others in that
  order; it returns the baseline action with 0 only when all of them are malformed.
  The agent is as it was after the second lookup, and but for the cursor after the
  first. The keys that a lookup parses are keys of the model: ASCII, and with indices
  in the range of the floats (\<open>is_ascii\<close>, \<open>key_in_model\<close>).
\<close>

theorem malformed_keys_degrade:
  "(is_table data \<longrightarrow>
      q_table (load_q_table old data) = filter (\<lambda>(state_key, actions). actions \<noteq> []) data)
   \<and> (map_of (q_table self) (state_to_key state) = Some (before @ (key, q) # after)
        \<and> list_all (\<lambda>(k', q'). q' < q) before \<and> list_all (\<lambda>(k', q'). q' \<le> q) after
        \<and> is_ascii key \<and> malformed key \<and> \<not> rand_unit r < epsilon self
      \<longrightarrow> suggest_action self state r =
            (get_baseline_action state,
             self\<lparr>last_state_key := Some (state_to_key state),
                  last_action_key := Some (action_to_key (get_baseline_action state))\<rparr>))
   \<and> (map_of (q_table self) (state_to_key state) = Some row \<and> row \<noteq> []
        \<and> list_all (\<lambda>(key, q). key_in_model key) (slice_to top_k (sorted_by_value_desc row))
      \<longrightarrow> get_action_recommendations self state top_k =
            (let well_formed = filter (\<lambda>(key, q). \<not> malformed key)
                                 (slice_to top_k (sorted_by_value_desc row))
             in if well_formed = [] then [(get_baseline_action state, 0)]
                else map (\<lambda>(key, q). (action_of_key key, q)) well_formed,
             self))"
  using load_q_table_exact[of data old]
    suggest_action_malformed[of self state before key q after r]
    get_action_recommendations_row[of self state row top_k]
  by blast

lemma malformed_row_agent_table:
  "q_table malformed_row_agent = [(''True_3'', [(''bad'', 1), (''0_3_0'', 1 / 2)])]"
  by (simp add: malformed_row_agent_def load_q_table_def table_setitem_def row_getitem_def)

lemma parse_action_key_bad: "parse_action_key ''bad'' = None"
  by (simp add: parse_action_key_def parse_int_def strip_def is_space_def parse_unsigned_def
      is_digit_def)

lemma malformed_bad: "malformed ''bad''"
  by (simp add: malformed_iff parse_action_key_bad)

lemma well_formed_0_3_0: "\<not> malformed ''0_3_0''"
  by (simp add: malformed_iff parse_action_key_0_3_0)

lemma keys_in_model: "key_in_model ''bad''" "key_in_model ''0_3_0''"
  by (simp_all add: key_in_model_def is_ascii_def parse_action_key_bad parse_action_key_0_3_0
      in_float_range_def)

lemma sorted_malformed_row:
  "slice_to 3 (sorted_by_value_desc [(''bad'', 1), (''0_3_0'', 1 / 2)])
     = [(''bad'', 1), (''0_3_0'', 1 / 2)]"
  by (simp add: slice_to_def sorted_by_value_desc_def)

lemma recommendations_malformed_row:
  "get_action_recommendations malformed_row_agent example_state 3
     = ([(action_from_indices 0 3 0, 1 / 2)], malformed_row_agent)"
  by (simp add: get_action_recommendations_row[where row = "[(''bad'', 1), (''0_3_0'', 1 / 2)]"]
      malformed_row_agent_table state_to_key_example sorted_malformed_row
      malformed_bad well_formed_0_3_0 action_of_key_def parse_action_key_0_3_0)

text \<open>
  C8 as stated fails for \<open>get_action_recommendations\<close>: the row holds the malformed key
  \<^verbatim>\<open>"bad"\<close> with the largest estimate and the key \<^verbatim>\<open>"0_3_0"\<close>; the lookup selects both, and
  the result is the action of \<^verbatim>\<open>"0_3_0"\<close> alone, not the baseline action. And a lookup
  that selects a malformed entry can raise: next to a key whose grind index is
  \<open>10^400\<close>, an integer, the loop goes on to the quotient \<^verbatim>\<open>idx / 29\<close>, which is no
  float (it is \<open>2^1024\<close> or more), and Python raises \<^verbatim>\<open>OverflowError\<close>.
\<close>

theorem recommendations_skip_malformed:
  "malformed ''bad''
   \<and> map_of (q_table malformed_row_agent) (state_to_key example_state)
        = Some [(''bad'', 1), (''0_3_0'', 1 / 2)]
   \<and> slice_to 3 (sorted_by_value_desc [(''bad'', 1), (''0_3_0'', 1 / 2)])
        = [(''bad'', 1), (''0_3_0'', 1 / 2)]
   \<and> fst (get_action_recommendations malformed_row_agent example_state 3)
       = [(\<lparr>grind_size = 1, brew_volume = 2345624805922133 / 70368744177664,
            coffee_dose = 15\<rparr>, 1 / 2)]
   \<and> get_baseline_action example_state
       = \<lparr>grind_size = 15, brew_volume = 40, coffee_dose = 18\<rparr>
   \<and> get_baseline_action example_state
       \<notin> fst ` set (fst (get_action_recommendations malformed_row_agent example_state 3))
   \<and> \<not> in_float_range (10 ^ 400)
   \<and> pow2 1024 \<le> fdiv (of_int (10 ^ 400)) 29"
  using huge_index_overflows
  by (simp add: malformed_bad malformed_row_agent_table state_to_key_example
      sorted_malformed_row recommendations_malformed_row action_from_indices_0_3_0
      get_baseline_action_def in_float_range_def)

theorem malformed_keys_degrade_witness:
  "is_table [(''True_3'', [(''bad'', 1), (''0_3_0'', 1 / 2)])]
   \<and> q_table (load_q_table default_agent [(''True_3'', [(''bad'', 1), (''0_3_0'', 1 / 2)])])
       = [(''True_3'', [(''bad'', 1), (''0_3_0'', 1 / 2)])]
   \<and> map_of (q_table malformed_row_agent) (state_to_key example_state)
        = Some ([] @ (''bad'', 1) # [(''0_3_0'', 1 / 2)])
   \<and> is_ascii ''bad'' \<and> malformed ''bad''
   \<and> \<not> rand_unit example_draws < epsilon malformed_row_agent
   \<and> suggest_action malformed_row_agent example_state example_draws
       = (get_baseline_action example_state,
          malformed_row_agent\<lparr>last_state_key := Some ''True_3'',
                              last_action_key := Some ''14_5_2''\<rparr>)
   \<and> list_all (\<lambda>(key, q). key_in_model key)
        (slice_to 3 (sorted_by_value_desc [(''bad'', 1), (''0_3_0'', 1 / 2)]))
   \<and> get_action_recommendations malformed_row_agent example_state 3
       = ([(action_from_indices 0 3 0, 1 / 2)], malformed_row_agent)"
proof -
  let ?row = "[(''bad'', 1), (''0_3_0'', 1 / 2 :: rat)]"
  let ?data = "[(''True_3'', ?row)]"
  have t: "is_table ?data" by (simp add: is_table_def is_dict_def)
  have m: "map_of (q_table malformed_row_agent) (state_to_key example_state)
      = Some ([] @ (''bad'', 1) # [(''0_3_0'', 1 / 2)])"
    by (simp add: malformed_row_agent_table state_to_key_example)
  have b: "list_all (\<lambda>(k', q'). q' < (1 :: rat)) ([] :: (string \<times> rat) list)"
    and a: "list_all (\<lambda>(k', q'). q' \<le> (1 :: rat)) [(''0_3_0'', 1 / 2)]"
    by simp_all
  have i: "is_ascii ''bad''" by (simp add: is_ascii_def)
  have e: "\<not> rand_unit example_draws < epsilon malformed_row_agent"
    using exploit_example by (simp add: malformed_row_agent_def load_q_table_def)
  have m': "map_of (q_table malformed_row_agent) (state_to_key example_state) = Some ?row"
    using m by simp
  have n: "?row \<noteq> []" by simp
  have k: "list_all (\<lambda>(key, q). key_in_model key) (slice_to 3 (sorted_by_value_desc ?row))"
    by (simp add: sorted_malformed_row keys_in_model)
  have k0: "action_of_key ''0_3_0'' = action_from_indices 0 3 0"
    by (simp add: action_of_key_def parse_action_key_0_3_0)
  show ?thesis
    using malformed_keys_degrade[of ?data default_agent malformed_row_agent example_state
        "[]" "''bad''" 1 "[(''0_3_0'', 1 / 2)]" example_draws ?row 3]
      t m b a i malformed_bad e m' n k
    by (simp add: malformed_row_agent_def[symmetric] malformed_row_agent_table
        sorted_malformed_row well_formed_0_3_0 k0 state_to_key_example action_to_key_baseline)
qed



section \<open>The decay of epsilon\<close>

lemma double_below_one:
  assumes "is_double d" and "0 < d" and "d < 1"
  shows "d \<le> 1 - 1 / 2 ^ 53"
proof -
  have d0: "d \<noteq> 0" using assms(2) by simp
  have "pow2 (expo d) < pow2 0" using expo_bounds(1)[OF d0] assms(2,3) by (simp add: pow2_def)
  then have e: "expo d < 0" by (rule pow2_less_cancel)
  show ?thesis
  proof (cases "expo d = - 1")
    case True
    let ?s = "pow2 (- 53)"
    let ?n = "round_half_even (d / ?s)"
    have s: "?s = 1 / 2 ^ 53" by (simp add: pow2_def)
    have f: "d = of_int ?n * ?s"
      using assms(1) fl_pos_eq[OF d0] True by (simp add: is_double_def)
    have "of_int ?n * ?s < 1" using assms(3) f by simp
    then have "(of_int ?n :: rat) < of_int (2 ^ 53)" by (simp add: s)
    then have "?n < 2 ^ 53" by (simp only: of_int_less_iff)
    then have "?n \<le> 2 ^ 53 - 1" by simp
    then have "(of_int ?n :: rat) \<le> of_int (2 ^ 53 - 1)" by (simp only: of_int_le_iff)
    then have "of_int ?n * ?s \<le> of_int (2 ^ 53 - 1) * ?s" by (simp add: s)
    also have "\<dots> = 1 - 1 / 2 ^ 53" by (simp add: s)
    finally show ?thesis using f by simp
  next
    case False
    then have "expo d + 1 \<le> - 1" using e by simp
    then have "pow2 (expo d + 1) \<le> pow2 (- 1)" by (rule pow2_mono)
    then have "d < 1 / 2" using expo_bounds(2)[OF d0] assms(2) by (simp add: pow2_def)
    then show ?thesis by simp
  qed
qed

lemma fl_upper:
  assumes "pow2 (- 1022) \<le> x"
  shows "fl x \<le> x * (1 + 1 / 2 ^ 53)"
proof -
  have "fl x - x \<le> \<bar>fl x - x\<bar>" by simp
  also have "\<dots> \<le> x / 2 ^ 53" by (rule fl_err_pos[OF assms])
  finally show ?thesis by (simp add: field_simps)
qed

lemma fl_min_normal: "fl (pow2 (- 1022)) = pow2 (- 1022)"
proof -
  have e: "pow2 (- 1022) = of_int (2 ^ 52) * pow2 (- 1074)"
    using pow2_shift52[of "- 1022"] by simp
  show ?thesis unfolding e by (rule fl_normal) simp_all
qed

lemma contraction_bounds: "0 < contraction" "contraction < 1"
  by (simp_all add: contraction_def)

lemma fmul_contracts:
  assumes "is_double d" and "0 < d" and "d < 1" and "pow2 (- 1022) \<le> x * d"
  shows "fmul x d \<le> x * contraction"
proof -
  have "0 < x * d" using assms(4) pow2_pos[of "- 1022"] by simp
  then have xpos: "0 < x" using assms(2) by (simp add: zero_less_mult_iff)
  have "fmul x d \<le> (x * d) * (1 + 1 / 2 ^ 53)" unfolding fmul_def by (rule fl_upper[OF assms(4)])
  also have "\<dots> = x * (d * (1 + 1 / 2 ^ 53))" by simp
  also have "\<dots> \<le> x * ((1 - 1 / 2 ^ 53) * (1 + 1 / 2 ^ 53))"
    using double_below_one[OF assms(1-3)] xpos by (simp add: mult_left_mono mult_right_mono)
  also have "\<dots> = x * contraction" by (simp add: contraction_def)
  finally show ?thesis .
qed

lemma decay_step_lower: "m \<le> decay_step m d x"
  by (simp add: decay_step_def)

text \<open>A product below the normal range rounds to \<open>2^-1022\<close> at most, which the maximum
  with \<open>m\<close> replaces by \<open>m\<close>; a product in the normal range has shrunk.\<close>

lemma decay_step_upper:
  assumes "is_double d" and "0 < d" and "d < 1" and "pow2 (- 1022) \<le> m"
    and "x \<le> max m b" and "0 \<le> b"
  shows "decay_step m d x \<le> max m (b * contraction)"
proof (cases "pow2 (- 1022) \<le> x * d")
  case True
  have mpos: "0 < m" using assms(4) pow2_pos[of "- 1022"] by simp
  have "fmul x d \<le> x * contraction" by (rule fmul_contracts[OF assms(1-3) True])
  also have "\<dots> \<le> max m b * contraction"
    using assms(5) contraction_bounds(1) by (simp add: mult_right_mono)
  also have "\<dots> \<le> max m (b * contraction)"
  proof (cases "m \<le> b")
    case True
    then show ?thesis by (simp add: max_def)
  next
    case False
    then have "max m b = m" by (simp add: max_def)
    moreover have "m * contraction \<le> m" using mpos contraction_bounds(2) by simp
    ultimately show ?thesis by simp
  qed
  finally show ?thesis by (simp add: decay_step_def)
next
  case False
  then have "x * d \<le> pow2 (- 1022)" by simp
  then have "fl (x * d) \<le> fl (pow2 (- 1022))" by (rule fl_mono)
  then have "fmul x d \<le> m" using assms(4) by (simp add: fmul_def fl_min_normal)
  then show ?thesis by (simp add: decay_step_def)
qed

lemma decay_iterate_upper:
  assumes "is_double d" and "0 < d" and "d < 1" and "pow2 (- 1022) \<le> m"
  shows "(decay_step m d ^^ n) x \<le> max m (\<bar>x\<bar> * contraction ^ n)"
proof (induction n)
  case 0
  have "x \<le> \<bar>x\<bar>" by simp
  then show ?case by (simp add: le_max_iff_disj)
next
  case (Suc n)
  have "0 \<le> \<bar>x\<bar> * contraction ^ n" using contraction_bounds(1) by simp
  from decay_step_upper[OF assms Suc.IH this]
  show ?case by (simp add: mult_ac)
qed

lemma decay_iterate_lower: "0 < n \<Longrightarrow> m \<le> (decay_step m d ^^ n) x"
  by (cases n) (simp_all add: decay_step_lower)

lemma power_below:
  assumes "0 < (y::rat)"
  shows "\<exists>n. contraction ^ n < y"
proof -
  have "0 < (of_rat y :: real)" using assms by simp
  moreover have "(of_rat contraction :: real) < 1"
    using contraction_bounds(2) by (metis of_rat_1 of_rat_less)
  ultimately obtain n where "(of_rat contraction :: real) ^ n < of_rat y"
    using real_arch_pow_inv by blast
  then have "(of_rat (contraction ^ n) :: real) < of_rat y" by (simp add: of_rat_power)
  then have "contraction ^ n < y" by (simp only: of_rat_less)
  then show ?thesis ..
qed

lemma decay_iterate_reaches:
  assumes "is_double d" and "0 < d" and "d < 1" and "pow2 (- 1022) \<le> m"
  shows "\<exists>N. \<forall>n\<ge>N. (decay_step m d ^^ n) x = m"
proof -
  have mpos: "0 < m" using assms(4) pow2_pos[of "- 1022"] by simp
  then have "0 < m / (\<bar>x\<bar> + 1)" by simp
  then obtain N where N: "contraction ^ N < m / (\<bar>x\<bar> + 1)" using power_below by blast
  have "(decay_step m d ^^ n) x = m" if "Suc N \<le> n" for n
  proof -
    have "contraction ^ n \<le> contraction ^ N"
      using that contraction_bounds by (intro power_decreasing) simp_all
    then have "contraction ^ n < m / (\<bar>x\<bar> + 1)" using N by simp
    then have "(\<bar>x\<bar> + 1) * contraction ^ n < m" by (simp add: field_simps)
    moreover have "\<bar>x\<bar> * contraction ^ n \<le> (\<bar>x\<bar> + 1) * contraction ^ n"
      using contraction_bounds(1) by (simp add: mult_right_mono)
    ultimately have "\<bar>x\<bar> * contraction ^ n \<le> m" by simp
    then have "(decay_step m d ^^ n) x \<le> m"
      using decay_iterate_upper[OF assms, of n x] by (simp add: max_def split: if_splits)
    moreover have "m \<le> (decay_step m d ^^ n) x" using that by (intro decay_iterate_lower) simp
    ultimately show ?thesis by simp
  qed
  then show ?thesis by blast
qed

lemma learn_pending:
  assumes "last_state_key self = Some sk" and "last_action_key self = Some ak"
  shows "epsilon (learn_from_evaluation self ev)
           = decay_step (min_epsilon self) (epsilon_decay self) (epsilon self)"
    and "last_state_key (learn_from_evaluation self ev) = Some sk"
    and "last_action_key (learn_from_evaluation self ev) = Some ak"
    and "min_epsilon (learn_from_evaluation self ev) = min_epsilon self"
    and "epsilon_decay (learn_from_evaluation self ev) = epsilon_decay self"
  using assms
  by (simp_all add: learn_from_evaluation_def decay_step_def Let_def split: prod.splits)

lemma learn_all_epsilon:
  assumes "last_state_key self = Some sk" and "last_action_key self = Some ak"
  shows "epsilon (learn_all self evs)
           = (decay_step (min_epsilon self) (epsilon_decay self) ^^ length evs) (epsilon self)"
  using assms
proof (induction evs arbitrary: self)
  case Nil
  show ?case by (simp add: learn_all_def)
next
  case (Cons ev evs)
  let ?s = "learn_from_evaluation self ev"
  note p = learn_pending[OF Cons.prems, of ev]
  have "epsilon (learn_all self (ev # evs)) = epsilon (learn_all ?s evs)"
    by (simp add: learn_all_def)
  also have "\<dots> = (decay_step (min_epsilon ?s) (epsilon_decay ?s) ^^ length evs) (epsilon ?s)"
    by (rule Cons.IH[OF p(2) p(3)])
  also have "\<dots> = (decay_step (min_epsilon self) (epsilon_decay self) ^^ length (ev # evs))
      (epsilon self)"
    by (simp add: p(1) p(4) p(5) funpow_swap1)
  finally show ?case .
qed

text \<open>
  C5, as the code has it. With a pending cursor, \<open>learn_from_evaluation\<close> sets epsilon
  to \<open>max min_epsilon (epsilon * epsilon_decay)\<close>, the product rounded as a float. When
  the decay is a double in \<open>(0, 1)\<close> and the minimum is at least \<open>2^-1022\<close>, the smallest
  positive normal double (about 2.2e-308), there is a number of calls from which on
  epsilon equals the minimum, whatever the evaluations are: a float product in the
  normal range shrinks by the factor \<open>contraction\<close> at least, and a product below it is
  replaced by the minimum. Epsilon is any finite number.
\<close>

theorem epsilon_decays_to_minimum:
  assumes "last_state_key self = Some sk" and "last_action_key self = Some ak"
  shows "epsilon (learn_from_evaluation self ev)
           = max (min_epsilon self) (fmul (epsilon self) (epsilon_decay self))
         \<and> (is_double (epsilon_decay self) \<and> 0 < epsilon_decay self \<and> epsilon_decay self < 1
              \<and> pow2 (- 1022) \<le> min_epsilon self
            \<longrightarrow> (\<exists>N. \<forall>evs. N \<le> length evs \<longrightarrow>
                   epsilon (learn_all self evs) = min_epsilon self))"
proof -
  have a: "epsilon (learn_from_evaluation self ev)
      = max (min_epsilon self) (fmul (epsilon self) (epsilon_decay self))"
    using learn_pending(1)[OF assms] by (simp add: decay_step_def)
  have b: "\<exists>N. \<forall>evs. N \<le> length evs \<longrightarrow> epsilon (learn_all self evs) = min_epsilon self"
    if "is_double (epsilon_decay self)" "0 < epsilon_decay self" "epsilon_decay self < 1"
      "pow2 (- 1022) \<le> min_epsilon self"
  proof -
    from decay_iterate_reaches[OF that, of "epsilon self"]
    obtain N where "\<forall>n\<ge>N. (decay_step (min_epsilon self) (epsilon_decay self) ^^ n) (epsilon self)
        = min_epsilon self" ..
    then have "\<forall>evs. N \<le> length evs \<longrightarrow> epsilon (learn_all self evs) = min_epsilon self"
      by (simp add: learn_all_epsilon[OF assms])
    then show ?thesis ..
  qed
  show ?thesis using a b by blast
qed

theorem epsilon_decays_to_minimum_witness:
  "last_state_key pending_agent = Some ''True_3''
   \<and> last_action_key pending_agent = Some ''14_5_2''
   \<and> is_double (epsilon_decay pending_agent)
   \<and> 0 < epsilon_decay pending_agent \<and> epsilon_decay pending_agent < 1
   \<and> pow2 (- 1022) \<le> min_epsilon pending_agent
   \<and> epsilon (learn_from_evaluation pending_agent example_evaluation)
       = max (min_epsilon pending_agent) (fmul (epsilon pending_agent) (epsilon_decay pending_agent))
   \<and> (\<exists>N. \<forall>evs. N \<le> length evs \<longrightarrow>
          epsilon (learn_all pending_agent evs) = min_epsilon pending_agent)"
proof -
  have s: "last_state_key pending_agent = Some ''True_3''"
    and a: "last_action_key pending_agent = Some ''14_5_2''"
    by (simp_all add: pending_agent_eq)
  have d: "epsilon_decay pending_agent = fl (199 / 200)"
    and m: "min_epsilon pending_agent = fl (1 / 100)"
    by (simp_all add: pending_agent_eq default_agent_def BrewingAgent_init_def)
  have h1: "is_double (epsilon_decay pending_agent)" unfolding d by (rule is_double_fl)
  have h: "0 < epsilon_decay pending_agent" "epsilon_decay pending_agent < 1"
    unfolding d by (simp_all add: fl_decay_value)
  have "pow2 (- 1022) \<le> pow2 (- 7)" by (rule pow2_mono) simp
  also have "\<dots> \<le> min_epsilon pending_agent" unfolding m by (simp add: fl_hundredth pow2_def)
  finally have h2: "pow2 (- 1022) \<le> min_epsilon pending_agent" .
  show ?thesis
    using epsilon_decays_to_minimum[OF s a, of example_evaluation] s a h1 h h2 by blast
qed

lemma fmul_default_decay:
  "fmul (3602879701896397 / 36028797018963968) (8962163258467287 / 9007199254740992)
     = 3584865303386915 / 36028797018963968"
  unfolding fmul_def
  by (rule fl_cert[where k = "- 56" and n = 7169730606773830]) (simp_all add: pow2_def)

text \<open>
  Below the normal range the product can round back to epsilon. The agent built with
  \<^verbatim>\<open>epsilon=1e-323\<close> and \<^verbatim>\<open>min_epsilon=5e-324\<close> (the doubles \<open>2 * 2^-1074\<close> and \<open>2^-1074\<close>) and
  the default decay keeps its epsilon in every learning step: the product
  \<open>2 * 2^-1074 * 0.995\<close> lies nearer to \<open>2 * 2^-1074\<close> than to \<open>2^-1074\<close>.
\<close>

lemma fl_literal_1e_323: "fl (1 / 10 ^ 323) = 2 * pow2 (- 1074)"
  by (rule fl_cert_subnormal[where n = 2]) (simp_all add: pow2_def)

lemma fl_literal_5e_324: "fl (5 / 10 ^ 324) = pow2 (- 1074)"
  by (rule fl_cert_subnormal[where n = 1]) (simp_all add: pow2_def)

lemma fmul_tiny_decay:
  "fmul (2 * pow2 (- 1074)) (8962163258467287 / 9007199254740992) = 2 * pow2 (- 1074)"
  unfolding fmul_def
  by (rule fl_cert_subnormal[where n = 2]) (simp_all add: pow2_def)

lemma tiny_pending_agent_eq:
  "tiny_pending_agent = tiny_epsilon_agent\<lparr>q_table := [(''True_3'', [])],
      last_state_key := Some ''True_3'', last_action_key := Some ''14_5_2''\<rparr>"
proof -
  have "pow2 (- 1074) \<le> pow2 (- 2)" by (rule pow2_mono) simp
  then have "\<not> (1 / 2 :: rat) < 2 * pow2 (- 1074)" by (simp add: pow2_def)
  then show ?thesis
    by (simp add: tiny_pending_agent_def suggest_action_def get_best_action_def row_getitem_def
        Let_def state_to_key_example action_to_key_baseline tiny_epsilon_agent_def
        BrewingAgent_init_def example_draws_def)
qed

lemma decay_step_tiny:
  "decay_step (pow2 (- 1074)) (8962163258467287 / 9007199254740992) (2 * pow2 (- 1074))
     = 2 * pow2 (- 1074)"
  using pow2_pos[of "- 1074"] by (simp add: decay_step_def fmul_tiny_decay)

lemma tiny_epsilon_never_decays:
  "epsilon (learn_all tiny_pending_agent evs) = 2 * pow2 (- 1074)"
proof -
  have s: "last_state_key tiny_pending_agent = Some ''True_3''"
    and a: "last_action_key tiny_pending_agent = Some ''14_5_2''"
    by (simp_all add: tiny_pending_agent_eq)
  have f: "(decay_step (pow2 (- 1074)) (8962163258467287 / 9007199254740992) ^^ n)
      (2 * pow2 (- 1074)) = 2 * pow2 (- 1074)" for n
    by (induction n) (simp_all add: decay_step_tiny)
  show ?thesis
    unfolding learn_all_epsilon[OF s a]
    by (simp add: tiny_pending_agent_eq tiny_epsilon_agent_def BrewingAgent_init_def
        fl_decay_value f)
qed

text \<open>
  C5 as stated fails twice. Without a pending cursor: for the fresh default agent a
  call of \<open>learn_from_evaluation\<close> leaves epsilon at \<^verbatim>\<open>0.1\<close>, which is not
  \<open>max min_epsilon (epsilon * epsilon_decay)\<close>, about 0.0995. And with a pending cursor,
  a decay in \<open>(0, 1)\<close> and a positive minimum, epsilon need not reach the minimum: the
  agent built with \<^verbatim>\<open>epsilon=1e-323\<close> and \<^verbatim>\<open>min_epsilon=5e-324\<close> keeps its epsilon in a
  learning step, and so in every one that follows (\<open>tiny_epsilon_never_decays\<close>).
\<close>

theorem learn_without_cursor_keeps_epsilon:
  "last_state_key default_agent = None
   \<and> epsilon (learn_from_evaluation default_agent example_evaluation)
       = 3602879701896397 / 36028797018963968
   \<and> max (min_epsilon default_agent) (fmul (epsilon default_agent) (epsilon_decay default_agent))
       = 3584865303386915 / 36028797018963968
   \<and> epsilon (learn_from_evaluation default_agent example_evaluation)
       \<noteq> max (min_epsilon default_agent)
             (fmul (epsilon default_agent) (epsilon_decay default_agent))
   \<and> last_state_key tiny_pending_agent = Some ''True_3''
   \<and> last_action_key tiny_pending_agent = Some ''14_5_2''
   \<and> is_double (epsilon_decay tiny_pending_agent)
   \<and> 0 < epsilon_decay tiny_pending_agent \<and> epsilon_decay tiny_pending_agent < 1
   \<and> 0 < min_epsilon tiny_pending_agent
   \<and> epsilon (learn_from_evaluation tiny_pending_agent example_evaluation)
       = epsilon tiny_pending_agent
   \<and> min_epsilon (learn_from_evaluation tiny_pending_agent example_evaluation)
       < epsilon (learn_from_evaluation tiny_pending_agent example_evaluation)"
proof -
  have c: "last_state_key default_agent = None
     \<and> epsilon (learn_from_evaluation default_agent example_evaluation)
         = 3602879701896397 / 36028797018963968
     \<and> max (min_epsilon default_agent) (fmul (epsilon default_agent) (epsilon_decay default_agent))
         = 3584865303386915 / 36028797018963968
     \<and> epsilon (learn_from_evaluation default_agent example_evaluation)
         \<noteq> max (min_epsilon default_agent)
               (fmul (epsilon default_agent) (epsilon_decay default_agent))"
    by (simp add: learn_from_evaluation_def default_agent_def BrewingAgent_init_def fl_tenth
        fl_decay_value fl_hundredth fmul_default_decay)
  have s: "last_state_key tiny_pending_agent = Some ''True_3''"
    and a: "last_action_key tiny_pending_agent = Some ''14_5_2''"
    by (simp_all add: tiny_pending_agent_eq)
  have d: "epsilon_decay tiny_pending_agent = fl (199 / 200)"
    and m: "min_epsilon tiny_pending_agent = pow2 (- 1074)"
    and e: "epsilon tiny_pending_agent = 2 * pow2 (- 1074)"
    by (simp_all add: tiny_pending_agent_eq tiny_epsilon_agent_def BrewingAgent_init_def)
  have h1: "is_double (epsilon_decay tiny_pending_agent)" unfolding d by (rule is_double_fl)
  have h: "0 < epsilon_decay tiny_pending_agent" "epsilon_decay tiny_pending_agent < 1"
    unfolding d by (simp_all add: fl_decay_value)
  have h2: "0 < min_epsilon tiny_pending_agent" unfolding m by (rule pow2_pos)
  note p = learn_pending[OF s a, of example_evaluation]
  have l: "epsilon (learn_from_evaluation tiny_pending_agent example_evaluation)
      = 2 * pow2 (- 1074)"
    unfolding p(1) by (simp add: m d e fl_decay_value decay_step_tiny)
  have g: "min_epsilon (learn_from_evaluation tiny_pending_agent example_evaluation)
      < epsilon (learn_from_evaluation tiny_pending_agent example_evaluation)"
    unfolding l p(4) m using pow2_pos[of "- 1074"] by simp
  show ?thesis using c s a h1 h h2 l e g by simp
qed



end
